(* ===== verification/Prelude.thy ===== *)
theory Prelude
  imports
    Main
    "HOL-Library.Word"
    "HOL-Library.AList"
    "HOL-Library.State_Monad"
begin

text \<open>
  What every other theory of the development shares: the Go integer types and their
  conversions, decimal printing and parsing, the string tests the code uses, and the small
  program logic (frames, invariants and triples of stateful computations) that carries the
  component proofs.  The rules of that logic are collected in \<open>frame\<close>, \<open>inv_rules\<close>
  and \<open>triple_rules\<close>.
\<close>

named_theorems frame
named_theorems inv_rules
named_theorems triple_rules

section \<open>Go integers\<close>

text \<open>
  Unsigned Go integers are words of their width.  Signed integers (\<open>int\<close>, \<open>int64\<close>,
  \<open>int32\<close>) are mathematical integers in range; an arithmetic operation on them that can
  leave the range is wrapped by \<open>wrap64\<close> or \<open>wrap32\<close>, and a conversion to an unsigned
  type is \<open>word_of_int\<close>, which reduces modulo the width as Go does.
\<close>

type_synonym u64 = "64 word"
type_synonym u32 = "32 word"

text \<open>Instants and durations in nanoseconds, as \<open>time.Duration\<close> counts them.\<close>
type_synonym Time = int

definition wrap64 :: "int \<Rightarrow> int" where
  "wrap64 x = (x + 2 ^ 63) mod 2 ^ 64 - 2 ^ 63"

definition wrap32 :: "int \<Rightarrow> int" where
  "wrap32 x = (x + 2 ^ 31) mod 2 ^ 32 - 2 ^ 31"

abbreviation u64_of :: "int \<Rightarrow> u64" where
  "u64_of x \<equiv> word_of_int x"

abbreviation u32_of :: "int \<Rightarrow> u32" where
  "u32_of x \<equiv> word_of_int x"

text \<open>\<open>int64(u)\<close> of an unsigned 64-bit value reinterprets the bits.\<close>
definition i64_of_u64 :: "u64 \<Rightarrow> int" where
  "i64_of_u64 u = sint u"

text \<open>Division of Go's signed integers truncates towards zero.\<close>
definition go_div :: "int \<Rightarrow> int \<Rightarrow> int" where
  "go_div a b = sgn a * sgn b * (\<bar>a\<bar> div \<bar>b\<bar>)"

lemma wrap64_id [simp]: "- (2 ^ 63) \<le> x \<Longrightarrow> x < 2 ^ 63 \<Longrightarrow> wrap64 x = x"
  by (simp add: wrap64_def)

lemma wrap32_id [simp]: "- (2 ^ 31) \<le> x \<Longrightarrow> x < 2 ^ 31 \<Longrightarrow> wrap32 x = x"
  by (simp add: wrap32_def)

lemma go_div_pos: "0 \<le> a \<Longrightarrow> 0 < b \<Longrightarrow> go_div a b = a div b"
  by (cases "a = 0") (auto simp: go_div_def)

definition nanosecond :: Time where "nanosecond = 1"
definition microsecond :: Time where "microsecond = 1000"
definition millisecond :: Time where "millisecond = 1000000"
definition second :: Time where "second = 1000000000"
definition minute :: Time where "minute = 60000000000"
definition hour :: Time where "hour = 3600000000000"

lemmas duration_defs = nanosecond_def microsecond_def millisecond_def second_def minute_def hour_def

text \<open>\<open>time.Time.Unix()\<close>: whole seconds since the epoch, rounded down.\<close>
definition unix :: "Time \<Rightarrow> int" where
  "unix t = t div second"

text \<open>A MySQL \<open>datetime\<close> column keeps whole seconds and rounds half a second up.\<close>
definition datetime :: "Time \<Rightarrow> Time" where
  "datetime t = (t + 500000000) div second * second"

section \<open>Decimal text\<close>

fun dec :: "nat \<Rightarrow> string" where
  "dec n = (if n < 10 then [char_of (48 + n)] else dec (n div 10) @ [char_of (48 + n mod 10)])"

declare dec.simps [simp del]

definition is_digit :: "char \<Rightarrow> bool" where
  "is_digit c \<longleftrightarrow> 48 \<le> (of_char c :: nat) \<and> (of_char c :: nat) \<le> 57"

text \<open>\<open>\<open>%d\<close>\<close> of a signed integer and of an unsigned one.\<close>
definition show_int :: "int \<Rightarrow> string" where
  "show_int i = (if i < 0 then CHR ''-'' # dec (nat (- i)) else dec (nat i))"

definition show_word :: "'a::len word \<Rightarrow> string" where
  "show_word u = dec (unat u)"

definition digits_val :: "string \<Rightarrow> nat" where
  "digits_val s = foldl (\<lambda>n c. 10 * n + (of_char c - 48)) 0 s"

text \<open>
  \<open>strconv.Atoi\<close> and \<open>strconv.ParseInt(s, 10, 64)\<close>: an optional sign and at least one
  digit; anything else, or a value out of the range of \<open>int64\<close>, is an error.
\<close>
definition parse_digits :: "string \<Rightarrow> nat option" where
  "parse_digits s = (if s \<noteq> [] \<and> list_all is_digit s then Some (digits_val s) else None)"

definition in_int64 :: "int \<Rightarrow> bool" where
  "in_int64 i \<longleftrightarrow> - (2 ^ 63) \<le> i \<and> i < 2 ^ 63"

definition parse_int :: "string \<Rightarrow> int option" where
  "parse_int s =
     (let r = (case s of
          [] \<Rightarrow> None
        | c # cs \<Rightarrow>
            if c = CHR ''-'' then map_option (\<lambda>n. - int n) (parse_digits cs)
            else if c = CHR ''+'' then map_option int (parse_digits cs)
            else map_option int (parse_digits s))
      in case r of None \<Rightarrow> None | Some i \<Rightarrow> if in_int64 i then Some i else None)"

lemma of_char_digit [simp]: "(n::nat) < 10 \<Longrightarrow> (of_char (char_of (48 + n) :: char) :: nat) = 48 + n"
  by simp

lemma is_digit_char_of [simp]: "(n::nat) < 10 \<Longrightarrow> is_digit (char_of (48 + n))"
  by (simp add: is_digit_def)

lemma dec_nonempty [simp]: "dec n \<noteq> []"
  by (subst dec.simps) simp

lemma dec_digits [simp]: "list_all is_digit (dec n)"
proof (induction n rule: dec.induct)
  case (1 n)
  then show ?case by (subst dec.simps) (auto simp del: of_char_of)
qed

lemma digits_val_snoc: "digits_val (s @ [c]) = 10 * digits_val s + (of_char c - 48)"
  by (simp add: digits_val_def)

lemma digits_val_dec [simp]: "digits_val (dec n) = n"
proof (induction n rule: dec.induct)
  case (1 n)
  show ?case
  proof (cases "n < 10")
    case True
    then show ?thesis by (subst dec.simps) (simp add: digits_val_def)
  next
    case False
    then have "digits_val (dec (n div 10)) = n div 10" by (rule "1.IH")
    then show ?thesis using False by (subst dec.simps) (simp add: digits_val_snoc)
  qed
qed

lemma parse_digits_dec [simp]: "parse_digits (dec n) = Some n"
  by (simp add: parse_digits_def)

lemma dec_inj [simp]: "dec m = dec n \<longleftrightarrow> m = n"
  by (metis digits_val_dec)

lemma show_word_inj [simp]: "show_word u = show_word v \<longleftrightarrow> u = v"
  by (simp add: show_word_def word_unat_eq_iff)

lemma dec_head_digit: "dec n = c # cs \<Longrightarrow> is_digit c"
  using dec_digits [of n] by simp

lemma digit_not_sign: "is_digit c \<Longrightarrow> c \<noteq> CHR ''-'' \<and> c \<noteq> CHR ''+'' \<and> c \<noteq> CHR '':''"
  by (auto simp: is_digit_def)

theorem parse_show_int [simp]: "in_int64 i \<Longrightarrow> parse_int (show_int i) = Some i"
proof (cases "i < 0")
  case True
  then show "in_int64 i \<Longrightarrow> parse_int (show_int i) = Some i"
    by (simp add: parse_int_def show_int_def)
next
  case False
  obtain c cs where cs: "dec (nat i) = c # cs" by (cases "dec (nat i)") auto
  then have "c \<noteq> CHR ''-''" and "c \<noteq> CHR ''+''"
    using dec_head_digit digit_not_sign by blast+
  moreover have "parse_digits (c # cs) = Some (nat i)"
    using cs by (metis parse_digits_dec)
  ultimately show "in_int64 i \<Longrightarrow> parse_int (show_int i) = Some i"
    using False by (simp add: parse_int_def show_int_def cs)
qed

text \<open>No decimal text holds a colon: the separator of the Redis keys.\<close>

lemma dec_no_colon [simp]: "CHR '':'' \<notin> set (dec n)"
proof
  assume "CHR '':'' \<in> set (dec n)"
  then have "is_digit CHR '':''" using dec_digits by (metis list_all_iff)
  then show False using digit_not_sign by blast
qed

lemma show_word_no_colon [simp]: "CHR '':'' \<notin> set (show_word u)"
  by (simp add: show_word_def)

lemma split_at_colon:
  assumes "CHR '':'' \<notin> set a" and "CHR '':'' \<notin> set b"
  shows "a @ CHR '':'' # r = b @ CHR '':'' # s \<longleftrightarrow> a = b \<and> r = s"
  using assms
proof (induction a arbitrary: b)
  case Nil
  then show ?case by (cases b) auto
next
  case (Cons x xs)
  then show ?case by (cases b) auto
qed

lemma show_word_split [simp]:
  "show_word u @ CHR '':'' # r = show_word v @ CHR '':'' # s \<longleftrightarrow> u = v \<and> r = s"
  by (subst split_at_colon) auto

section \<open>String tests\<close>

text \<open>\<open>strings.Contains(s, p)\<close>.\<close>
fun contains :: "string \<Rightarrow> string \<Rightarrow> bool" where
  "contains [] p = (p = [])"
| "contains (c # s) p = (take (length p) (c # s) = p \<or> contains s p)"

lemma contains_append: "contains s p \<Longrightarrow> contains (q @ s) p"
  by (induction q) auto

text \<open>
  ASCII case folding and blanks: the scene names and header names the code compares are
  ASCII, and bytes outside ASCII are left as they are.
\<close>
definition upper_char :: "char \<Rightarrow> char" where
  "upper_char c = (let n = (of_char c :: nat) in if 97 \<le> n \<and> n \<le> 122 then char_of (n - 32) else c)"

definition ToUpper :: "string \<Rightarrow> string" where
  "ToUpper s = map upper_char s"

definition is_space :: "char \<Rightarrow> bool" where
  "is_space c \<longleftrightarrow> (of_char c :: nat) \<in> {9, 10, 11, 12, 13, 32}"

definition TrimSpace :: "string \<Rightarrow> string" where
  "TrimSpace s = rev (dropWhile is_space (rev (dropWhile is_space s)))"

definition EqualFold :: "string \<Rightarrow> string \<Rightarrow> bool" where
  "EqualFold s t \<longleftrightarrow> ToUpper s = ToUpper t"

lemma EqualFold_refl [simp]: "EqualFold s s"
  by (simp add: EqualFold_def)

text \<open>The UTF-8 bytes of a literal of the source that is not ASCII.\<close>
definition utf8 :: "nat list \<Rightarrow> string" where
  "utf8 bs = map char_of bs"

section \<open>Stateful computations\<close>

abbreviation return :: "'a \<Rightarrow> ('s, 'a) state" where
  "return \<equiv> State_Monad.return"

definition asks :: "('s \<Rightarrow> 'a) \<Rightarrow> ('s, 'a) state" where
  "asks f = State (\<lambda>s. (f s, s))"

definition modify :: "('s \<Rightarrow> 's) \<Rightarrow> ('s, unit) state" where
  "modify f = State (\<lambda>s. ((), f s))"

lemma run_asks [simp]: "run_state (asks f) s = (f s, s)"
  by (simp add: asks_def)

lemma run_modify [simp]: "run_state (modify f) s = ((), f s)"
  by (simp add: modify_def)

lemma run_if: "run_state (if b then m else n) s = (if b then run_state m s else run_state n s)"
  by simp

text \<open>
  \<open>for _, x := range xs\<close> with a body that ends with a value of its own is \<open>for_each\<close>;
  the body's result is dropped, as a loop body that only \<open>continue\<close>s does.
\<close>
fun for_each :: "('a \<Rightarrow> ('s, 'b) state) \<Rightarrow> 'a list \<Rightarrow> ('s, unit) state" where
  "for_each f [] = return ()"
| "for_each f (x # xs) = State_Monad.bind (f x) (\<lambda>_. for_each f xs)"

text \<open>\<open>map_each\<close> collects the bodies' values in order.\<close>
fun map_each :: "('a \<Rightarrow> ('s, 'b) state) \<Rightarrow> 'a list \<Rightarrow> ('s, 'b list) state" where
  "map_each f [] = return []"
| "map_each f (x # xs) =
     State_Monad.bind (f x) (\<lambda>y. State_Monad.bind (map_each f xs) (\<lambda>ys. return (y # ys)))"

subsection \<open>Frames: what a computation leaves unchanged\<close>

definition same :: "('s \<Rightarrow> 'b) \<Rightarrow> ('s, 'a) state \<Rightarrow> bool" where
  "same f m \<longleftrightarrow> (\<forall>s. f (snd (run_state m s)) = f s)"

lemma sameI: "(\<And>s. f (snd (run_state m s)) = f s) \<Longrightarrow> same f m"
  by (simp add: same_def)

lemma sameD: "same f m \<Longrightarrow> run_state m s = (a, s') \<Longrightarrow> f s' = f s"
  by (metis same_def snd_conv)

lemma same_snd: "same f m \<Longrightarrow> f (snd (run_state m s)) = f s"
  by (simp add: same_def)

lemma same_return [frame]: "same f (return x)"
  by (simp add: same_def)

lemma same_asks [frame]: "same f (asks g)"
  by (simp add: same_def)

lemma same_bind [frame]:
  "same f m \<Longrightarrow> (\<And>a. same f (g a)) \<Longrightarrow> same f (State_Monad.bind m g)"
  by (simp add: same_def case_prod_beta)

lemma same_if [frame]: "(b \<Longrightarrow> same f m) \<Longrightarrow> (\<not> b \<Longrightarrow> same f n) \<Longrightarrow> same f (if b then m else n)"
  by simp

lemma same_case_sum [frame]:
  "(\<And>a. x = Inl a \<Longrightarrow> same f (g a)) \<Longrightarrow> (\<And>b. x = Inr b \<Longrightarrow> same f (h b)) \<Longrightarrow> same f (case_sum g h x)"
  by (cases x) auto

lemma same_case_option [frame]:
  "(x = None \<Longrightarrow> same f g) \<Longrightarrow> (\<And>b. x = Some b \<Longrightarrow> same f (h b)) \<Longrightarrow> same f (case_option g h x)"
  by (cases x) auto

lemma same_case_prod [frame]: "(\<And>a b. x = (a, b) \<Longrightarrow> same f (h a b)) \<Longrightarrow> same f (case_prod h x)"
  by (cases x) auto

lemma same_Let [frame]: "same f (h x) \<Longrightarrow> same f (Let x h)"
  by simp

lemma same_for_each [frame]: "(\<And>x. same f (g x)) \<Longrightarrow> same f (for_each g xs)"
  by (induction xs) (simp_all add: same_return same_bind)

lemma same_map_each [frame]:
  assumes "\<And>x. same f (g x)"
  shows "same f (map_each g xs)"
proof (induction xs)
  case Nil
  show ?case by (simp add: same_return)
next
  case (Cons x xs)
  show ?case by (simp, intro same_bind same_return assms Cons.IH)
qed

lemma same_pair: "same f m \<Longrightarrow> same g m \<Longrightarrow> same (\<lambda>s. (f s, g s)) m"
  by (simp add: same_def)

lemma same_comp: "same f m \<Longrightarrow> same (\<lambda>s. h (f s)) m"
  by (simp add: same_def)

subsection \<open>Invariants and triples\<close>

definition keeps :: "('s \<Rightarrow> bool) \<Rightarrow> ('s, 'a) state \<Rightarrow> bool" where
  "keeps I m \<longleftrightarrow> (\<forall>s. I s \<longrightarrow> I (snd (run_state m s)))"

lemma keepsD: "keeps I m \<Longrightarrow> I s \<Longrightarrow> I (snd (run_state m s))"
  by (simp add: keeps_def)

lemma keepsI: "(\<And>s. I s \<Longrightarrow> I (snd (run_state m s))) \<Longrightarrow> keeps I m"
  by (simp add: keeps_def)

lemma keeps_return [inv_rules]: "keeps I (return x)"
  by (simp add: keeps_def)

lemma keeps_asks [inv_rules]: "keeps I (asks g)"
  by (simp add: keeps_def)

lemma keeps_bind [inv_rules]:
  "keeps I m \<Longrightarrow> (\<And>a. keeps I (g a)) \<Longrightarrow> keeps I (State_Monad.bind m g)"
  by (simp add: keeps_def case_prod_beta)

lemma keeps_if [inv_rules]: "(b \<Longrightarrow> keeps I m) \<Longrightarrow> (\<not> b \<Longrightarrow> keeps I n) \<Longrightarrow> keeps I (if b then m else n)"
  by simp

lemma keeps_case_sum [inv_rules]:
  "(\<And>a. x = Inl a \<Longrightarrow> keeps I (g a)) \<Longrightarrow> (\<And>b. x = Inr b \<Longrightarrow> keeps I (h b)) \<Longrightarrow> keeps I (case_sum g h x)"
  by (cases x) auto

lemma keeps_case_option [inv_rules]:
  "(x = None \<Longrightarrow> keeps I g) \<Longrightarrow> (\<And>b. x = Some b \<Longrightarrow> keeps I (h b)) \<Longrightarrow> keeps I (case_option g h x)"
  by (cases x) auto

lemma keeps_case_prod [inv_rules]: "(\<And>a b. x = (a, b) \<Longrightarrow> keeps I (h a b)) \<Longrightarrow> keeps I (case_prod h x)"
  by (cases x) auto

lemma keeps_Let [inv_rules]: "keeps I (h x) \<Longrightarrow> keeps I (Let x h)"
  by simp

lemma keeps_for_each [inv_rules]: "(\<And>x. keeps I (g x)) \<Longrightarrow> keeps I (for_each g xs)"
  by (induction xs) (simp_all add: keeps_return keeps_bind)

lemma keeps_same: "same f m \<Longrightarrow> keeps (\<lambda>s. I (f s)) m"
  by (simp add: same_def keeps_def)

text \<open>\<open>triple P m Q\<close>: from a state in \<open>P\<close>, the value and the new state are in \<open>Q\<close>.\<close>

definition triple :: "('s \<Rightarrow> bool) \<Rightarrow> ('s, 'a) state \<Rightarrow> ('a \<Rightarrow> 's \<Rightarrow> bool) \<Rightarrow> bool" where
  "triple P m Q \<longleftrightarrow> (\<forall>s. P s \<longrightarrow> (case run_state m s of (a, s') \<Rightarrow> Q a s'))"

lemma tripleI: "(\<And>s a s'. P s \<Longrightarrow> run_state m s = (a, s') \<Longrightarrow> Q a s') \<Longrightarrow> triple P m Q"
  by (auto simp: triple_def split: prod.split)

lemma tripleD: "triple P m Q \<Longrightarrow> P s \<Longrightarrow> run_state m s = (a, s') \<Longrightarrow> Q a s'"
  by (auto simp: triple_def split: prod.splits)

lemma triple_bind:
  "triple P m R \<Longrightarrow> (\<And>a. triple (R a) (g a) Q) \<Longrightarrow> triple P (State_Monad.bind m g) Q"
  by (fastforce simp: triple_def split: prod.splits)

lemma triple_return: "(\<And>s. P s \<Longrightarrow> Q x s) \<Longrightarrow> triple P (return x) Q"
  by (simp add: triple_def)

lemma triple_conseq:
  "triple P m Q \<Longrightarrow> (\<And>s. P' s \<Longrightarrow> P s) \<Longrightarrow> (\<And>a s. Q a s \<Longrightarrow> Q' a s) \<Longrightarrow> triple P' m Q'"
  by (fastforce simp: triple_def split: prod.splits)

lemma triple_if:
  "(b \<Longrightarrow> triple P m Q) \<Longrightarrow> (\<not> b \<Longrightarrow> triple P n Q) \<Longrightarrow> triple P (if b then m else n) Q"
  by simp

lemma triple_case_sum:
  "(\<And>a. x = Inl a \<Longrightarrow> triple P (g a) Q) \<Longrightarrow> (\<And>b. x = Inr b \<Longrightarrow> triple P (h b) Q) \<Longrightarrow> triple P (case_sum g h x) Q"
  by (cases x) auto

section \<open>Tables: the SQL statements of the source on a list of rows\<close>

text \<open>
  A table is the list of its rows in primary-key order.  \<open>First()\<close> orders by the primary
  key and takes one row; an \<open>UPDATE ... SET f WHERE p\<close> maps \<open>f\<close> over the rows in \<open>p\<close>
  and reports the number of rows it changed (the MySQL driver's default: a matched row that
  keeps its values is not counted); an \<open>INSERT\<close> fails when a row agrees with the new one on
  a unique key.
\<close>

definition sql_first :: "('r \<Rightarrow> bool) \<Rightarrow> 'r list \<Rightarrow> 'r option" where
  "sql_first p t = List.find p t"

definition sql_update :: "('r \<Rightarrow> bool) \<Rightarrow> ('r \<Rightarrow> 'r) \<Rightarrow> 'r list \<Rightarrow> 'r list" where
  "sql_update p f t = map (\<lambda>r. if p r then f r else r) t"

definition sql_affected :: "('r \<Rightarrow> bool) \<Rightarrow> ('r \<Rightarrow> 'r) \<Rightarrow> 'r list \<Rightarrow> nat" where
  "sql_affected p f t = length (filter (\<lambda>r. p r \<and> f r \<noteq> r) t)"

definition sql_clash :: "('r \<Rightarrow> 'r \<Rightarrow> bool) \<Rightarrow> 'r \<Rightarrow> 'r list \<Rightarrow> bool" where
  "sql_clash k r t \<longleftrightarrow> list_ex (k r) t"

lemma sql_first_Some: "sql_first p t = Some r \<Longrightarrow> r \<in> set t \<and> p r"
  by (auto simp: sql_first_def find_Some_iff)

lemma sql_first_None: "sql_first p t = None \<longleftrightarrow> (\<forall>r \<in> set t. \<not> p r)"
  by (auto simp: sql_first_def find_None_iff)

lemma sql_affected_0: "sql_affected p f t = 0 \<longleftrightarrow> (\<forall>r \<in> set t. p r \<longrightarrow> f r = r)"
  by (auto simp: sql_affected_def filter_empty_conv)

lemma sql_update_unaffected: "sql_affected p f t = 0 \<Longrightarrow> sql_update p f t = t"
  by (simp add: sql_affected_0 sql_update_def map_idI)

lemma length_sql_update [simp]: "length (sql_update p f t) = length t"
  by (simp add: sql_update_def)

lemma map_sql_update:
  "(\<And>r. p r \<Longrightarrow> g (f r) = g r) \<Longrightarrow> map g (sql_update p f t) = map g t"
  by (induction t) (auto simp: sql_update_def)

lemma set_sql_update: "set (sql_update p f t) = (\<lambda>r. if p r then f r else r) ` set t"
  by (simp add: sql_update_def)

end
