(* ===== verification/Types.thy ===== *)
theory Types
  imports Prelude
begin

text \<open>
  The data of the program: the error values of \<open>internal/biz/biz.go\<close>, the table rows of
  \<open>internal/data/*/model\<close>, the business records of \<open>internal/biz/model.go\<close>,
  \<open>response.go\<close> and \<open>interface.go\<close>, and the messages of \<open>internal/mq\<close>.
  Field names are the Go names behind a prefix for the struct; a pointer to a scalar is an
  option.  JSON text is represented by the document it denotes.
\<close>

section \<open>Errors\<close>

text \<open>
  \<open>OutOfFuel\<close> is no error of the code: it is the value of a waiting loop of the model whose
  fuel ran out, and the theorems on those loops say which fuel is enough.  What a driver or a server returns when a call fails: a text and, for a \<open>net.Error\<close>,
  whether it is a timeout or temporary.  \<open>context.Canceled\<close> is a value of its own.
\<close>

datatype driver_error =
    NetError string bool
  | ServerError string
  | ContextCanceled

datatype error =
    ErrSystemBusy
  | ErrTooManyRequests
  | ErrDuplicateRequest
  | ErrNoActiveActivity
  | ErrActivityNotStart
  | ErrActivityEnded
  | ErrActivityNotFound
  | ErrProductNotFound
  | ErrInsufficientStock
  | ErrExceedLimit
  | ErrStockUpdateConflict
  | ErrInvalidCacheAsideUpdate
  | ErrOrderNotFound
  | ErrOrderStatusIncorrect
  | ErrOrderTimeout
  | ErrOrderExists
  | ErrPaymentExists
  | ErrPayInfoNotFound
  | ErrPayAmountMismatch
  | ErrInvalidPaySign
  | ErrDeadLetterNotFound
  | ErrUserNotMatch
  | ErrAddressNotFound
  | ErrAlreadyBought
  | ErrCouponInvalid
  | ErrCouponUsed
  | ErrCouponNotMatch
  | ErrCouponSceneInvalid
  | RecordNotFound
  | RedisNil
  | WrongType
  | JsonError
  | TimeParseError string
  | Plain string
  | Driver driver_error
  | Wrapped string error
  | OutOfFuel

text \<open>\<open>errors.Is\<close>: equal, or wrapped around an equal error.\<close>

fun errors_is :: "error \<Rightarrow> error \<Rightarrow> bool" where
  "errors_is (Wrapped p e) t = (Wrapped p e = t \<or> errors_is e t)"
| "errors_is e t = (e = t)"

text \<open>\<open>err.Error()\<close>, byte for byte.\<close>

fun driver_text :: "driver_error \<Rightarrow> string" where
  "driver_text (NetError s _) = s"
| "driver_text (ServerError s) = s"
| "driver_text ContextCanceled = ''context canceled''"

fun err_text :: "error \<Rightarrow> string" where
  "err_text ErrSystemBusy =
     utf8 [231, 179, 187, 231, 187, 159, 231, 185, 129, 229, 191, 153, 239, 188, 140, 232, 175, 183, 231, 168, 141, 229, 144, 142, 229, 134, 141, 232, 175, 149]"
| "err_text ErrTooManyRequests =
     utf8 [232, 175, 183, 230, 177, 130, 232, 191, 135, 228, 186, 142, 233, 162, 145, 231, 185, 129, 239, 188, 140, 232, 175, 183, 231, 168, 141, 229, 144, 142, 229, 134, 141, 232, 175, 149]"
| "err_text ErrDuplicateRequest =
     utf8 [233, 135, 141, 229, 164, 141, 232, 175, 183, 230, 177, 130, 239, 188, 140, 232, 175, 183, 229, 139, 191, 233, 135, 141, 229, 164, 141, 230, 143, 144, 228, 186, 164]"
| "err_text ErrNoActiveActivity =
     utf8 [230, 154, 130, 230, 151, 160, 232, 191, 155, 232, 161, 140, 228, 184, 173, 231, 154, 132, 231, 167, 146, 230, 157, 128, 230, 180, 187, 229, 138, 168]"
| "err_text ErrActivityNotStart =
     utf8 [230, 180, 187, 229, 138, 168, 229, 176, 154, 230, 156, 170, 229, 188, 128, 229, 167, 139]"
| "err_text ErrActivityEnded =
     utf8 [230, 180, 187, 229, 138, 168, 229, 183, 178, 231, 187, 147, 230, 157, 159]"
| "err_text ErrActivityNotFound =
     utf8 [230, 180, 187, 229, 138, 168, 228, 184, 141, 229, 173, 152, 229, 156, 168]"
| "err_text ErrProductNotFound =
     utf8 [229, 149, 134, 229, 147, 129, 228, 184, 141, 229, 173, 152, 229, 156, 168]"
| "err_text ErrInsufficientStock =
     utf8 [229, 186, 147, 229, 173, 152, 228, 184, 141, 232, 182, 179]"
| "err_text ErrExceedLimit =
     utf8 [232, 182, 133, 232, 191, 135, 233, 153, 144, 232, 180, 173, 230, 149, 176, 233, 135, 143]"
| "err_text ErrStockUpdateConflict =
     utf8 [229, 186, 147, 229, 173, 152, 230, 155, 180, 230, 150, 176, 229, 134, 178, 231, 170, 129]"
| "err_text ErrInvalidCacheAsideUpdate =
     utf8 [231, 188, 147, 229, 173, 152, 228, 184, 128, 232, 135, 180, 230, 128, 167, 230, 155, 180, 230, 150, 176, 229, 143, 130, 230, 149, 176, 230, 151, 160, 230, 149, 136]"
| "err_text ErrOrderNotFound =
     utf8 [232, 174, 162, 229, 141, 149, 228, 184, 141, 229, 173, 152, 229, 156, 168]"
| "err_text ErrOrderStatusIncorrect =
     utf8 [232, 174, 162, 229, 141, 149, 231, 138, 182, 230, 128, 129, 228, 184, 141, 230, 173, 163, 231, 161, 174]"
| "err_text ErrOrderTimeout =
     utf8 [232, 174, 162, 229, 141, 149, 229, 183, 178, 232, 182, 133, 230, 151, 182, 239, 188, 140, 232, 175, 183, 233, 135, 141, 230, 150, 176, 228, 184, 139, 229, 141, 149]"
| "err_text ErrOrderExists =
     utf8 [232, 174, 162, 229, 141, 149, 229, 183, 178, 229, 173, 152, 229, 156, 168]"
| "err_text ErrPaymentExists =
     utf8 [230, 148, 175, 228, 187, 152, 230, 181, 129, 230, 176, 180, 229, 183, 178, 229, 173, 152, 229, 156, 168]"
| "err_text ErrPayInfoNotFound =
     utf8 [230, 148, 175, 228, 187, 152, 229, 141, 149, 228, 184, 141, 229, 173, 152, 229, 156, 168]"
| "err_text ErrPayAmountMismatch =
     utf8 [230, 148, 175, 228, 187, 152, 233, 135, 145, 233, 162, 157, 228, 184, 141, 228, 184, 128, 232, 135, 180]"
| "err_text ErrInvalidPaySign =
     utf8 [230, 148, 175, 228, 187, 152, 229, 155, 158, 232, 176, 131, 231, 173, 190, 229, 144, 141, 230, 151, 160, 230, 149, 136]"
| "err_text ErrDeadLetterNotFound =
     utf8 [230, 173, 187, 228, 191, 161, 233, 152, 159, 229, 136, 151, 228, 184, 141, 229, 173, 152, 229, 156, 168]"
| "err_text ErrUserNotMatch =
     utf8 [231, 148, 168, 230, 136, 183, 228, 184, 141, 229, 140, 185, 233, 133, 141]"
| "err_text ErrAddressNotFound =
     utf8 [230, 148, 182, 232, 180, 167, 229, 156, 176, 229, 157, 128, 228, 184, 141, 229, 173, 152, 229, 156, 168]"
| "err_text ErrAlreadyBought =
     utf8 [230, 130, 168, 229, 183, 178, 232, 180, 173, 228, 185, 176, 232, 191, 135, 232, 175, 165, 229, 149, 134, 229, 147, 129, 239, 188, 140, 228, 184, 141, 229, 143, 175, 233, 135, 141, 229, 164, 141, 232, 180, 173, 228, 185, 176]"
| "err_text ErrCouponInvalid =
     utf8 [228, 188, 152, 230, 131, 160, 229, 136, 184, 230, 151, 160, 230, 149, 136, 230, 136, 150, 229, 183, 178, 232, 191, 135, 230, 156, 159]"
| "err_text ErrCouponUsed =
     utf8 [228, 188, 152, 230, 131, 160, 229, 136, 184, 229, 183, 178, 232, 162, 171, 228, 189, 191, 231, 148, 168]"
| "err_text ErrCouponNotMatch =
     utf8 [228, 184, 141, 230, 187, 161, 232, 182, 179, 228, 188, 152, 230, 131, 160, 229, 136, 184, 228, 189, 191, 231, 148, 168, 230, 157, 161, 228, 187, 182]"
| "err_text ErrCouponSceneInvalid =
     utf8 [229, 143, 145, 229, 136, 184, 229, 156, 186, 230, 153, 175, 228, 184, 141, 230, 187, 161, 232, 182, 179, 230, 157, 161, 228, 187, 182]"
| "err_text RecordNotFound = ''record not found''"
| "err_text RedisNil = ''redis: nil''"
| "err_text WrongType = ''WRONGTYPE Operation against a key holding the wrong kind of value''"
| "err_text JsonError = ''invalid character''"
| "err_text (TimeParseError s) = ''parsing time '' @ s"
| "err_text (Plain s) = s"
| "err_text (Driver d) = driver_text d"
| "err_text (Wrapped p e) = p @ '': '' @ err_text e"
| "err_text OutOfFuel = []"

section \<open>Messages\<close>

record SeckillOrderMessage =
  msg_OrderNo :: string
  msg_RequestID :: string
  msg_UserID :: u64
  msg_SkuID :: u64
  msg_ActivityID :: u64
  msg_ProductID :: u64
  msg_ProductName :: string
  msg_ProductImage :: string
  msg_Quantity :: int
  msg_AddressID :: u64
  msg_CouponID :: u64
  msg_OrderAmount :: u64
  msg_CouponDiscount :: u64
  msg_FinalAmount :: u64
  msg_SeckillPrice :: u64
  msg_Version :: u32
  msg_Timestamp :: int
  msg_EventID :: string
  msg_TraceID :: string
  msg_RetryCount :: int

record SeckillResultMessage =
  srm_OrderNo :: string
  srm_UserID :: u64
  srm_Status :: int
  srm_FailReason :: string
  srm_Timestamp :: int

text \<open>The text of a message on an order topic: a document or text that does not decode.\<close>

datatype raw = RawOrder SeckillOrderMessage | RawText string

record MqDeadLetter =
  dlm_EventID :: string
  dlm_Topic :: string
  dlm_Partition :: int
  dlm_Offset :: int
  dlm_OriginalMsg :: SeckillOrderMessage
  dlm_RawPayload :: raw
  dlm_LastError :: string
  dlm_RetryCount :: int
  dlm_NextRetryAt :: int

datatype kvalue = KRaw raw | KDlq MqDeadLetter | KResult SeckillResultMessage

section \<open>Table rows\<close>

record SeckillSkuRow =
  sku_ID :: u64
  sku_ActivityID :: u64
  sku_ProductID :: u64
  sku_SeckillPrice :: u64
  sku_MarketPrice :: u64
  sku_TotalStock :: u32
  sku_AvailableStock :: u32
  sku_LimitNum :: "u32 option"
  sku_Version :: u32
  sku_CreateTime :: "Time option"
  sku_UpdateTime :: "Time option"

record SeckillActivityRow =
  acr_ID :: u64
  acr_Title :: string
  acr_Description :: string
  acr_StartTime :: Time
  acr_EndTime :: Time
  acr_Status :: int
  acr_CreateTime :: "Time option"
  acr_UpdateTime :: "Time option"

record CouponRow =
  cpr_ID :: u64
  cpr_Name :: string
  cpr_Type :: int
  cpr_Value :: u64
  cpr_MinAmount :: u64
  cpr_TotalCount :: u32
  cpr_RemainCount :: u32
  cpr_UserLimit :: "u32 option"
  cpr_StartTime :: Time
  cpr_EndTime :: Time
  cpr_Version :: u32
  cpr_CreateTime :: "Time option"
  cpr_UpdateTime :: "Time option"

record UserCouponRow =
  ucr_ID :: u64
  ucr_UserID :: u64
  ucr_CouponID :: u64
  ucr_Scene :: string
  ucr_SourceType :: string
  ucr_SourceID :: string
  ucr_IdempotencyKey :: string
  ucr_Status :: int
  ucr_ReceivedTime :: Time
  ucr_UsedTime :: "Time option"
  ucr_ExpireTime :: Time
  ucr_CreateTime :: "Time option"
  ucr_UpdateTime :: "Time option"
  ucr_Coupon :: "CouponRow option"

record SeckillOrderRow =
  orw_ID :: u64
  orw_OrderNo :: string
  orw_RequestID :: string
  orw_UserID :: u64
  orw_ActivityID :: u64
  orw_ProductID :: u64
  orw_SkuID :: u64
  orw_ProductName :: string
  orw_ProductImage :: string
  orw_SeckillPrice :: u64
  orw_Quantity :: "u32 option"
  orw_OrderAmount :: u64
  orw_FinalAmount :: "u64 option"
  orw_CouponID :: "u64 option"
  orw_CouponDiscount :: u64
  orw_AddressID :: "u64 option"
  orw_Status :: u32
  orw_PayTime :: "Time option"
  orw_CreateTime :: "Time option"
  orw_UpdateTime :: "Time option"

record OrderShippingRow =
  shp_ID :: u64
  shp_OrderNo :: string
  shp_ReceiverName :: string
  shp_ReceiverPhone :: string
  shp_Province :: string
  shp_City :: string
  shp_District :: string
  shp_DetailAddress :: string
  shp_CreateTime :: "Time option"

record UserAddressRow =
  uad_ID :: u64
  uad_UserID :: u64
  uad_ReceiverName :: string
  uad_ReceiverPhone :: string
  uad_Province :: string
  uad_City :: string
  uad_District :: string
  uad_DetailAddress :: string
  uad_IsDefault :: u32
  uad_IsDelete :: u32
  uad_CreateTime :: "Time option"
  uad_UpdateTime :: "Time option"

record ProductRow =
  prd_ID :: u64
  prd_Name :: string
  prd_Subtitle :: string
  prd_MainImage :: string
  prd_Detail :: "string option"
  prd_Status :: "int option"
  prd_CreateTime :: "Time option"
  prd_UpdateTime :: "Time option"

record PayInfoRow =
  pir_ID :: u64
  pir_OrderNo :: string
  pir_UserID :: u64
  pir_PayPlatform :: int
  pir_PlatformNumber :: string
  pir_PlatformStatus :: string
  pir_PayAmount :: u64
  pir_PayTime :: "Time option"
  pir_CreateTime :: "Time option"
  pir_UpdateTime :: "Time option"

record MqDeadLetterMessageRow =
  dlr_ID :: u64
  dlr_EventID :: string
  dlr_Topic :: string
  dlr_PartitionID :: int
  dlr_OffsetID :: int
  dlr_OrderNo :: string
  dlr_RequestID :: string
  dlr_TraceID :: string
  dlr_RetryCount :: int
  dlr_ErrorMessage :: string
  dlr_RawPayload :: raw
  dlr_Status :: "string option"
  dlr_CreateTime :: "Time option"
  dlr_UpdateTime :: "Time option"

section \<open>Business records\<close>

record SeckillProduct =
  sp_SkuID :: u64
  sp_ActivityID :: u64
  sp_ProductID :: u64
  sp_Name :: string
  sp_MainImage :: string
  sp_SeckillPrice :: u64
  sp_MarketPrice :: u64
  sp_AvailableStock :: int
  sp_TotalStock :: int
  sp_LimitNum :: int
  sp_SaleRate :: int
  sp_UserHasBought :: bool

record SeckillProductDetail =
  pd_ProductID :: u64
  pd_Name :: string
  pd_Subtitle :: string
  pd_MainImage :: string
  pd_Detail :: string
  pd_SkuID :: u64
  pd_SeckillPrice :: u64
  pd_MarketPrice :: u64
  pd_TotalStock :: int
  pd_AvailableStock :: int
  pd_LimitNum :: int
  pd_ActivityID :: u64
  pd_ActivityTitle :: string
  pd_Description :: string
  pd_StartTime :: string
  pd_EndTime :: string
  pd_ActivityStatus :: int
  pd_RemainingSeconds :: int
  pd_Version :: u32

record Activity =
  act_ID :: u64
  act_Title :: string
  act_Description :: string
  act_StartTime :: string
  act_EndTime :: string
  act_Status :: int
  act_RemainingSeconds :: int

record UserBuyRecord =
  ubr_HasBought :: bool
  ubr_Quantity :: int

record UserSeckillStatus =
  uss_HasBought :: bool
  uss_BoughtQuantity :: int
  uss_CanBuy :: bool
  uss_RemainingLimit :: int
  uss_Message :: string

record Address =
  addr_ID :: u64
  addr_ReceiverName :: string
  addr_ReceiverPhone :: string
  addr_Province :: string
  addr_City :: string
  addr_District :: string
  addr_DetailAddress :: string
  addr_IsDefault :: bool

record AddressSnapshot =
  snap_ReceiverName :: string
  snap_ReceiverPhone :: string
  snap_Province :: string
  snap_City :: string
  snap_District :: string
  snap_DetailAddress :: string

record Coupon =
  cpn_ID :: u64
  cpn_Name :: string
  cpn_Type :: int
  cpn_Value :: u64
  cpn_MinAmount :: u64
  cpn_Version :: u32

record UserCoupon =
  ucp_ID :: u64
  ucp_UserID :: u64
  ucp_CouponID :: u64
  ucp_Name :: string
  ucp_Type :: int
  ucp_Value :: u64
  ucp_MinAmount :: u64
  ucp_Scene :: string
  ucp_SourceType :: string
  ucp_SourceID :: string
  ucp_IdempotencyKey :: string
  ucp_Status :: int
  ucp_ReceivedTime :: string
  ucp_UsedTime :: string
  ucp_ExpireTime :: string
  ucp_Version :: u32

record Order =
  ord_OrderNo :: string
  ord_UserID :: u64
  ord_RequestID :: string
  ord_ActivityID :: u64
  ord_ProductID :: u64
  ord_SkuID :: u64
  ord_ProductName :: string
  ord_ProductImage :: string
  ord_SeckillPrice :: u64
  ord_Quantity :: int
  ord_OrderAmount :: u64
  ord_CouponID :: u64
  ord_CouponDiscount :: u64
  ord_FinalAmount :: u64
  ord_AddressID :: u64
  ord_Status :: int

record OrderInfo =
  oi_OrderNo :: string
  oi_UserID :: u64
  oi_ActivityID :: u64
  oi_ProductID :: u64
  oi_SkuID :: u64
  oi_ProductName :: string
  oi_ProductImage :: string
  oi_SeckillPrice :: u64
  oi_Quantity :: int
  oi_OrderAmount :: u64
  oi_CouponID :: u64
  oi_CouponDiscount :: u64
  oi_FinalAmount :: u64
  oi_Status :: int
  oi_CreateTime :: string
  oi_PayTime :: string
  oi_Address :: "AddressSnapshot option"
  oi_RemainingSeconds :: int

record PayInfo =
  pay_OrderNo :: string
  pay_UserID :: u64
  pay_PayPlatform :: int
  pay_PlatformNumber :: string
  pay_PlatformStatus :: string
  pay_PayAmount :: u64
  pay_PayTime :: "Time option"

record PendingReservation =
  pr_OrderNo :: string
  pr_RequestID :: string
  pr_UserID :: u64
  pr_ActivityID :: u64
  pr_SkuID :: u64
  pr_Quantity :: int
  pr_CouponID :: u64
  pr_CreatedAt :: int

record DeadLetterMessage =
  dl_ID :: u64
  dl_EventID :: string
  dl_Topic :: string
  dl_Partition :: int
  dl_Offset :: int
  dl_OrderNo :: string
  dl_RequestID :: string
  dl_TraceID :: string
  dl_RetryCount :: int
  dl_ErrorMessage :: string
  dl_RawPayload :: raw
  dl_Status :: string
  dl_CreateTime :: Time
  dl_UpdateTime :: Time

record SkuStock =
  sst_ID :: u64
  sst_Stock :: int
  sst_SeckillPrice :: u64
  sst_Version :: u32

record CouponTemplate =
  ct_Name :: string
  ct_Type :: int
  ct_Value :: u64
  ct_MinAmount :: u64
  ct_ValidDays :: int

record CachedSeckillProduct =
  csp_SkuID :: u64
  csp_ProductID :: u64
  csp_ActivityID :: u64
  csp_Name :: string
  csp_MainImage :: string
  csp_SeckillPrice :: u64
  csp_MarketPrice :: u64
  csp_AvailableStock :: int
  csp_TotalStock :: int
  csp_LimitNum :: int
  csp_StartTime :: string
  csp_EndTime :: string
  csp_ActivityStatus :: int

record SeckillProductsResult =
  spr_Products :: "SeckillProduct list"
  spr_Total :: int
  spr_Page :: int
  spr_PageSize :: int
  spr_Activity :: "Activity option"

record CouponInfo =
  ci_ID :: u64
  ci_Name :: string
  ci_Type :: int
  ci_Value :: u64
  ci_MinAmount :: u64
  ci_EndTime :: string
  ci_IsUsable :: bool

record ProductDetailResult =
  pdr_Product :: "SeckillProductDetail option"
  pdr_AvailableCoupons :: "CouponInfo list"
  pdr_UserStatus :: "UserSeckillStatus option"

record CreateOrderRequest =
  cor_UserID :: u64
  cor_SkuID :: u64
  cor_ActivityID :: u64
  cor_ProductID :: u64
  cor_Quantity :: int
  cor_CouponID :: u64
  cor_AddressID :: u64
  cor_ClientIP :: string
  cor_RequestID :: string

record GrantCouponRequest =
  gcr_UserID :: u64
  gcr_ReviewID :: u64
  gcr_OrderNo :: string
  gcr_ProductID :: u64
  gcr_Rating :: int
  gcr_HasImage :: bool
  gcr_IsFirstReview :: bool
  gcr_Scene :: string
  gcr_IdempotencyKey :: string

record GrantCouponResult =
  gcs_Coupon :: "UserCoupon option"
  gcs_Duplicated :: bool
  gcs_Message :: string

record UpdateActivityRequest =
  uar_ActivityID :: u64
  uar_Title :: string
  uar_Description :: string
  uar_StartTime :: string
  uar_EndTime :: string
  uar_Status :: int
  uar_WarmUp :: bool

record UpdateProductRequest =
  upr_ActivityID :: u64
  upr_ProductID :: u64
  upr_Name :: string
  upr_Subtitle :: string
  upr_MainImage :: string
  upr_Detail :: string
  upr_ProductStatus :: int
  upr_SeckillPrice :: u64
  upr_MarketPrice :: u64
  upr_TotalStock :: u32
  upr_AvailableStock :: u32
  upr_LimitNum :: u32
  upr_WarmUp :: bool

record CreateOrderResult =
  crs_OrderNo :: string
  crs_OrderAmount :: u64
  crs_CouponDiscount :: u64
  crs_FinalAmount :: u64
  crs_Status :: int
  crs_SeckillPrice :: u64
  crs_Quantity :: int
  crs_Message :: string
  crs_RemainingSeconds :: int

record PayOrderRequest =
  por_OrderNo :: string
  por_UserID :: u64
  por_PayPlatform :: int

record PayOrderResult =
  pos_Success :: bool
  pos_PayAmount :: u64
  pos_PlatformNumber :: string
  pos_Message :: string

record SeckillResult =
  srs_Status :: int
  srs_OrderNo :: string
  srs_Message :: string
  srs_OrderAmount :: u64

record PayCallbackRequest =
  pcr_OrderNo :: string
  pcr_PlatformNumber :: string
  pcr_PayAmount :: u64
  pcr_PlatformStatus :: string
  pcr_PayTime :: int
  pcr_Sign :: string

record PayCallbackResult =
  pcs_Success :: bool
  pcs_Message :: string

end
