(* ===== verification/World.thy ===== *)
theory World
  imports Complex_Main Types
begin

text \<open>
  The world the service runs in.  Redis, MySQL and Kafka are services outside the repository:
  whether a call to one of them is carried out, and whether its answer arrives, is a parameter
  of the model, the list \<open>replies\<close> consumed by \<open>call\<close>, over which every theorem quantifies.
  What a call that is carried out means is the meaning of the statement the source itself
  spells out: a Redis command or Lua script, an SQL statement, a record sent to a topic.  The
  record \<open>env\<close> holds the functions of third-party and standard libraries whose code is not
  in the repository (identifiers, hashing, calendar, Bloom filter); \<open>scan_plan\<close> is the list of
  pages a full \<open>SCAN\<close> iteration returns for the keys that exist when it starts,
  and \<open>fl\<close> rounds a number to a double.
\<close>

section \<open>Service replies\<close>

datatype reply =
    Answered                 \<comment> \<open>carried out, the answer arrives\<close>
  | Refused driver_error     \<comment> \<open>not carried out, an error arrives\<close>
  | Lost driver_error        \<comment> \<open>carried out, but the caller sees an error (lost reply)\<close>

section \<open>Redis values\<close>

text \<open>Documents kept in Redis as JSON text.\<close>

datatype doc =
    DActivity Activity
  | DDetail SeckillProductDetail
  | DList SeckillProductsResult
  | DCached CachedSeckillProduct
  | DPending PendingReservation

text \<open>
  The text of a Redis string: a decimal integer, a decimal with twelve places (\<open>SDec n\<close> is
  the text of \<open>n\<close> times ten to the minus twelve), a JSON document, or any other text, not a
  number.
\<close>

datatype sval = SInt int | SDec int | SJson doc | STxt string

datatype rval =
    RStr sval
  | RHash "(string \<times> sval) list"
  | RZset "(string \<times> int) list"
  | RBloom "string list"

type_synonym keyspace = "(string \<times> rval \<times> Time option) list"

section \<open>Kafka records\<close>

record ProducerMessage =
  pm_Topic :: string
  pm_Key :: string
  pm_Value :: kvalue
  pm_Headers :: "(string \<times> string) list"

record ConsumerMessage =
  cm_Topic :: string
  cm_Partition :: int
  cm_Offset :: int
  cm_Value :: kvalue
  cm_Headers :: "(string \<times> string) list"

section \<open>State\<close>

text \<open>The core database, the only one a transaction covers.\<close>

record core_db =
  skus :: "SeckillSkuRow list"
  activities :: "SeckillActivityRow list"
  coupons :: "CouponRow list"
  user_coupons :: "UserCouponRow list"
  orders :: "SeckillOrderRow list"
  shippings :: "OrderShippingRow list"

record world =
  replies :: "reply list"
  clock :: Time
  ticks :: nat
  auto_id :: nat
  keyspace :: keyspace
  core :: core_db
  addresses :: "UserAddressRow list"
  products :: "ProductRow list"
  pay_infos :: "PayInfoRow list"
  dead_letters :: "MqDeadLetterMessageRow list"
  kafka_log :: "ProducerMessage list"
  committed :: "string \<times> int \<Rightarrow> int"

type_synonym 'a io = "(world, error + 'a) state"

record env =
  format_time :: "Time \<Rightarrow> string"
  parse_time :: "string \<Rightarrow> Time option"
  add_date :: "int \<Rightarrow> int \<Rightarrow> int \<Rightarrow> Time \<Rightarrow> Time"
  md5_hex :: "string \<Rightarrow> string"
  snowflake :: "nat \<Rightarrow> int"
  uuid :: "nat \<Rightarrow> string"
  rand_below :: "nat \<Rightarrow> int \<Rightarrow> int"
  trace_id :: string
  trace_headers :: "(string \<times> string) list"
  bloom_fp :: "string \<Rightarrow> string \<Rightarrow> bool"
  scan_plan :: "string list \<Rightarrow> string list list"
  text_of :: "kvalue \<Rightarrow> string"
  fl :: "rat \<Rightarrow> rat"

section \<open>Calls\<close>

definition call :: "(world \<Rightarrow> (error + 'a) \<times> world) \<Rightarrow> 'a io" where
  "call f = State (\<lambda>w. case replies w of
       [] \<Rightarrow> f w
     | Answered # rs \<Rightarrow> f (w\<lparr>replies := rs\<rparr>)
     | Refused d # rs \<Rightarrow> (Inl (Driver d), w\<lparr>replies := rs\<rparr>)
     | Lost d # rs \<Rightarrow> (Inl (Driver d), snd (f (w\<lparr>replies := rs\<rparr>))))"

definition query :: "(world \<Rightarrow> error + 'a) \<Rightarrow> 'a io" where
  "query f = call (\<lambda>w. (f w, w))"

text \<open>\<open>time.Now()\<close>; a handler reads one clock, and only a sleep moves it.\<close>

definition Now :: "(world, Time) state" where
  "Now = asks clock"

definition Sleep :: "Time \<Rightarrow> (world, unit) state" where
  "Sleep d = modify (\<lambda>w. w\<lparr>clock := clock w + d\<rparr>)"

text \<open>A counter that makes each draw of an identifier or a random number a new one.\<close>

definition tick :: "(world, nat) state" where
  "tick = State (\<lambda>w. (ticks w, w\<lparr>ticks := Suc (ticks w)\<rparr>))"

definition NewString :: "env \<Rightarrow> (world, string) state" where
  "NewString E = State_Monad.bind tick (\<lambda>n. return (uuid E n))"

definition Int63n :: "env \<Rightarrow> int \<Rightarrow> (world, int) state" where
  "Int63n E n = State_Monad.bind tick (\<lambda>k. return (rand_below E k n))"

lemma run_Now [simp]: "run_state Now w = (clock w, w)"
  by (simp add: Now_def)

lemma run_tick [simp]: "run_state tick w = (ticks w, w\<lparr>ticks := Suc (ticks w)\<rparr>)"
  by (simp add: tick_def)

lemma run_Sleep [simp]: "run_state (Sleep d) w = ((), w\<lparr>clock := clock w + d\<rparr>)"
  by (simp add: Sleep_def)

lemma run_call_quiet: "replies w = [] \<Longrightarrow> run_state (call f) w = f w"
  by (simp add: call_def)

text \<open>
  The three outcomes of a call: answered, refused (only the reply list moves), lost.
\<close>

lemma call_cases:
  assumes "run_state (call f) w = (r, w')"
  obtains (answered) rs where "(r, w') = f (w\<lparr>replies := rs\<rparr>)"
  | (refused) d rs where "r = Inl (Driver d)" and "w' = w\<lparr>replies := rs\<rparr>"
  | (lost) d rs where "r = Inl (Driver d)" and "w' = snd (f (w\<lparr>replies := rs\<rparr>))"
proof (cases "replies w")
  case Nil
  then have "(r, w') = f (w\<lparr>replies := []\<rparr>)"
    using assms by (cases w) (simp add: call_def)
  then show ?thesis by (rule answered)
next
  case (Cons x rs)
  then show ?thesis using assms answered [of rs] refused [of _ rs] lost [of _ rs]
    by (cases x) (auto simp: call_def)
qed

lemma call_Inr:
  assumes "run_state (call f) w = (Inr x, w')"
  obtains rs where "f (w\<lparr>replies := rs\<rparr>) = (Inr x, w')"
  using assms by (cases rule: call_cases) auto

lemma same_call [frame]:
  assumes "\<And>w. g (snd (f w)) = g w" and "\<And>w rs. g (w\<lparr>replies := rs\<rparr>) = g w"
  shows "same g (call f)"
proof (rule sameI)
  fix w
  obtain r w' where run: "run_state (call f) w = (r, w')" by fastforce
  from run have "g w' = g w"
    by (cases rule: call_cases) (simp_all add: assms, metis assms snd_conv)
  then show "g (snd (run_state (call f) w)) = g w" using run by simp
qed

lemma same_query [frame]:
  "(\<And>w rs. g (w\<lparr>replies := rs\<rparr>) = g w) \<Longrightarrow> same g (query f)"
  by (simp add: query_def same_call)

lemma same_Now [frame]: "same g Now"
  by (simp add: same_def)

lemma same_tick [frame]: "(\<And>w n. g (w\<lparr>ticks := n\<rparr>) = g w) \<Longrightarrow> same g tick"
  by (simp add: same_def)

lemma same_NewString [frame]: "(\<And>w n. g (w\<lparr>ticks := n\<rparr>) = g w) \<Longrightarrow> same g (NewString E)"
  by (simp add: NewString_def same_bind same_tick same_return)

lemma same_Int63n [frame]: "(\<And>w n. g (w\<lparr>ticks := n\<rparr>) = g w) \<Longrightarrow> same g (Int63n E k)"
  by (simp add: Int63n_def same_bind same_tick same_return)

lemma same_Sleep [frame]: "(\<And>w n. g (w\<lparr>clock := n\<rparr>) = g w) \<Longrightarrow> same g (Sleep d)"
  by (simp add: same_def)

lemma keeps_call [inv_rules]:
  assumes "\<And>w. I w \<Longrightarrow> I (snd (f w))" and "\<And>w rs. I (w\<lparr>replies := rs\<rparr>) = I w"
  shows "keeps I (call f)"
proof (rule keepsI)
  fix w assume I: "I w"
  obtain r w' where run: "run_state (call f) w = (r, w')" by fastforce
  from run have "I w'"
    by (cases rule: call_cases) (use I assms in \<open>simp_all, metis snd_conv\<close>)
  then show "I (snd (run_state (call f) w))" using run by simp
qed

lemma keeps_query [inv_rules]:
  "(\<And>w rs. I (w\<lparr>replies := rs\<rparr>) = I w) \<Longrightarrow> keeps I (query f)"
  by (simp add: query_def keeps_call)

section \<open>Errors as values\<close>

text \<open>
  \<open>bindE m k\<close> is \<open>x, err := m; if err != nil { return err }\<close> followed by \<open>k x\<close>;
  \<open>on_error f m\<close> returns the error of \<open>m\<close> changed by \<open>f\<close>.
\<close>

definition bindE :: "'a io \<Rightarrow> ('a \<Rightarrow> 'b io) \<Rightarrow> 'b io" where
  "bindE m k = State_Monad.bind m (\<lambda>r. case r of Inl e \<Rightarrow> return (Inl e) | Inr x \<Rightarrow> k x)"

definition on_error :: "(error \<Rightarrow> error) \<Rightarrow> 'a io \<Rightarrow> 'a io" where
  "on_error f m = State_Monad.bind m (\<lambda>r. return (case r of Inl e \<Rightarrow> Inl (f e) | Inr x \<Rightarrow> Inr x))"

lemma same_bindE [frame]: "same f m \<Longrightarrow> (\<And>x. same f (k x)) \<Longrightarrow> same f (bindE m k)"
  unfolding bindE_def by (intro frame)

lemma same_on_error [frame]: "same f m \<Longrightarrow> same f (on_error g m)"
  unfolding on_error_def by (intro frame)

lemma keeps_bindE [inv_rules]: "keeps I m \<Longrightarrow> (\<And>x. keeps I (k x)) \<Longrightarrow> keeps I (bindE m k)"
  unfolding bindE_def by (intro inv_rules)

lemma keeps_on_error [inv_rules]: "keeps I m \<Longrightarrow> keeps I (on_error g m)"
  unfolding on_error_def by (intro inv_rules)

lemma run_bindE:
  "run_state (bindE m k) w = (case run_state m w of (Inl e, w1) \<Rightarrow> (Inl e, w1) | (Inr x, w1) \<Rightarrow> run_state (k x) w1)"
  by (simp add: bindE_def split: prod.split sum.split)

lemma run_on_error:
  "run_state (on_error f m) w = (case run_state m w of (r, w1) \<Rightarrow> (map_sum f id r, w1))"
  by (simp add: on_error_def split: prod.split sum.split)

lemma bindE_cases:
  assumes "run_state (bindE m k) w = (r, w')"
  obtains (err) e where "run_state m w = (Inl e, w')" and "r = Inl e"
  | (ok) x w1 where "run_state m w = (Inr x, w1)" and "run_state (k x) w1 = (r, w')"
  using assms by (auto simp: run_bindE split: prod.splits sum.splits)

lemma bindE_Inr:
  assumes "run_state (bindE m k) w = (Inr y, w')"
  obtains x w1 where "run_state m w = (Inr x, w1)" and "run_state (k x) w1 = (Inr y, w')"
  using assms by (cases rule: bindE_cases) auto

lemma on_error_Inr: "run_state (on_error f m) w = (Inr x, w') \<longleftrightarrow> run_state m w = (Inr x, w')"
  by (cases "run_state m w"; cases "fst (run_state m w)") (auto simp: run_on_error)

lemma on_error_cases:
  assumes "run_state (on_error f m) w = (r, w')"
  obtains q where "run_state m w = (q, w')" and "r = map_sum f id q"
  using assms by (auto simp: run_on_error split: prod.splits)

subsection \<open>Reasoning about the success path\<close>

text \<open>
  \<open>yields P m Q\<close>: when \<open>m\<close> starts in \<open>P\<close> and returns no error, its value and the new state
  are in \<open>Q\<close>.  A transaction that fails rolls the core database back, so this is what is
  needed of a transaction's body.
\<close>

definition yields :: "(world \<Rightarrow> bool) \<Rightarrow> 'a io \<Rightarrow> ('a \<Rightarrow> world \<Rightarrow> bool) \<Rightarrow> bool" where
  "yields P m Q \<longleftrightarrow> (\<forall>w x w'. P w \<longrightarrow> run_state m w = (Inr x, w') \<longrightarrow> Q x w')"

lemma yieldsI: "(\<And>w x w'. P w \<Longrightarrow> run_state m w = (Inr x, w') \<Longrightarrow> Q x w') \<Longrightarrow> yields P m Q"
  by (simp add: yields_def)

lemma yieldsD: "yields P m Q \<Longrightarrow> P w \<Longrightarrow> run_state m w = (Inr x, w') \<Longrightarrow> Q x w'"
  by (simp add: yields_def)

lemma yields_bindE: "yields P m R \<Longrightarrow> (\<And>x. yields (R x) (k x) Q) \<Longrightarrow> yields P (bindE m k) Q"
  unfolding yields_def by (blast elim: bindE_Inr)

lemma yields_bind:
  "(\<And>w. P w \<Longrightarrow> R (fst (run_state m w)) (snd (run_state m w))) \<Longrightarrow> (\<And>x. yields (R x) (k x) Q) \<Longrightarrow>
     yields P (State_Monad.bind m k) Q"
  unfolding yields_def by (simp add: case_prod_beta) blast

lemma yields_Now: "(\<And>t. yields (\<lambda>w. P w \<and> clock w = t) (k t) Q) \<Longrightarrow> yields P (State_Monad.bind Now k) Q"
  by (rule yields_bind [where R = "\<lambda>t w. P w \<and> clock w = t"]) simp_all

lemma yields_error [triple_rules]: "yields P (return (Inl e)) Q"
  by (simp add: yields_def)

lemma yields_return: "(\<And>w. P w \<Longrightarrow> Q x w) \<Longrightarrow> yields P (return (Inr x)) Q"
  by (simp add: yields_def)

lemma yields_if: "(b \<Longrightarrow> yields P m Q) \<Longrightarrow> (\<not> b \<Longrightarrow> yields P n Q) \<Longrightarrow> yields P (if b then m else n) Q"
  by simp

lemma yields_Let: "yields P (f x) Q \<Longrightarrow> yields P (Let x f) Q"
  by simp

lemma yields_on_error: "yields P m Q \<Longrightarrow> yields P (on_error f m) Q"
  by (simp add: yields_def on_error_Inr)

lemma yields_weaken: "yields P m Q \<Longrightarrow> (\<And>w. P' w \<Longrightarrow> P w) \<Longrightarrow> (\<And>x w. Q x w \<Longrightarrow> Q' x w) \<Longrightarrow> yields P' m Q'"
  unfolding yields_def by blast

lemma yields_conj: "yields P m Q \<Longrightarrow> yields P' m Q' \<Longrightarrow> yields (\<lambda>w. P w \<and> P' w) m (\<lambda>x w. Q x w \<and> Q' x w)"
  unfolding yields_def by blast

lemma yields_same: "same f m \<Longrightarrow> yields (\<lambda>w. P (f w)) m (\<lambda>x w. P (f w))"
  by (auto simp: yields_def dest: sameD)

lemma yields_keeps:
  assumes "keeps P m"
  shows "yields P m (\<lambda>_. P)"
proof (rule yieldsI)
  fix w x w' assume "P w" and "run_state m w = (Inr x, w')"
  then show "P w'" using keepsD [OF assms, of w] by simp
qed

section \<open>Redis commands\<close>

text \<open>
  The meaning of the commands that the scripts and the client calls of the source use.  A key
  whose expiry has passed does not exist.
\<close>

definition rlookup :: "string \<Rightarrow> world \<Rightarrow> rval option" where
  "rlookup k w = (case map_of (keyspace w) k of
       None \<Rightarrow> None
     | Some (v, None) \<Rightarrow> Some v
     | Some (v, Some t) \<Rightarrow> if clock w < t then Some v else None)"

definition rput :: "string \<Rightarrow> rval \<Rightarrow> Time option \<Rightarrow> world \<Rightarrow> world" where
  "rput k v e w = w\<lparr>keyspace := AList.update k (v, e) (keyspace w)\<rparr>"

definition rdel :: "string \<Rightarrow> world \<Rightarrow> world" where
  "rdel k w = w\<lparr>keyspace := AList.delete k (keyspace w)\<rparr>"

definition rexists :: "string \<Rightarrow> world \<Rightarrow> bool" where
  "rexists k w \<longleftrightarrow> rlookup k w \<noteq> None"

text \<open>The expiry a key has now, kept by commands that change a value in place.\<close>

definition rexpiry :: "string \<Rightarrow> world \<Rightarrow> Time option" where
  "rexpiry k w = (if rexists k w then (case map_of (keyspace w) k of Some (v, e) \<Rightarrow> e | None \<Rightarrow> None) else None)"

text \<open>A new value in place: the expiry stays.\<close>

definition rset :: "string \<Rightarrow> rval \<Rightarrow> world \<Rightarrow> world" where
  "rset k v w = rput k v (rexpiry k w) w"

definition redis_get :: "string \<Rightarrow> world \<Rightarrow> error + sval" where
  "redis_get k w = (case rlookup k w of
       None \<Rightarrow> Inl RedisNil
     | Some (RStr s) \<Rightarrow> Inr s
     | Some _ \<Rightarrow> Inl WrongType)"

lemma rlookup_rput [simp]:
  "rlookup k (rput k' v e w) =
     (if k = k' then (case e of None \<Rightarrow> Some v | Some t \<Rightarrow> if clock w < t then Some v else None)
      else rlookup k w)"
  by (auto simp: rlookup_def rput_def update_conv' split: option.splits prod.splits)

lemma rlookup_rdel [simp]: "rlookup k (rdel k' w) = (if k = k' then None else rlookup k w)"
  by (auto simp: rlookup_def rdel_def delete_conv' split: option.splits prod.splits)

lemma rlookup_replies [simp]: "rlookup k (w\<lparr>replies := rs\<rparr>) = rlookup k w"
  by (auto simp: rlookup_def split: option.splits prod.splits)

lemma rlookup_cong: "keyspace w = keyspace w' \<Longrightarrow> clock w = clock w' \<Longrightarrow> rlookup k w = rlookup k w'"
  by (auto simp: rlookup_def split: option.splits prod.splits)

lemma rlookup_rset [simp]: "rlookup k (rset k' v w) = (if k = k' then Some v else rlookup k w)"
  by (auto simp: rset_def rexpiry_def rexists_def rlookup_def rput_def update_conv'
      split: option.splits prod.splits if_splits)

text \<open>No Redis command touches anything but the keyspace.\<close>

lemma rput_frame [simp]:
  "core (rput k v e w) = core w" "clock (rput k v e w) = clock w" "replies (rput k v e w) = replies w"
  "ticks (rput k v e w) = ticks w" "auto_id (rput k v e w) = auto_id w"
  "addresses (rput k v e w) = addresses w" "products (rput k v e w) = products w"
  "pay_infos (rput k v e w) = pay_infos w" "dead_letters (rput k v e w) = dead_letters w"
  "kafka_log (rput k v e w) = kafka_log w" "committed (rput k v e w) = committed w"
  by (simp_all add: rput_def)

lemma rdel_frame [simp]:
  "core (rdel k w) = core w" "clock (rdel k w) = clock w" "replies (rdel k w) = replies w"
  "ticks (rdel k w) = ticks w" "auto_id (rdel k w) = auto_id w"
  "addresses (rdel k w) = addresses w" "products (rdel k w) = products w"
  "pay_infos (rdel k w) = pay_infos w" "dead_letters (rdel k w) = dead_letters w"
  "kafka_log (rdel k w) = kafka_log w" "committed (rdel k w) = committed w"
  by (simp_all add: rdel_def)

lemma rset_frame [simp]:
  "core (rset k v w) = core w" "clock (rset k v w) = clock w" "replies (rset k v w) = replies w"
  "ticks (rset k v w) = ticks w" "auto_id (rset k v w) = auto_id w"
  "addresses (rset k v w) = addresses w" "products (rset k v w) = products w"
  "pay_infos (rset k v w) = pay_infos w" "dead_letters (rset k v w) = dead_letters w"
  "kafka_log (rset k v w) = kafka_log w" "committed (rset k v w) = committed w"
  by (simp_all add: rset_def)

text \<open>Expiry times: \<open>EX\<close> in whole seconds, at least one; \<open>PX\<close> in milliseconds.\<close>

definition expire_seconds :: "Time \<Rightarrow> int" where
  "expire_seconds ttl = (if 0 < ttl \<and> ttl < second then 1 else ttl div second)"

definition InvalidExpire :: error where
  "InvalidExpire = Driver (ServerError ''ERR invalid expire time'')"

text \<open>The client calls of \<open>go-redis\<close> that the source makes, one command each.\<close>

definition rdb_Get :: "string \<Rightarrow> sval io" where
  "rdb_Get k = query (redis_get k)"

definition rdb_Set :: "string \<Rightarrow> sval \<Rightarrow> unit io" where
  "rdb_Set k v = call (\<lambda>w. (Inr (), rput k (RStr v) None w))"

definition rdb_SetEX :: "string \<Rightarrow> sval \<Rightarrow> Time \<Rightarrow> unit io" where
  "rdb_SetEX k v ttl = call (\<lambda>w.
     if expire_seconds ttl \<le> 0 then (Inl InvalidExpire, w)
     else (Inr (), rput k (RStr v) (Some (clock w + expire_seconds ttl * second)) w))"

definition rdb_SetNX :: "string \<Rightarrow> sval \<Rightarrow> Time \<Rightarrow> bool io" where
  "rdb_SetNX k v ttl = call (\<lambda>w.
     if ttl \<le> 0 then (Inl InvalidExpire, w)
     else if rexists k w then (Inr False, w)
     else (Inr True, rput k (RStr v) (Some (clock w + ttl)) w))"

definition rdb_Del :: "string list \<Rightarrow> nat io" where
  "rdb_Del ks = call (\<lambda>w. (Inr (length (filter (\<lambda>k. rexists k w) (remdups ks))), fold rdel ks w))"

definition rdb_Exists :: "string \<Rightarrow> bool io" where
  "rdb_Exists k = query (\<lambda>w. Inr (rexists k w))"

definition redis_num :: "string \<Rightarrow> world \<Rightarrow> error + int" where
  "redis_num k w = (case rlookup k w of
       None \<Rightarrow> Inr 0
     | Some (RStr (SInt n)) \<Rightarrow> Inr n
     | Some (RStr _) \<Rightarrow> Inl (Driver (ServerError ''ERR value is not an integer or out of range''))
     | Some _ \<Rightarrow> Inl WrongType)"

definition rdb_IncrBy :: "string \<Rightarrow> int \<Rightarrow> int io" where
  "rdb_IncrBy k d = call (\<lambda>w. case redis_num k w of
       Inl e \<Rightarrow> (Inl e, w)
     | Inr n \<Rightarrow> if in_int64 (n + d) then (Inr (n + d), rset k (RStr (SInt (n + d))) w)
               else (Inl (Driver (ServerError ''ERR increment or decrement would overflow'')), w))"

section \<open>Transactions\<close>

text \<open>
  \<open>ExecTx\<close> of \<open>internal/data/transaction.go\<close>: \<open>coreDB.Transaction\<close> begins a transaction on
  the core database, runs the body, rolls the core database back when the body returns an
  error and commits otherwise.  The other databases, Redis and Kafka are not covered.  A
  commit that is refused leaves the core database rolled back; one whose answer is lost has
  taken effect although the caller sees an error.
\<close>

definition commit_tx :: "core_db \<Rightarrow> unit io" where
  "commit_tx snap = State (\<lambda>w. case replies w of
       [] \<Rightarrow> (Inr (), w)
     | Answered # rs \<Rightarrow> (Inr (), w\<lparr>replies := rs\<rparr>)
     | Refused d # rs \<Rightarrow> (Inl (Driver d), w\<lparr>replies := rs, core := snap\<rparr>)
     | Lost d # rs \<Rightarrow> (Inl (Driver d), w\<lparr>replies := rs\<rparr>))"

definition begin_tx :: "unit io" where
  "begin_tx = query (\<lambda>_. Inr ())"

definition ExecTx :: "'a io \<Rightarrow> 'a io" where
  "ExecTx fn = do {
     b \<leftarrow> begin_tx;
     case b of
       Inl e \<Rightarrow> return (Inl e)
     | Inr _ \<Rightarrow> do {
         snap \<leftarrow> asks core;
         r \<leftarrow> fn;
         case r of
           Inl e \<Rightarrow> do { modify (\<lambda>w. w\<lparr>core := snap\<rparr>); return (Inl e) }
         | Inr x \<Rightarrow> do {
             c \<leftarrow> commit_tx snap;
             case c of Inl e \<Rightarrow> return (Inl e) | Inr _ \<Rightarrow> return (Inr x) } } }"

text \<open>
  The four ends of a transaction: not begun, rolled back by the body's error, rolled back by
  a refused commit, committed (with or without the answer).
\<close>

lemma ExecTx_cases:
  assumes "run_state (ExecTx fn) w = (r, w')"
  obtains (not_begun) e rs where "r = Inl e" and "w' = w\<lparr>replies := rs\<rparr>"
  | (body_error) rs e w1 where "run_state fn (w\<lparr>replies := rs\<rparr>) = (Inl e, w1)" and "r = Inl e"
      and "w' = w1\<lparr>core := core w\<rparr>"
  | (commit_refused) rs x w1 d rs' where "run_state fn (w\<lparr>replies := rs\<rparr>) = (Inr x, w1)"
      and "r = Inl (Driver d)" and "w' = w1\<lparr>replies := rs', core := core w\<rparr>"
  | (commit_lost) rs x w1 d rs' where "run_state fn (w\<lparr>replies := rs\<rparr>) = (Inr x, w1)"
      and "r = Inl (Driver d)" and "w' = w1\<lparr>replies := rs'\<rparr>"
  | (finished) rs x w1 rs' where "run_state fn (w\<lparr>replies := rs\<rparr>) = (Inr x, w1)" and "r = Inr x"
      and "w' = w1\<lparr>replies := rs'\<rparr>"
proof -
  obtain b wb where b: "run_state begin_tx w = (b, wb)" by fastforce
  have wb: "\<exists>rs. wb = w\<lparr>replies := rs\<rparr>"
    using b unfolding begin_tx_def query_def by (cases rule: call_cases) auto
  show ?thesis
  proof (cases b)
    case (Inl e)
    with b wb assms show ?thesis by (auto simp: ExecTx_def intro: not_begun)
  next
    case (Inr u)
    from wb obtain rs where rs: "wb = w\<lparr>replies := rs\<rparr>" by blast
    obtain q w1 where q: "run_state fn wb = (q, w1)" by fastforce
    show ?thesis
    proof (cases q)
      case (Inl e)
      with b Inr q rs assms show ?thesis by (auto simp: ExecTx_def intro: body_error)
    next
      case (Inr x)
      have eq: "(r, w') = (case run_state (commit_tx (core w)) w1 of
          (Inl e, w2) \<Rightarrow> (Inl e, w2) | (Inr _, w2) \<Rightarrow> (Inr x, w2))"
        using b \<open>b = Inr u\<close> q rs Inr assms
        by (auto simp: ExecTx_def split: prod.split sum.split)
      show ?thesis
      proof (cases "replies w1")
        case Nil
        then have "w' = w1\<lparr>replies := []\<rparr>" "r = Inr x"
          using eq by (cases w1; simp add: commit_tx_def)+
        with q rs Inr show ?thesis by (auto intro: finished)
      next
        case (Cons a rs')
        with eq q rs Inr show ?thesis
          by (cases a) (auto simp: commit_tx_def intro: commit_refused commit_lost finished)
      qed
    qed
  qed
qed

lemma keeps_ExecTx:
  assumes "\<And>w x w'. I w \<Longrightarrow> run_state fn w = (Inr x, w') \<Longrightarrow> I w'"
    and "\<And>w e w'. I w \<Longrightarrow> run_state fn w = (Inl e, w') \<Longrightarrow> I (w'\<lparr>core := core w\<rparr>)"
    and "\<And>w x w'. I w \<Longrightarrow> run_state fn w = (Inr x, w') \<Longrightarrow> I (w'\<lparr>core := core w\<rparr>)"
    and rep: "\<And>w rs. I (w\<lparr>replies := rs\<rparr>) = I w"
  shows "keeps I (ExecTx fn)"
proof (rule keepsI)
  fix w assume I: "I w"
  then have I': "I (w\<lparr>replies := rs\<rparr>)" for rs by (simp add: rep)
  obtain r w' where run: "run_state (ExecTx fn) w = (r, w')" by fastforce
  from run have "I w'"
  proof (cases rule: ExecTx_cases)
    case (not_begun e rs)
    then show ?thesis using I' by simp
  next
    case (body_error rs e w1)
    then show ?thesis using assms(2) [OF I'] by simp
  next
    case (commit_refused rs x w1 d rs')
    have "I (w1\<lparr>core := core w\<rparr>)"
      using assms(3) [OF I' commit_refused(1)] by simp
    then have "I (w1\<lparr>core := core w\<rparr>\<lparr>replies := rs'\<rparr>)" by (simp only: rep)
    moreover have "w1\<lparr>core := core w\<rparr>\<lparr>replies := rs'\<rparr> = w'"
      using commit_refused(3) by (cases w1) simp
    ultimately show ?thesis by simp
  next
    case (commit_lost rs x w1 d rs')
    then show ?thesis using assms(1) [OF I'] by (simp add: rep)
  next
    case (finished rs x w1 rs')
    then show ?thesis using assms(1) [OF I'] by (simp add: rep)
  qed
  then show "I (snd (run_state (ExecTx fn) w))" using run by simp
qed

lemma same_ExecTx:
  assumes "same f fn" and "\<And>w rs. f (w\<lparr>replies := rs\<rparr>) = f w" and "\<And>w c. f (w\<lparr>core := c\<rparr>) = f w"
  shows "same f (ExecTx fn)"
proof (rule sameI)
  fix w
  obtain r w' where run: "run_state (ExecTx fn) w = (r, w')" by fastforce
  from run have "f w' = f w"
    by (cases rule: ExecTx_cases)
      (use assms(2,3) in \<open>auto dest!: sameD [OF assms(1)] simp del: world.update_convs\<close>)
  then show "f (snd (run_state (ExecTx fn) w)) = f w" using run by simp
qed

text \<open>An invariant of the core database that the body keeps when it succeeds survives the transaction.\<close>

lemma keeps_core_tx:
  assumes "yields (\<lambda>w. I (core w)) fn (\<lambda>_ w. I (core w))"
  shows "keeps (\<lambda>w. I (core w)) (ExecTx fn)"
  by (rule keeps_ExecTx) (simp_all add: yieldsD [OF assms])

text \<open>An error of a transaction leaves the core database as it was, unless the answer to the commit was lost.\<close>

lemma ExecTx_error:
  assumes "run_state (ExecTx fn) w = (Inl e, w')"
  shows "core w' = core w \<or> (\<exists>rs x w1 d. run_state fn (w\<lparr>replies := rs\<rparr>) = (Inr x, w1)
     \<and> e = Driver d \<and> core w' = core w1)"
  using assms by (cases rule: ExecTx_cases) auto

end
