(* ===== verification/Interface.thy ===== *)
theory Interface
  imports World
begin

text \<open>
  The interfaces the business layer is written against, \<open>internal/biz/interface.go\<close>: a Go
  interface is a record of its methods, and an implementation is a value of that record.  The
  business operations take these records as arguments, as the constructors of the code take
  the interfaces.
\<close>

section \<open>The interfaces\<close>

text \<open>The MySQL side: \<open>SeckillRepo\<close>.\<close>

record SeckillRepo =
  repo_ListSeckillProducts :: "u64 \<Rightarrow> int \<Rightarrow> int \<Rightarrow> int \<Rightarrow> (SeckillProduct list \<times> int) io"
  repo_GetSeckillProductDetail :: "u64 \<Rightarrow> u64 \<Rightarrow> SeckillProductDetail io"
  repo_GetCurrentActivity :: "(Activity \<times> int) io"
  repo_UpdateSeckillActivity :: "UpdateActivityRequest \<Rightarrow> unit io"
  repo_UpdateSeckillProduct :: "UpdateProductRequest \<Rightarrow> unit io"
  repo_CheckUserBuyRecord :: "u64 \<Rightarrow> u64 \<Rightarrow> UserBuyRecord io"
  repo_GetUserAddress :: "u64 \<Rightarrow> Address io"
  repo_LockStock :: "u64 \<Rightarrow> u32 \<Rightarrow> SkuStock io"
  repo_DecreaseStock :: "u64 \<Rightarrow> u32 \<Rightarrow> u32 \<Rightarrow> unit io"
  repo_RestoreStock :: "u64 \<Rightarrow> u32 \<Rightarrow> unit io"
  repo_CreateOrder :: "Order \<Rightarrow> string io"
  repo_CreateOrderShipping :: "string \<Rightarrow> Address \<Rightarrow> unit io"
  repo_GetOrder :: "string \<Rightarrow> OrderInfo io"
  repo_GetOrderByRequestID :: "string \<Rightarrow> OrderInfo io"
  repo_GetOrderForUpdate :: "string \<Rightarrow> OrderInfo io"
  repo_UpdateOrderStatus :: "string \<Rightarrow> int \<Rightarrow> int \<Rightarrow> unit io"
  repo_GetPendingOrders :: "int \<Rightarrow> (OrderInfo list) io"
  repo_CreateDeadLetterMessage :: "DeadLetterMessage \<Rightarrow> unit io"
  repo_ListDeadLetterMessages :: "string \<Rightarrow> int \<Rightarrow> (DeadLetterMessage list) io"
  repo_GetDeadLetterMessageByEventID :: "string \<Rightarrow> DeadLetterMessage io"
  repo_MarkDeadLetterReplayed :: "string \<Rightarrow> unit io"
  repo_CreatePayInfo :: "PayInfo \<Rightarrow> unit io"
  repo_GetCoupon :: "u64 \<Rightarrow> Coupon io"
  repo_UseCoupon :: "u64 \<Rightarrow> u32 \<Rightarrow> unit io"
  repo_RestoreCoupon :: "u64 \<Rightarrow> unit io"
  repo_GrantUserCoupon :: "GrantCouponRequest \<Rightarrow> CouponTemplate \<Rightarrow> (UserCoupon \<times> bool) io"
  repo_GetUserCouponForUse :: "u64 \<Rightarrow> u64 \<Rightarrow> UserCoupon io"
  repo_UseUserCoupon :: "u64 \<Rightarrow> unit io"
  repo_RestoreUserCoupon :: "u64 \<Rightarrow> unit io"
  repo_ListUserCoupons :: "u64 \<Rightarrow> int \<Rightarrow> int \<Rightarrow> int \<Rightarrow> (UserCoupon list \<times> int) io"
  repo_GetPayInfoByPlatformNumber :: "string \<Rightarrow> PayInfo io"
  repo_GetPayInfoByOrderNo :: "string \<Rightarrow> PayInfo io"
  repo_UpdatePayInfoStatus :: "string \<Rightarrow> string \<Rightarrow> Time option \<Rightarrow> unit io"

text \<open>The Redis side: \<open>CacheRepo\<close>.\<close>

record CacheRepo =
  cache_BatchSetProducts :: "CachedSeckillProduct list \<Rightarrow> unit io"
  cache_GetProductList :: "int \<Rightarrow> int \<Rightarrow> int \<Rightarrow> int \<Rightarrow> SeckillProductsResult io"
  cache_SetProductList :: "int \<Rightarrow> int \<Rightarrow> int \<Rightarrow> int \<Rightarrow> SeckillProductsResult \<Rightarrow> Time \<Rightarrow> unit io"
  cache_GetProductDetail :: "u64 \<Rightarrow> u64 \<Rightarrow> (SeckillProductDetail option) io"
  cache_SetProductDetail :: "u64 \<Rightarrow> u64 \<Rightarrow> SeckillProductDetail \<Rightarrow> Time \<Rightarrow> unit io"
  cache_DeleteProductDetail :: "u64 \<Rightarrow> u64 \<Rightarrow> unit io"
  cache_DeleteProductLists :: "u64 \<Rightarrow> unit io"
  cache_BloomAdd :: "u64 \<Rightarrow> u64 \<Rightarrow> unit io"
  cache_BloomExists :: "u64 \<Rightarrow> u64 \<Rightarrow> bool io"
  cache_GetStock :: "u64 \<Rightarrow> u64 \<Rightarrow> int io"
  cache_SetStock :: "u64 \<Rightarrow> u64 \<Rightarrow> int \<Rightarrow> unit io"
  cache_DeductStock :: "u64 \<Rightarrow> u64 \<Rightarrow> u64 \<Rightarrow> int \<Rightarrow> int io"
  cache_RollbackStock :: "u64 \<Rightarrow> u64 \<Rightarrow> int \<Rightarrow> unit io"
  cache_GetCurrentActivity :: "Activity io"
  cache_SetCurrentActivity :: "Activity \<Rightarrow> Time \<Rightarrow> unit io"
  cache_DeleteCurrentActivity :: "unit io"
  cache_CheckUserBuy :: "u64 \<Rightarrow> u64 \<Rightarrow> u64 \<Rightarrow> bool io"
  cache_MarkUserBuy :: "u64 \<Rightarrow> u64 \<Rightarrow> u64 \<Rightarrow> int \<Rightarrow> unit io"
  cache_RemoveUserBuy :: "u64 \<Rightarrow> u64 \<Rightarrow> u64 \<Rightarrow> unit io"
  cache_DeleteCoupon :: "u64 \<Rightarrow> unit io"
  cache_SetNX :: "string \<Rightarrow> sval \<Rightarrow> Time \<Rightarrow> bool io"
  cache_AcquireLock :: "string \<Rightarrow> string \<Rightarrow> Time \<Rightarrow> bool io"
  cache_RenewLock :: "string \<Rightarrow> string \<Rightarrow> Time \<Rightarrow> bool io"
  cache_ReleaseLock :: "string \<Rightarrow> string \<Rightarrow> unit io"
  cache_Get :: "string \<Rightarrow> sval io"
  cache_Set :: "string \<Rightarrow> sval \<Rightarrow> Time \<Rightarrow> unit io"
  cache_Del :: "string list \<Rightarrow> unit io"
  cache_SetPendingReservation :: "PendingReservation \<Rightarrow> Time \<Rightarrow> unit io"
  cache_DeletePendingReservation :: "string \<Rightarrow> unit io"

text \<open>\<open>RateLimiter\<close>, \<open>IdempotentChecker\<close>, \<open>DelayQueue\<close> and \<open>MQProducer\<close>.\<close>

record RateLimiter =
  limiter_UserRateLimit :: "u64 \<Rightarrow> int \<Rightarrow> int \<Rightarrow> Time \<Rightarrow> bool io"
  limiter_GlobalRateLimit :: "int \<Rightarrow> int \<Rightarrow> Time \<Rightarrow> bool io"
  limiter_ActivityRateLimit :: "u64 \<Rightarrow> int \<Rightarrow> int \<Rightarrow> Time \<Rightarrow> bool io"

record IdempotentChecker =
  idem_CheckAndMark :: "string \<Rightarrow> Time \<Rightarrow> bool io"

record DelayQueue =
  delay_Add :: "string \<Rightarrow> Time \<Rightarrow> unit io"

record MQProducer =
  mq_Send :: "SeckillOrderMessage \<Rightarrow> unit io"
  mq_SendAsync :: "SeckillOrderMessage \<Rightarrow> (world, unit) state"
  mq_SendResult :: "SeckillResultMessage \<Rightarrow> unit io"
  mq_SendToRetry :: "SeckillOrderMessage \<Rightarrow> int \<Rightarrow> Time \<Rightarrow> unit io"
  mq_SendToDLQ :: "SeckillOrderMessage \<Rightarrow> string \<Rightarrow> int \<Rightarrow> string \<Rightarrow> int \<Rightarrow> int \<Rightarrow> unit io"
  mq_SendParseFailureToDLQ :: "kvalue \<Rightarrow> string \<Rightarrow> int \<Rightarrow> int \<Rightarrow> string \<Rightarrow> (string \<times> string) list \<Rightarrow> unit io"

text \<open>\<open>IDGenerator\<close> of \<open>id_generator.go\<close>, with its snowflake implementation.\<close>

record IDGenerator =
  idgen_NextID :: "(world, int) state"
  idgen_NextString :: "(world, string) state"

definition snowflake_NextID :: "env \<Rightarrow> (world, int) state" where
  "snowflake_NextID E = State_Monad.bind tick (\<lambda>n. return (snowflake E n))"

definition snowflake_NextString :: "env \<Rightarrow> (world, string) state" where
  "snowflake_NextString E = State_Monad.bind (snowflake_NextID E) (\<lambda>i. return (show_int i))"

definition NewIDGenerator :: "env \<Rightarrow> IDGenerator" where
  "NewIDGenerator E = \<lparr>idgen_NextID = snowflake_NextID E, idgen_NextString = snowflake_NextString E\<rparr>"

text \<open>\<open>OrderCancelService\<close> and \<open>SeckillUsecase\<close>: the parts the business layer is wired from.\<close>

record OrderCancelService =
  ocs_repo :: SeckillRepo
  ocs_cache :: CacheRepo

record SeckillUsecase =
  uc_Repo :: SeckillRepo
  uc_Cache :: CacheRepo
  uc_MQ :: MQProducer
  uc_Limiter :: RateLimiter
  uc_Idempotent :: IdempotentChecker
  uc_DelayQueue :: DelayQueue
  uc_Canceler :: OrderCancelService
  uc_IDGen :: IDGenerator

end
