(* ===== verification/Contracts.thy ===== *)
theory Contracts
  imports Interface
begin

text \<open>
  What the business layer relies on, one locale per interface.  The operations are the ones the
  layer calls, the laws are what their provider promises, and the lemmas are what a client gets
  from any provider.  The providers' theories interpret each locale on the model of the code.
\<close>

section \<open>Views of the state\<close>

text \<open>The part of the state that Redis calls do not see, and the part that SQL calls do not see.\<close>

definition db_part where
  "db_part w = (core w, addresses w, products w, pay_infos w, dead_letters w, kafka_log w, committed w,
     clock w, auto_id w)"

definition redis_part where
  "redis_part w = (keyspace w, clock w, kafka_log w, committed w)"

lemma same_db_part:
  assumes "same db_part m"
  shows "same core m" "same addresses m" "same products m" "same pay_infos m" "same dead_letters m"
    "same kafka_log m" "same committed m" "same clock m" "same auto_id m"
  using assms by (simp_all add: same_def db_part_def)

lemma same_redis_part:
  assumes "same redis_part m"
  shows "same keyspace m" "same clock m" "same kafka_log m" "same committed m"
  using assms by (simp_all add: same_def redis_part_def)

lemma db_part_replies [simp]: "db_part (w\<lparr>replies := rs\<rparr>) = db_part w"
  by (simp add: db_part_def)

lemma redis_part_replies [simp]: "redis_part (w\<lparr>replies := rs\<rparr>) = redis_part w"
  by (simp add: redis_part_def)

lemma redis_part_core [simp]: "redis_part (w\<lparr>core := c\<rparr>) = redis_part w"
  by (simp add: redis_part_def)

section \<open>The reservation cache\<close>

text \<open>
  No cache operation the order flow uses touches a database.
\<close>

locale cache_frame =
  fixes cache :: CacheRepo
  assumes db_DeductStock: "same db_part (cache_DeductStock cache a s u q)"
    and db_RollbackStock: "same db_part (cache_RollbackStock cache a s q)"
    and db_RemoveUserBuy: "same db_part (cache_RemoveUserBuy cache a s u)"
    and db_MarkUserBuy: "same db_part (cache_MarkUserBuy cache a s u ttl)"
    and db_CheckUserBuy: "same db_part (cache_CheckUserBuy cache a s u)"
    and db_DeleteCoupon: "same db_part (cache_DeleteCoupon cache c)"
    and db_SetPending: "same db_part (cache_SetPendingReservation cache p ttl)"
    and db_DeletePending: "same db_part (cache_DeletePendingReservation cache r)"
    and db_SetStock: "same db_part (cache_SetStock cache a s n)"
    and db_GetStock: "same db_part (cache_GetStock cache a s)"

text \<open>
  The reservation itself: \<open>stock\<close> is the stock left to reserve and \<open>mark\<close> says that a user
  holds a reservation.  A reservation takes exactly the quantity, from enough stock, of a user
  who holds none; a rejected one changes nothing; a rollback gives the quantity back.
\<close>

locale reservation_cache = cache_frame +
  fixes stock :: "u64 \<Rightarrow> u64 \<Rightarrow> world \<Rightarrow> int option"
    and mark :: "u64 \<Rightarrow> u64 \<Rightarrow> u64 \<Rightarrow> world \<Rightarrow> bool"
  assumes deduct_reserves: "run_state (cache_DeductStock cache a s u q) w = (Inr 1, w') \<Longrightarrow>
      \<not> mark a s u w \<and> mark a s u w' \<and> (\<exists>n. stock a s w = Some n \<and> q \<le> n \<and> stock a s w' = Some (n - q))"
    and deduct_rejects: "run_state (cache_DeductStock cache a s u q) w = (Inr r, w') \<Longrightarrow> r \<noteq> 1 \<Longrightarrow>
      stock b t w' = stock b t w \<and> mark b t v w' = mark b t v w"
    and deduct_elsewhere: "run_state (cache_DeductStock cache a s u q) w = (x, w') \<Longrightarrow> (a, s) \<noteq> (b, t) \<Longrightarrow>
      stock b t w' = stock b t w \<and> mark b t v w' = mark b t v w"
    and rollback_returns: "run_state (cache_RollbackStock cache a s q) w = (Inr (), w') \<Longrightarrow>
      stock a s w = Some n \<Longrightarrow> stock a s w' = Some (n + q)"
    and rollback_elsewhere: "run_state (cache_RollbackStock cache a s q) w = (y, w') \<Longrightarrow> (a, s) \<noteq> (b, t) \<Longrightarrow>
      stock b t w' = stock b t w"
    and rollback_marks: "run_state (cache_RollbackStock cache a s q) w = (y, w') \<Longrightarrow> mark b t v w' = mark b t v w"
    and remove_clears: "run_state (cache_RemoveUserBuy cache a s u) w = (Inr (), w') \<Longrightarrow> \<not> mark a s u w'"
    and remove_stock: "run_state (cache_RemoveUserBuy cache a s u) w = (y, w') \<Longrightarrow> stock b t w' = stock b t w"
    and remove_other: "run_state (cache_RemoveUserBuy cache a s u) w = (y, w') \<Longrightarrow> (a, s, u) \<noteq> (b, t, v) \<Longrightarrow>
      mark b t v w' = mark b t v w"
    and pending_keeps: "run_state (cache_SetPendingReservation cache p ttl) w = (y, w') \<Longrightarrow>
      stock b t w' = stock b t w \<and> mark b t v w' = mark b t v w"
    and unpending_keeps: "run_state (cache_DeletePendingReservation cache r') w = (y, w') \<Longrightarrow>
      stock b t w' = stock b t w \<and> mark b t v w' = mark b t v w"
    and coupon_keeps: "run_state (cache_DeleteCoupon cache c) w = (y, w') \<Longrightarrow>
      stock b t w' = stock b t w \<and> mark b t v w' = mark b t v w"

section \<open>The order ledger\<close>

text \<open>
  What the order flow needs of the database: \<open>avail s\<close> is the stock of a SKU, \<open>sold s\<close> the
  quantity its active orders hold, and \<open>order_view n\<close> the SKU, quantity and status of an
  order.  \<open>wf\<close> is the repository's own invariant.
\<close>

locale order_ledger =
  fixes repo :: SeckillRepo
    and wf :: "core_db \<Rightarrow> bool"
    and avail :: "u64 \<Rightarrow> core_db \<Rightarrow> int"
    and sold :: "u64 \<Rightarrow> core_db \<Rightarrow> int"
    and order_view :: "string \<Rightarrow> core_db \<Rightarrow> (u64 \<times> int \<times> int) option"
  assumes create: "wf (core w) \<Longrightarrow> run_state (repo_CreateOrder repo ord) w = (Inr n, w') \<Longrightarrow>
      wf (core w') \<and> n = ord_OrderNo ord \<and> avail t (core w') = avail t (core w) \<and>
      sold t (core w') = sold t (core w) + (if t = ord_SkuID ord then uint (u32_of (ord_Quantity ord)) else 0)"
    and ship: "wf (core w) \<Longrightarrow> run_state (repo_CreateOrderShipping repo n a) w = (y, w') \<Longrightarrow>
      wf (core w') \<and> avail t (core w') = avail t (core w) \<and> sold t (core w') = sold t (core w)"
    and decrease: "wf (core w) \<Longrightarrow> run_state (repo_DecreaseStock repo s q v) w = (Inr (), w') \<Longrightarrow>
      wf (core w') \<and> avail t (core w') = avail t (core w) - (if t = s then uint q else 0) \<and>
      sold t (core w') = sold t (core w)"
    and restore: "wf (core w) \<Longrightarrow> run_state (repo_RestoreStock repo s q) w = (Inr (), w') \<Longrightarrow>
      wf (core w') \<and> avail t (core w') = avail t (core w) + (if t = s then uint q else 0) \<and>
      sold t (core w') = sold t (core w)"
    and view_order: "run_state (repo_GetOrderForUpdate repo n) w = (Inr oi, w') \<Longrightarrow>
      order_view n (core w) = Some (oi_SkuID oi, oi_Quantity oi, oi_Status oi)"
    and view_core: "same core (repo_GetOrderForUpdate repo n)"
    and view_range: "order_view n c = Some (s, qty, st) \<Longrightarrow> 0 \<le> qty \<and> qty < 2 ^ 32"
    and cancel: "wf (core w) \<Longrightarrow> order_view n (core w) = Some (s, qty, 0) \<Longrightarrow>
      run_state (repo_UpdateOrderStatus repo n 0 2) w = (Inr (), w') \<Longrightarrow>
      wf (core w') \<and> avail t (core w') = avail t (core w) \<and>
      sold t (core w') = sold t (core w) - (if t = s then qty else 0)"
    and pay: "wf (core w) \<Longrightarrow> run_state (repo_UpdateOrderStatus repo n 0 1) w = (Inr (), w') \<Longrightarrow>
      wf (core w') \<and> avail t (core w') = avail t (core w) \<and> sold t (core w') = sold t (core w)"
    and user_coupon: "wf (core w) \<Longrightarrow> run_state (repo_RestoreUserCoupon repo uc) w = (y, w') \<Longrightarrow>
      wf (core w') \<and> avail t (core w') = avail t (core w) \<and> sold t (core w') = sold t (core w)"
    and address_core: "same core (repo_GetUserAddress repo i)"
    and read_core: "same core (repo_GetOrder repo n)" "same core (repo_GetOrderByRequestID repo n)"
    and pay_core: "same core (repo_CreatePayInfo repo p)" "same core (repo_GetPayInfoByPlatformNumber repo n)"
      "same core (repo_GetPayInfoByOrderNo repo n)" "same core (repo_UpdatePayInfoStatus repo n status pt)"
begin

text \<open>The balance of a SKU: what is left and what its active orders hold.\<close>

definition balanced :: "u64 \<Rightarrow> int \<Rightarrow> world \<Rightarrow> bool" where
  "balanced t k w \<longleftrightarrow> wf (core w) \<and> avail t (core w) + sold t (core w) = k"

lemma balanced_core: "core w' = core w \<Longrightarrow> balanced t k w' = balanced t k w"
  by (simp add: balanced_def)

lemma balanced_replies: "balanced t k (w\<lparr>replies := rs\<rparr>) = balanced t k w"
  by (simp add: balanced_def)

lemma keeps_balanced: "same core m \<Longrightarrow> keeps (balanced t k) m"
  by (simp add: keeps_def same_def balanced_def)

end

section \<open>Locks\<close>

text \<open>
  A lock service: \<open>holder k w\<close> is the token under which the lock \<open>k\<close> is held.  Acquiring
  succeeds only on a free lock and makes the caller its holder; renewing and releasing leave
  the lock of another holder alone.
\<close>

locale lock_service =
  fixes acquire :: "string \<Rightarrow> string \<Rightarrow> Time \<Rightarrow> bool io"
    and renew :: "string \<Rightarrow> string \<Rightarrow> Time \<Rightarrow> bool io"
    and release :: "string \<Rightarrow> string \<Rightarrow> unit io"
    and holder :: "string \<Rightarrow> world \<Rightarrow> string option"
  assumes acquire_free: "run_state (acquire k t d) w = (Inr True, w') \<Longrightarrow> holder k w = None"
    and acquire_holds: "run_state (acquire k t d) w = (Inr True, w') \<Longrightarrow> holder k w' = Some t"
    and acquire_refuses: "holder k w = Some u \<Longrightarrow> run_state (acquire k t d) w = (r, w') \<Longrightarrow>
        holder k w' = Some u \<and> r \<noteq> Inr True"
    and renew_other: "holder k w = Some u \<Longrightarrow> u \<noteq> t \<Longrightarrow> run_state (renew k t d) w = (r, w') \<Longrightarrow>
        holder k w' = Some u \<and> r \<noteq> Inr True"
    and release_other: "holder k w = Some u \<Longrightarrow> u \<noteq> t \<Longrightarrow> run_state (release k t) w = (q, w') \<Longrightarrow>
        holder k w' = Some u"
begin

text \<open>Two callers never both acquire a lock that is not let go in between.\<close>

lemma second_acquire_fails:
  assumes "run_state (acquire k t d) w = (Inr True, w1)" and "run_state (acquire k u d') w1 = (r, w2)"
  shows "r \<noteq> Inr True \<and> holder k w2 = Some t"
  using acquire_refuses [OF acquire_holds [OF assms(1)] assms(2)] by blast

lemma stranger_keeps_lock:
  assumes "run_state (acquire k t d) w = (Inr True, w1)" and "u \<noteq> t"
    and "run_state (renew k u d') w1 = (r, w2)" and "run_state (release k u) w2 = (q, w3)"
  shows "holder k w3 = Some t"
proof -
  have "holder k w2 = Some t"
    using renew_other [OF acquire_holds [OF assms(1)] _ assms(3)] assms(2) by blast
  then show ?thesis using release_other [OF _ _ assms(4)] assms(2) by blast
qed

end

end
