(* ===== verification/Mysql_Base.thy ===== *)
theory Mysql_Base
  imports Contracts
begin

text \<open>
  The SQL statements of \<open>internal/data/repo/mysql_repo.go\<close> on the tables of the model, under
  the schema of \<open>scripts/seckill.sql\<close>.  A table is the list of its rows in primary-key order.
  An update that leaves the range of an unsigned column fails as a whole (strict mode), changes
  \<open>update_time\<close> of the rows it changes, and reports the number of rows it changed.  An insert
  takes a new identifier even when a unique key refuses it.  Text is compared byte for byte
  (collations and column widths are not modelled).
\<close>

section \<open>Statements\<close>

text \<open>\<open>CURRENT_TIMESTAMP\<close> has whole seconds.\<close>

definition current_timestamp :: "world \<Rightarrow> Time" where
  "current_timestamp w = clock w div second * second"

definition OutOfRange :: error where
  "OutOfRange = Driver (ServerError ''Error 1264 (22003): Out of range value for column'')"

definition DuplicateEntry :: error where
  "DuplicateEntry = Driver (ServerError ''Error 1062 (23000): Duplicate entry for key'')"

definition AutoIncrementExhausted :: error where
  "AutoIncrementExhausted = Driver (ServerError ''Error 1467 (HY000): Failed to read auto-increment value from storage engine'')"

text \<open>\<open>strings.Contains(err.Error(), "Duplicate entry")\<close>.\<close>

definition is_duplicate :: "error \<Rightarrow> bool" where
  "is_duplicate e \<longleftrightarrow> contains (err_text e) ''Duplicate entry''"

lemma is_duplicate_DuplicateEntry [simp]: "is_duplicate DuplicateEntry"
  by (simp add: is_duplicate_def DuplicateEntry_def)

text \<open>The rows after an update, or none when a row leaves its range; a changed row is touched.\<close>

definition set_row :: "('r \<Rightarrow> 'r option) \<Rightarrow> ('r \<Rightarrow> 'r) \<Rightarrow> 'r \<Rightarrow> 'r" where
  "set_row f touch r = (case f r of None \<Rightarrow> r | Some r' \<Rightarrow> if r' = r then r else touch r')"

definition sql_exec :: "('r \<Rightarrow> bool) \<Rightarrow> ('r \<Rightarrow> 'r option) \<Rightarrow> ('r \<Rightarrow> 'r) \<Rightarrow> 'r list \<Rightarrow> error + 'r list \<times> nat" where
  "sql_exec p f touch t =
     (if list_ex (\<lambda>r. p r \<and> f r = None) t then Inl OutOfRange
      else Inr (sql_update p (set_row f touch) t, length (filter (\<lambda>r. p r \<and> f r \<noteq> Some r) t)))"

definition exec_on ::
    "(world \<Rightarrow> 'r list) \<Rightarrow> ('r list \<Rightarrow> world \<Rightarrow> world) \<Rightarrow> ('r \<Rightarrow> bool) \<Rightarrow> ('r \<Rightarrow> 'r option) \<Rightarrow>
     (Time \<Rightarrow> 'r \<Rightarrow> 'r) \<Rightarrow> nat io" where
  "exec_on table put p f touch = call (\<lambda>w.
     case sql_exec p f (touch (current_timestamp w)) (table w) of
       Inl e \<Rightarrow> (Inl e, w)
     | Inr (t, n) \<Rightarrow> (Inr n, put t w))"

definition insert_on ::
    "(world \<Rightarrow> 'r list) \<Rightarrow> ('r list \<Rightarrow> world \<Rightarrow> world) \<Rightarrow> ('r \<Rightarrow> 'r \<Rightarrow> bool) \<Rightarrow> (u64 \<Rightarrow> Time \<Rightarrow> 'r) \<Rightarrow> u64 io" where
  "insert_on table put clash new = call (\<lambda>w.
     if 2 ^ 64 \<le> auto_id w then (Inl AutoIncrementExhausted, w)
     else let i = of_nat (auto_id w); r = new i (current_timestamp w); w1 = w\<lparr>auto_id := Suc (auto_id w)\<rparr>
          in if sql_clash clash r (table w) then (Inl DuplicateEntry, w1)
             else (Inr i, put (table w @ [r]) w1))"

definition first_on :: "(world \<Rightarrow> 'r list) \<Rightarrow> ('r \<Rightarrow> bool) \<Rightarrow> 'r io" where
  "first_on table p = query (\<lambda>w. case sql_first p (table w) of None \<Rightarrow> Inl RecordNotFound | Some r \<Rightarrow> Inr r)"

definition find_on :: "(world \<Rightarrow> 'r list) \<Rightarrow> ('r \<Rightarrow> bool) \<Rightarrow> ('r list) io" where
  "find_on table p = query (\<lambda>w. Inr (filter p (table w)))"

definition count_on :: "(world \<Rightarrow> 'r list) \<Rightarrow> ('r \<Rightarrow> bool) \<Rightarrow> int io" where
  "count_on table p = query (\<lambda>w. Inr (int (length (filter p (table w)))))"

text \<open>\<open>LIMIT\<close> and \<open>OFFSET\<close>: gorm leaves out a negative limit and an offset that is not positive.\<close>

definition page_of :: "int \<Rightarrow> int \<Rightarrow> 'r list \<Rightarrow> 'r list" where
  "page_of offset limit rows =
     (let rows = (if 0 < offset then drop (nat offset) rows else rows)
      in if limit < 0 then rows else take (nat limit) rows)"

section \<open>Tables\<close>

definition put_skus :: "SeckillSkuRow list \<Rightarrow> world \<Rightarrow> world" where
  "put_skus t w = w\<lparr>core := (core w)\<lparr>skus := t\<rparr>\<rparr>"

definition put_activities :: "SeckillActivityRow list \<Rightarrow> world \<Rightarrow> world" where
  "put_activities t w = w\<lparr>core := (core w)\<lparr>activities := t\<rparr>\<rparr>"

definition put_coupons :: "CouponRow list \<Rightarrow> world \<Rightarrow> world" where
  "put_coupons t w = w\<lparr>core := (core w)\<lparr>coupons := t\<rparr>\<rparr>"

definition put_user_coupons :: "UserCouponRow list \<Rightarrow> world \<Rightarrow> world" where
  "put_user_coupons t w = w\<lparr>core := (core w)\<lparr>user_coupons := t\<rparr>\<rparr>"

definition put_orders :: "SeckillOrderRow list \<Rightarrow> world \<Rightarrow> world" where
  "put_orders t w = w\<lparr>core := (core w)\<lparr>orders := t\<rparr>\<rparr>"

definition put_shippings :: "OrderShippingRow list \<Rightarrow> world \<Rightarrow> world" where
  "put_shippings t w = w\<lparr>core := (core w)\<lparr>shippings := t\<rparr>\<rparr>"

definition put_products :: "ProductRow list \<Rightarrow> world \<Rightarrow> world" where
  "put_products t w = w\<lparr>products := t\<rparr>"

definition put_pay_infos :: "PayInfoRow list \<Rightarrow> world \<Rightarrow> world" where
  "put_pay_infos t w = w\<lparr>pay_infos := t\<rparr>"

definition put_dead_letters :: "MqDeadLetterMessageRow list \<Rightarrow> world \<Rightarrow> world" where
  "put_dead_letters t w = w\<lparr>dead_letters := t\<rparr>"

lemmas put_defs = put_skus_def put_activities_def put_coupons_def put_user_coupons_def put_orders_def
  put_shippings_def put_products_def put_pay_infos_def put_dead_letters_def

abbreviation "sku_table \<equiv> \<lambda>w. skus (core w)"
abbreviation "activity_table \<equiv> \<lambda>w. activities (core w)"
abbreviation "coupon_table \<equiv> \<lambda>w. coupons (core w)"
abbreviation "user_coupon_table \<equiv> \<lambda>w. user_coupons (core w)"
abbreviation "order_table \<equiv> \<lambda>w. orders (core w)"
abbreviation "shipping_table \<equiv> \<lambda>w. shippings (core w)"

section \<open>Lemmas\<close>

subsection \<open>Frames\<close>

text \<open>An observer that sees neither the reply list, nor the identifier counter, nor the table written.\<close>

lemma same_exec_on [frame]:
  assumes "\<And>t w. g (put t w) = g w" and "\<And>w rs. g (w\<lparr>replies := rs\<rparr>) = g w"
  shows "same g (exec_on table put p f touch)"
  unfolding exec_on_def by (rule same_call) (simp_all add: assms split: sum.split prod.split)

lemma same_insert_on [frame]:
  assumes "\<And>t w. g (put t w) = g w" and "\<And>w rs. g (w\<lparr>replies := rs\<rparr>) = g w"
    and "\<And>w n. g (w\<lparr>auto_id := n\<rparr>) = g w"
  shows "same g (insert_on table put clash new)"
  unfolding insert_on_def by (rule same_call) (simp_all add: assms Let_def)

lemma same_first_on [frame]: "(\<And>w rs. g (w\<lparr>replies := rs\<rparr>) = g w) \<Longrightarrow> same g (first_on table p)"
  unfolding first_on_def by (rule same_query)

lemma same_find_on [frame]: "(\<And>w rs. g (w\<lparr>replies := rs\<rparr>) = g w) \<Longrightarrow> same g (find_on table p)"
  unfolding find_on_def by (rule same_query)

lemma same_count_on [frame]: "(\<And>w rs. g (w\<lparr>replies := rs\<rparr>) = g w) \<Longrightarrow> same g (count_on table p)"
  unfolding count_on_def by (rule same_query)

subsection \<open>Results\<close>

lemma query_Inr:
  assumes "run_state (query f) w = (Inr x, w')"
  obtains rs where "f (w\<lparr>replies := rs\<rparr>) = Inr x" and "w' = w\<lparr>replies := rs\<rparr>"
  using assms unfolding query_def by (elim call_Inr) auto

lemma query_run:
  assumes "run_state (query f) w = (r, w')"
  obtains rs where "w' = w\<lparr>replies := rs\<rparr>"
  using assms unfolding query_def by (cases rule: call_cases) auto

lemma first_on_Inr:
  assumes "run_state (first_on table p) w = (Inr r, w')" and "\<And>w rs. table (w\<lparr>replies := rs\<rparr>) = table w"
  obtains rs where "sql_first p (table w) = Some r" and "w' = w\<lparr>replies := rs\<rparr>"
  using assms(1) unfolding first_on_def
  by (elim query_Inr) (auto simp: assms(2) split: option.splits)

lemma first_on_run:
  assumes "run_state (first_on table p) w = (r, w')"
  obtains rs where "w' = w\<lparr>replies := rs\<rparr>"
  using assms unfolding first_on_def by (rule query_run)

text \<open>Three ends of an update: carried out with or without the answer, or nothing changed.\<close>

lemma exec_on_cases:
  assumes "run_state (exec_on table put p f touch) w = (r, w')"
    and "\<And>w rs. table (w\<lparr>replies := rs\<rparr>) = table w" and "\<And>w rs. clock (w\<lparr>replies := rs\<rparr>) = clock w"
  obtains (executed) rs t n where "sql_exec p f (touch (current_timestamp w)) (table w) = Inr (t, n)"
      and "w' = put t (w\<lparr>replies := rs\<rparr>)" and "r = Inr n \<or> (\<exists>d. r = Inl (Driver d))"
  | (failed) rs e where "r = Inl e" and "w' = w\<lparr>replies := rs\<rparr>"
proof -
  define F where "F = (\<lambda>w. case sql_exec p f (touch (current_timestamp w)) (table w) of
       Inl e \<Rightarrow> (Inl e, w) | Inr (t, n) \<Rightarrow> (Inr n, put t w))"
  have ts: "current_timestamp (w\<lparr>replies := rs\<rparr>) = current_timestamp w" for rs
    by (simp add: current_timestamp_def)
  have run: "run_state (call F) w = (r, w')" using assms(1) by (simp add: exec_on_def F_def)
  show ?thesis
  proof (cases "sql_exec p f (touch (current_timestamp w)) (table w)")
    case (Inl e)
    then have f: "F (w\<lparr>replies := rs\<rparr>) = (Inl e, w\<lparr>replies := rs\<rparr>)" for rs by (simp add: F_def assms(2) ts)
    from run show ?thesis by (cases rule: call_cases) (use failed f in auto)
  next
    case (Inr q)
    then obtain t n where q: "sql_exec p f (touch (current_timestamp w)) (table w) = Inr (t, n)" by (cases q) auto
    then have f: "F (w\<lparr>replies := rs\<rparr>) = (Inr n, put t (w\<lparr>replies := rs\<rparr>))" for rs by (simp add: F_def assms(2) ts)
    from run show ?thesis
    proof (cases rule: call_cases)
      case (answered rs)
      then show ?thesis using executed [OF q] f by simp
    next
      case (refused d rs)
      then show ?thesis using failed by blast
    next
      case (lost d rs)
      then show ?thesis using executed [OF q, of rs] f by simp
    qed
  qed
qed

lemma exec_on_Inr:
  assumes "run_state (exec_on table put p f touch) w = (Inr n, w')"
    and "\<And>w rs. table (w\<lparr>replies := rs\<rparr>) = table w"
  obtains rs t where "sql_exec p f (touch (current_timestamp w)) (table w) = Inr (t, n)"
      and "w' = put t (w\<lparr>replies := rs\<rparr>)"
  using assms(1) by (cases rule: exec_on_cases) (use assms(2) that in auto)

lemma insert_on_cases:
  assumes "run_state (insert_on table put clash new) w = (r, w')"
    and "\<And>w rs. table (w\<lparr>replies := rs\<rparr>) = table w"
  obtains (inserted) rs i where "\<not> sql_clash clash (new i (current_timestamp w)) (table w)"
      and "auto_id w < 2 ^ 64" and "i = of_nat (auto_id w)"
      and "w' = put (table w @ [new i (current_timestamp w)]) (w\<lparr>replies := rs, auto_id := Suc (auto_id w)\<rparr>)"
      and "r = Inr i \<or> (\<exists>d. r = Inl (Driver d))"
  | (failed) rs n e where "r = Inl e" and "w' = w\<lparr>replies := rs, auto_id := n\<rparr>"
      and "auto_id w \<le> n"
proof -
  let ?i = "of_nat (auto_id w) :: u64"
  let ?new = "new ?i (current_timestamp w)"
  define F where "F = (\<lambda>w. if 2 ^ 64 \<le> auto_id w then (Inl AutoIncrementExhausted, w)
     else let i = of_nat (auto_id w); r = new i (current_timestamp w); w1 = w\<lparr>auto_id := Suc (auto_id w)\<rparr>
          in if sql_clash clash r (table w) then (Inl DuplicateEntry, w1)
             else (Inr i, put (table w @ [r]) w1))"
  have ts: "current_timestamp (w\<lparr>replies := rs\<rparr>) = current_timestamp w" for rs
    by (simp add: current_timestamp_def)
  have run: "run_state (call F) w = (r, w')" using assms(1) by (simp add: insert_on_def F_def)
  have self: "w\<lparr>replies := rs\<rparr> = w\<lparr>replies := rs, auto_id := auto_id w\<rparr>" for rs by (cases w) simp
  consider "2 ^ 64 \<le> auto_id w" | "auto_id w < 2 ^ 64" "sql_clash clash ?new (table w)"
    | "auto_id w < 2 ^ 64" "\<not> sql_clash clash ?new (table w)" by linarith
  then show ?thesis
  proof cases
    case 1
    then have f: "F (w\<lparr>replies := rs\<rparr>) = (Inl AutoIncrementExhausted, w\<lparr>replies := rs\<rparr>)" for rs by (simp add: F_def)
    have "\<exists>e rs. r = Inl e \<and> w' = w\<lparr>replies := rs\<rparr>"
      using run by (cases rule: call_cases) (auto simp: f)
    then show ?thesis using failed self by (metis order_refl)
  next
    case 2
    then have f: "F (w\<lparr>replies := rs\<rparr>) = (Inl DuplicateEntry, w\<lparr>replies := rs, auto_id := Suc (auto_id w)\<rparr>)" for rs
      by (simp add: F_def assms(2) ts Let_def)
    have "\<exists>e rs n. r = Inl e \<and> w' = w\<lparr>replies := rs, auto_id := n\<rparr> \<and> auto_id w \<le> n"
      using run
    proof (cases rule: call_cases)
      case (refused d rs)
      then show ?thesis using self by (metis order_refl)
    next
      case (answered rs)
      then show ?thesis using f by (metis Pair_inject le_SucI order_refl)
    next
      case (lost d rs)
      then show ?thesis using f by (metis snd_conv le_SucI order_refl)
    qed
    then show ?thesis using failed by blast
  next
    case 3
    then have f: "F (w\<lparr>replies := rs\<rparr>) = (Inr ?i, put (table w @ [?new]) (w\<lparr>replies := rs, auto_id := Suc (auto_id w)\<rparr>))" for rs
      by (simp add: F_def assms(2) ts Let_def)
    from run show ?thesis
    proof (cases rule: call_cases)
      case (answered rs)
      then show ?thesis using inserted [OF 3(2,1) refl] f by simp
    next
      case (refused d rs)
      then show ?thesis using failed self by (metis order_refl)
    next
      case (lost d rs)
      then show ?thesis using inserted [OF 3(2,1) refl] f by simp
    qed
  qed
qed

lemma insert_on_Inr:
  assumes "run_state (insert_on table put clash new) w = (Inr i, w')"
    and "\<And>w rs. table (w\<lparr>replies := rs\<rparr>) = table w"
  obtains rs where "\<not> sql_clash clash (new i (current_timestamp w)) (table w)"
      and "w' = put (table w @ [new i (current_timestamp w)]) (w\<lparr>replies := rs, auto_id := Suc (auto_id w)\<rparr>)"
  using assms(1) by (cases rule: insert_on_cases) (use assms(2) that in auto)

lemma sql_exec_Inr:
  "sql_exec p f touch t = Inr (t', n) \<longleftrightarrow>
     (\<forall>r \<in> set t. p r \<longrightarrow> f r \<noteq> None) \<and> t' = sql_update p (set_row f touch) t \<and>
     n = length (filter (\<lambda>r. p r \<and> f r \<noteq> Some r) t)"
  by (auto simp: sql_exec_def list_ex_iff)

end
