(* ===== verification/Mysql_Orders.thy ===== *)
theory Mysql_Orders
  imports Mysql_Base
begin

text \<open>
  The stock, order, shipping and address methods of \<open>mysqlRepo\<close>
  (\<open>internal/data/repo/mysql_repo.go\<close>).
\<close>

definition not_found_as :: "error \<Rightarrow> error \<Rightarrow> error" where
  "not_found_as e' e = (if errors_is e RecordNotFound then e' else e)"

section \<open>Stock\<close>

definition touch_sku :: "Time \<Rightarrow> SeckillSkuRow \<Rightarrow> SeckillSkuRow" where
  "touch_sku t r = r\<lparr>sku_UpdateTime := Some t\<rparr>"

text \<open>\<open>available_stock\<close> and \<open>version\<close> are unsigned: leaving the range refuses the statement.\<close>

definition add_u32 :: "u32 \<Rightarrow> int \<Rightarrow> u32 option" where
  "add_u32 u d = (if 0 \<le> uint u + d \<and> uint u + d < 2 ^ 32 then Some (word_of_int (uint u + d)) else None)"

definition shift_stock :: "int \<Rightarrow> SeckillSkuRow \<Rightarrow> SeckillSkuRow option" where
  "shift_stock d r = (case (add_u32 (sku_AvailableStock r) d, add_u32 (sku_Version r) 1) of
       (Some a, Some v) \<Rightarrow> Some (r\<lparr>sku_AvailableStock := a, sku_Version := v\<rparr>)
     | _ \<Rightarrow> None)"

definition mysqlRepo_LockStock :: "u64 \<Rightarrow> u32 \<Rightarrow> SkuStock io" where
  "mysqlRepo_LockStock skuID quantity =
     bindE (on_error (not_found_as ErrInsufficientStock)
              (first_on sku_table (\<lambda>r. sku_ID r = skuID \<and> quantity \<le> sku_AvailableStock r)))
       (\<lambda>sku. return (Inr \<lparr>sst_ID = sku_ID sku, sst_Stock = 0, sst_SeckillPrice = sku_SeckillPrice sku,
          sst_Version = sku_Version sku\<rparr>))"

definition mysqlRepo_DecreaseStock :: "u64 \<Rightarrow> u32 \<Rightarrow> u32 \<Rightarrow> unit io" where
  "mysqlRepo_DecreaseStock skuID quantity version =
     bindE (exec_on sku_table put_skus (\<lambda>r. sku_ID r = skuID \<and> quantity \<le> sku_AvailableStock r)
              (shift_stock (- uint quantity)) touch_sku)
       (\<lambda>n. if n = 0 then return (Inl ErrInsufficientStock) else return (Inr ()))"

definition mysqlRepo_RestoreStock :: "u64 \<Rightarrow> u32 \<Rightarrow> unit io" where
  "mysqlRepo_RestoreStock skuID quantity =
     bindE (exec_on sku_table put_skus (\<lambda>r. sku_ID r = skuID) (shift_stock (uint quantity)) touch_sku)
       (\<lambda>n. if n = 0 then return (Inl (Plain (utf8 [230, 129, 162, 229, 164, 141, 229, 186, 147, 229, 173, 152, 229, 164, 177, 232, 180, 165]))) else return (Inr ()))"

section \<open>Purchase records and addresses\<close>

definition mysqlRepo_CheckUserBuyRecord :: "u64 \<Rightarrow> u64 \<Rightarrow> UserBuyRecord io" where
  "mysqlRepo_CheckUserBuyRecord userID activityID = do {
     r \<leftarrow> first_on order_table
            (\<lambda>row. orw_UserID row = userID \<and> orw_ActivityID row = activityID \<and> orw_Status row \<in> {0, 1});
     case r of
       Inl e \<Rightarrow> if errors_is e RecordNotFound
                then return (Inr \<lparr>ubr_HasBought = False, ubr_Quantity = 0\<rparr>)
                else return (Inl e)
     | Inr row \<Rightarrow> return (Inr \<lparr>ubr_HasBought = True,
                  ubr_Quantity = (case orw_Quantity row of Some q \<Rightarrow> uint q | None \<Rightarrow> 0)\<rparr>) }"

definition mysqlRepo_GetUserAddress :: "u64 \<Rightarrow> Address io" where
  "mysqlRepo_GetUserAddress addressID =
     bindE (on_error (not_found_as ErrAddressNotFound)
              (first_on addresses (\<lambda>a. uad_ID a = addressID \<and> uad_IsDelete a = 0)))
       (\<lambda>a. return (Inr \<lparr>addr_ID = uad_ID a, addr_ReceiverName = uad_ReceiverName a,
          addr_ReceiverPhone = uad_ReceiverPhone a, addr_Province = uad_Province a, addr_City = uad_City a,
          addr_District = uad_District a, addr_DetailAddress = uad_DetailAddress a,
          addr_IsDefault = (uad_IsDefault a = 1)\<rparr>))"

section \<open>Orders\<close>

text \<open>The three unique keys of \<open>seckill_order\<close>.\<close>

definition order_clash :: "SeckillOrderRow \<Rightarrow> SeckillOrderRow \<Rightarrow> bool" where
  "order_clash r q \<longleftrightarrow> orw_OrderNo r = orw_OrderNo q \<or> orw_RequestID r = orw_RequestID q
     \<or> (orw_UserID r = orw_UserID q \<and> orw_ActivityID r = orw_ActivityID q)"

definition nonzero :: "u64 \<Rightarrow> u64 option" where
  "nonzero u = (if u > 0 then Some u else None)"

definition order_row :: "Order \<Rightarrow> u64 \<Rightarrow> Time \<Rightarrow> SeckillOrderRow" where
  "order_row row i t = \<lparr>orw_ID = i, orw_OrderNo = ord_OrderNo row, orw_RequestID = ord_RequestID row,
     orw_UserID = ord_UserID row, orw_ActivityID = ord_ActivityID row, orw_ProductID = ord_ProductID row,
     orw_SkuID = ord_SkuID row, orw_ProductName = ord_ProductName row, orw_ProductImage = ord_ProductImage row,
     orw_SeckillPrice = ord_SeckillPrice row, orw_Quantity = Some (u32_of (ord_Quantity row)),
     orw_OrderAmount = ord_OrderAmount row, orw_FinalAmount = Some (ord_FinalAmount row),
     orw_CouponID = nonzero (ord_CouponID row), orw_CouponDiscount = ord_CouponDiscount row,
     orw_AddressID = nonzero (ord_AddressID row), orw_Status = 0, orw_PayTime = None,
     orw_CreateTime = Some t, orw_UpdateTime = Some t\<rparr>"

definition mysqlRepo_CreateOrder :: "Order \<Rightarrow> string io" where
  "mysqlRepo_CreateOrder row = do {
     r \<leftarrow> insert_on order_table put_orders order_clash (order_row row);
     case r of
       Inl e \<Rightarrow> if is_duplicate e then return (Inl ErrOrderExists) else return (Inl e)
     | Inr _ \<Rightarrow> return (Inr (ord_OrderNo row)) }"

definition shipping_row :: "string \<Rightarrow> Address \<Rightarrow> u64 \<Rightarrow> Time \<Rightarrow> OrderShippingRow" where
  "shipping_row orderNo a i t = \<lparr>shp_ID = i, shp_OrderNo = orderNo, shp_ReceiverName = addr_ReceiverName a,
     shp_ReceiverPhone = addr_ReceiverPhone a, shp_Province = addr_Province a, shp_City = addr_City a,
     shp_District = addr_District a, shp_DetailAddress = addr_DetailAddress a, shp_CreateTime = Some t\<rparr>"

definition mysqlRepo_CreateOrderShipping :: "string \<Rightarrow> Address \<Rightarrow> unit io" where
  "mysqlRepo_CreateOrderShipping orderNo a =
     bindE (insert_on shipping_table put_shippings (\<lambda>r q. shp_OrderNo r = shp_OrderNo q) (shipping_row orderNo a))
       (\<lambda>_. return (Inr ()))"

text \<open>The zero value that a composite literal of the code starts from.\<close>

definition zeroOrderInfo :: OrderInfo where
  "zeroOrderInfo = \<lparr>oi_OrderNo = [], oi_UserID = 0, oi_ActivityID = 0, oi_ProductID = 0, oi_SkuID = 0,
     oi_ProductName = [], oi_ProductImage = [], oi_SeckillPrice = 0, oi_Quantity = 0, oi_OrderAmount = 0,
     oi_CouponID = 0, oi_CouponDiscount = 0, oi_FinalAmount = 0, oi_Status = 0, oi_CreateTime = [],
     oi_PayTime = [], oi_Address = None, oi_RemainingSeconds = 0\<rparr>"

definition quantity_of :: "SeckillOrderRow \<Rightarrow> int" where
  "quantity_of row = (case orw_Quantity row of Some q \<Rightarrow> uint q | None \<Rightarrow> 0)"

definition coupon_of :: "SeckillOrderRow \<Rightarrow> u64" where
  "coupon_of row = (case orw_CouponID row of Some c \<Rightarrow> c | None \<Rightarrow> 0)"

definition final_amount_of :: "SeckillOrderRow \<Rightarrow> u64" where
  "final_amount_of row = (case orw_FinalAmount row of Some a \<Rightarrow> a | None \<Rightarrow> orw_OrderAmount row)"

definition time_text :: "env \<Rightarrow> Time option \<Rightarrow> string" where
  "time_text E t = (case t of Some x \<Rightarrow> format_time E x | None \<Rightarrow> [])"

definition snapshot_of :: "OrderShippingRow \<Rightarrow> AddressSnapshot" where
  "snapshot_of s = \<lparr>snap_ReceiverName = shp_ReceiverName s, snap_ReceiverPhone = shp_ReceiverPhone s,
     snap_Province = shp_Province s, snap_City = shp_City s, snap_District = shp_District s,
     snap_DetailAddress = shp_DetailAddress s\<rparr>"

definition order_info :: "env \<Rightarrow> SeckillOrderRow \<Rightarrow> OrderInfo" where
  "order_info E row = zeroOrderInfo\<lparr>oi_OrderNo := orw_OrderNo row, oi_UserID := orw_UserID row,
     oi_ActivityID := orw_ActivityID row, oi_ProductID := orw_ProductID row, oi_SkuID := orw_SkuID row,
     oi_ProductName := orw_ProductName row, oi_ProductImage := orw_ProductImage row,
     oi_SeckillPrice := orw_SeckillPrice row, oi_Quantity := quantity_of row, oi_OrderAmount := orw_OrderAmount row,
     oi_CouponID := coupon_of row, oi_CouponDiscount := orw_CouponDiscount row,
     oi_FinalAmount := final_amount_of row, oi_Status := sint (orw_Status row),
     oi_CreateTime := time_text E (orw_CreateTime row)\<rparr>"

definition pay_countdown :: "Time \<Rightarrow> SeckillOrderRow \<Rightarrow> int" where
  "pay_countdown now row = (case orw_CreateTime row of
       Some t \<Rightarrow> if orw_Status row = 0 then max 0 (go_div (t + 15 * minute - now) second) else 0
     | None \<Rightarrow> 0)"

definition mysqlRepo_GetOrder :: "env \<Rightarrow> string \<Rightarrow> OrderInfo io" where
  "mysqlRepo_GetOrder E orderNo =
     bindE (on_error (not_found_as ErrOrderNotFound) (first_on order_table (\<lambda>row. orw_OrderNo row = orderNo)))
       (\<lambda>row. do {
          shipping \<leftarrow> first_on shipping_table (\<lambda>s. shp_OrderNo s = orderNo);
          now \<leftarrow> Now;
          return (Inr ((order_info E row)\<lparr>oi_RemainingSeconds := pay_countdown now row,
            oi_Address := (case shipping of Inl _ \<Rightarrow> None | Inr s \<Rightarrow> Some (snapshot_of s))\<rparr>)) })"

definition mysqlRepo_GetOrderByRequestID :: "env \<Rightarrow> string \<Rightarrow> OrderInfo io" where
  "mysqlRepo_GetOrderByRequestID E requestID =
     bindE (on_error (not_found_as ErrOrderNotFound) (first_on order_table (\<lambda>row. orw_RequestID row = requestID)))
       (\<lambda>row. return (Inr (order_info E row)))"

text \<open>This literal leaves \<open>CouponDiscount\<close> out.\<close>

definition mysqlRepo_GetOrderForUpdate :: "env \<Rightarrow> string \<Rightarrow> OrderInfo io" where
  "mysqlRepo_GetOrderForUpdate E orderNo =
     bindE (on_error (not_found_as ErrOrderNotFound) (first_on order_table (\<lambda>row. orw_OrderNo row = orderNo)))
       (\<lambda>row. return (Inr ((order_info E row)\<lparr>oi_CouponDiscount := 0\<rparr>)))"

definition OrderStatusPending :: int where "OrderStatusPending = 0"
definition OrderStatusPaid :: int where "OrderStatusPaid = 1"
definition OrderStatusCancel :: int where "OrderStatusCancel = 2"

lemmas order_status_defs = OrderStatusPending_def OrderStatusPaid_def OrderStatusCancel_def

definition touch_order :: "Time \<Rightarrow> SeckillOrderRow \<Rightarrow> SeckillOrderRow" where
  "touch_order t r = r\<lparr>orw_UpdateTime := Some t\<rparr>"

definition set_status :: "int \<Rightarrow> Time \<Rightarrow> SeckillOrderRow \<Rightarrow> SeckillOrderRow" where
  "set_status toStatus now r =
     (let r = r\<lparr>orw_Status := u32_of toStatus\<rparr>
      in if toStatus = OrderStatusPaid then r\<lparr>orw_PayTime := Some (datetime now)\<rparr> else r)"

definition mysqlRepo_UpdateOrderStatus :: "string \<Rightarrow> int \<Rightarrow> int \<Rightarrow> unit io" where
  "mysqlRepo_UpdateOrderStatus orderNo fromStatus toStatus = do {
     now \<leftarrow> Now;
     bindE (exec_on order_table put_orders
              (\<lambda>row. orw_OrderNo row = orderNo \<and> orw_Status row = u32_of fromStatus)
              (\<lambda>r. Some (set_status toStatus now r)) touch_order)
       (\<lambda>n. if n = 0 then return (Inl ErrOrderStatusIncorrect) else return (Inr ())) }"

definition pending_info :: "env \<Rightarrow> SeckillOrderRow \<Rightarrow> OrderInfo" where
  "pending_info E row = zeroOrderInfo\<lparr>oi_OrderNo := orw_OrderNo row, oi_UserID := orw_UserID row,
     oi_SkuID := orw_SkuID row, oi_Quantity := quantity_of row, oi_OrderAmount := orw_OrderAmount row,
     oi_Status := sint (orw_Status row), oi_CreateTime := time_text E (orw_CreateTime row),
     oi_CouponID := coupon_of row\<rparr>"

definition mysqlRepo_GetPendingOrders :: "env \<Rightarrow> int \<Rightarrow> (OrderInfo list) io" where
  "mysqlRepo_GetPendingOrders E timeoutMinutes = do {
     now \<leftarrow> Now;
     bindE (find_on order_table (\<lambda>row. orw_Status row = 0 \<and>
              (case orw_CreateTime row of None \<Rightarrow> False | Some t \<Rightarrow> t \<le> now - timeoutMinutes * minute)))
       (\<lambda>os. return (Inr (map (pending_info E) os))) }"

end
