(* ===== verification/Mysql_Catalog.thy ===== *)
theory Mysql_Catalog
  imports Mysql_Orders
begin

text \<open>
  The product and activity methods of \<open>mysqlRepo\<close>: the paged list, the detail, the current
  activity and the two administrative updates.
\<close>

section \<open>The product list\<close>

text \<open>
  \<open>ORDER BY\<close> of the five sort types.  Rows that agree on the sort column come in primary-key
  order (the server promises no order for them).
\<close>

definition sort_skus :: "int \<Rightarrow> SeckillSkuRow list \<Rightarrow> SeckillSkuRow list" where
  "sort_skus sortType rows =
     (if sortType = 2 then sort_key (\<lambda>r. uint (sku_SeckillPrice r)) rows
      else if sortType = 3 then sort_key (\<lambda>r. - uint (sku_SeckillPrice r)) rows
      else if sortType = 4 then sort_key (\<lambda>r. uint (sku_AvailableStock r)) rows
      else if sortType = 5 then sort_key (\<lambda>r. - uint (sku_AvailableStock r)) rows
      else sort_key (\<lambda>r. uint (sku_ID r)) rows)"

text \<open>The subtraction, the product and the quotient are on \<open>uint32\<close>.\<close>

definition sale_rate :: "SeckillSkuRow \<Rightarrow> int" where
  "sale_rate s = (if sku_TotalStock s > 0
     then uint ((sku_TotalStock s - sku_AvailableStock s) * 100 div sku_TotalStock s) else 0)"

definition limit_of :: "SeckillSkuRow \<Rightarrow> int" where
  "limit_of s = (case sku_LimitNum s of Some l \<Rightarrow> uint l | None \<Rightarrow> 1)"

definition list_entry :: "ProductRow list \<Rightarrow> SeckillSkuRow \<Rightarrow> SeckillProduct" where
  "list_entry ps s =
     (let prod = sql_first (\<lambda>p. prd_ID p = sku_ProductID s) (rev ps)
      in \<lparr>sp_SkuID = sku_ID s, sp_ActivityID = sku_ActivityID s, sp_ProductID = sku_ProductID s,
          sp_Name = (case prod of Some p \<Rightarrow> prd_Name p | None \<Rightarrow> []),
          sp_MainImage = (case prod of Some p \<Rightarrow> prd_MainImage p | None \<Rightarrow> []),
          sp_SeckillPrice = sku_SeckillPrice s, sp_MarketPrice = sku_MarketPrice s,
          sp_AvailableStock = uint (sku_AvailableStock s), sp_TotalStock = uint (sku_TotalStock s),
          sp_LimitNum = limit_of s, sp_SaleRate = sale_rate s, sp_UserHasBought = False\<rparr>)"

definition mysqlRepo_ListSeckillProducts ::
    "u64 \<Rightarrow> int \<Rightarrow> int \<Rightarrow> int \<Rightarrow> (SeckillProduct list \<times> int) io" where
  "mysqlRepo_ListSeckillProducts activityID page pageSize sortType =
     (let wanted = (\<lambda>s. activityID > 0 \<longrightarrow> sku_ActivityID s = activityID);
          offset = wrap32 (wrap32 (page - 1) * pageSize)
      in bindE (count_on sku_table wanted) (\<lambda>total.
         bindE (query (\<lambda>w. Inr (page_of offset pageSize (sort_skus sortType (filter wanted (sku_table w)))))) (\<lambda>rows.
         bindE (if rows = [] then return (Inr [])
                else find_on products (\<lambda>p. prd_ID p \<in> set (map sku_ProductID rows))) (\<lambda>ps.
         return (Inr (map (list_entry ps) rows, total))))))"

section \<open>Product detail and current activity\<close>

text \<open>\<open>int64(d.Seconds())\<close> truncates towards zero.\<close>

definition whole_seconds :: "Time \<Rightarrow> int" where
  "whole_seconds d = go_div d second"

definition activity_countdown :: "Time \<Rightarrow> SeckillActivityRow \<Rightarrow> int" where
  "activity_countdown now a =
     (if now < acr_StartTime a then whole_seconds (acr_StartTime a - now)
      else if now < acr_EndTime a then whole_seconds (acr_EndTime a - now)
      else 0)"

definition mysqlRepo_GetSeckillProductDetail :: "env \<Rightarrow> u64 \<Rightarrow> u64 \<Rightarrow> SeckillProductDetail io" where
  "mysqlRepo_GetSeckillProductDetail E productID activityID =
     bindE (first_on sku_table (\<lambda>s. sku_ProductID s = productID \<and> sku_ActivityID s = activityID)) (\<lambda>sku.
     bindE (first_on activity_table (\<lambda>a. acr_ID a = sku_ActivityID sku)) (\<lambda>activity.
     bindE (first_on products (\<lambda>p. prd_ID p = productID)) (\<lambda>product. do {
       now \<leftarrow> Now;
       return (Inr \<lparr>pd_ProductID = productID, pd_Name = prd_Name product, pd_Subtitle = prd_Subtitle product,
         pd_MainImage = prd_MainImage product,
         pd_Detail = (case prd_Detail product of Some d \<Rightarrow> d | None \<Rightarrow> []),
         pd_SkuID = sku_ID sku, pd_SeckillPrice = sku_SeckillPrice sku, pd_MarketPrice = sku_MarketPrice sku,
         pd_TotalStock = uint (sku_TotalStock sku), pd_AvailableStock = uint (sku_AvailableStock sku),
         pd_LimitNum = limit_of sku, pd_ActivityID = acr_ID activity, pd_ActivityTitle = acr_Title activity,
         pd_Description = acr_Description activity, pd_StartTime = format_time E (acr_StartTime activity),
         pd_EndTime = format_time E (acr_EndTime activity), pd_ActivityStatus = acr_Status activity,
         pd_RemainingSeconds = activity_countdown now activity, pd_Version = sku_Version sku\<rparr>) })))"

text \<open>\<open>ORDER BY id DESC\<close>: the last row in primary-key order.\<close>

definition mysqlRepo_GetCurrentActivity :: "env \<Rightarrow> (Activity \<times> int) io" where
  "mysqlRepo_GetCurrentActivity E = do {
     now \<leftarrow> Now;
     bindE (on_error (not_found_as ErrNoActiveActivity)
              (first_on (\<lambda>w. rev (activity_table w))
                 (\<lambda>a. acr_StartTime a \<le> now \<and> now \<le> acr_EndTime a \<and> acr_Status a = 1))) (\<lambda>a.
     bindE (count_on sku_table (\<lambda>s. sku_ActivityID s = acr_ID a)) (\<lambda>n.
     return (Inr (\<lparr>act_ID = acr_ID a, act_Title = acr_Title a, act_Description = acr_Description a,
       act_StartTime = format_time E (acr_StartTime a), act_EndTime = format_time E (acr_EndTime a),
       act_Status = acr_Status a, act_RemainingSeconds = whole_seconds (acr_EndTime a - now)\<rparr>, n)))) }"

section \<open>Administrative updates\<close>

definition touch_activity :: "Time \<Rightarrow> SeckillActivityRow \<Rightarrow> SeckillActivityRow" where
  "touch_activity t r = r\<lparr>acr_UpdateTime := Some t\<rparr>"

definition touch_product :: "Time \<Rightarrow> ProductRow \<Rightarrow> ProductRow" where
  "touch_product t r = r\<lparr>prd_UpdateTime := Some t\<rparr>"

definition parse_time_E :: "env \<Rightarrow> string \<Rightarrow> error + Time" where
  "parse_time_E E s = (case parse_time E s of None \<Rightarrow> Inl (TimeParseError s) | Some t \<Rightarrow> Inr t)"

definition mysqlRepo_UpdateSeckillActivity :: "env \<Rightarrow> UpdateActivityRequest \<Rightarrow> unit io" where
  "mysqlRepo_UpdateSeckillActivity E req =
     bindE (return (parse_time_E E (uar_StartTime req))) (\<lambda>startTime.
     bindE (return (parse_time_E E (uar_EndTime req))) (\<lambda>endTime.
     bindE (exec_on activity_table put_activities (\<lambda>a. acr_ID a = uar_ActivityID req)
              (\<lambda>a. Some (a\<lparr>acr_Title := uar_Title req, acr_Description := uar_Description req,
                 acr_StartTime := datetime startTime, acr_EndTime := datetime endTime,
                 acr_Status := uar_Status req\<rparr>)) touch_activity) (\<lambda>n.
     if n = 0 then return (Inl ErrActivityNotFound) else return (Inr ()))))"

definition set_product :: "UpdateProductRequest \<Rightarrow> ProductRow \<Rightarrow> ProductRow" where
  "set_product req p = p\<lparr>prd_Name := upr_Name req, prd_Subtitle := upr_Subtitle req,
     prd_MainImage := upr_MainImage req, prd_Detail := Some (upr_Detail req),
     prd_Status := Some (upr_ProductStatus req)\<rparr>"

definition set_sku :: "UpdateProductRequest \<Rightarrow> SeckillSkuRow \<Rightarrow> SeckillSkuRow option" where
  "set_sku req s = map_option (\<lambda>v. s\<lparr>sku_SeckillPrice := upr_SeckillPrice req,
     sku_MarketPrice := upr_MarketPrice req, sku_TotalStock := upr_TotalStock req,
     sku_AvailableStock := upr_AvailableStock req, sku_LimitNum := Some (upr_LimitNum req),
     sku_Version := v\<rparr>) (add_u32 (sku_Version s) 1)"

definition mysqlRepo_UpdateSeckillProduct :: "UpdateProductRequest \<Rightarrow> unit io" where
  "mysqlRepo_UpdateSeckillProduct req =
     bindE (exec_on products put_products (\<lambda>p. prd_ID p = upr_ProductID req)
              (\<lambda>p. Some (set_product req p)) touch_product) (\<lambda>n.
     if n = 0 then return (Inl ErrProductNotFound)
     else bindE (exec_on sku_table put_skus
                   (\<lambda>s. sku_ActivityID s = upr_ActivityID req \<and> sku_ProductID s = upr_ProductID req)
                   (set_sku req) touch_sku) (\<lambda>m.
          if m = 0 then return (Inl ErrProductNotFound) else return (Inr ())))"

end
