(* ===== verification/Mysql_Coupons.thy ===== *)
theory Mysql_Coupons
  imports Mysql_Catalog
begin

text \<open>The coupon methods of \<open>mysqlRepo\<close> and the coupon constants of \<open>internal/biz/coupon.go\<close>.\<close>

definition CouponTypeCash :: int where "CouponTypeCash = 1"
definition CouponTypeDiscount :: int where "CouponTypeDiscount = 2"
definition UserCouponStatusUnused :: int where "UserCouponStatusUnused = 1"
definition UserCouponStatusUsed :: int where "UserCouponStatusUsed = 2"
definition UserCouponStatusExpired :: int where "UserCouponStatusExpired = 3"
definition CouponSceneFirstReview :: string where "CouponSceneFirstReview = ''FIRST_REVIEW''"
definition CouponSceneGoodReview :: string where "CouponSceneGoodReview = ''GOOD_REVIEW''"
definition CouponScenePhotoReview :: string where "CouponScenePhotoReview = ''PHOTO_REVIEW''"
definition CouponSceneInviteNew :: string where "CouponSceneInviteNew = ''INVITE_NEW''"
definition CouponSceneAfterSaleCompensation :: string where
  "CouponSceneAfterSaleCompensation = ''AFTER_SALE_COMPENSATION''"

lemmas coupon_status_defs = UserCouponStatusUnused_def UserCouponStatusUsed_def UserCouponStatusExpired_def

lemmas coupon_scene_defs = CouponSceneFirstReview_def CouponSceneGoodReview_def CouponScenePhotoReview_def
  CouponSceneInviteNew_def CouponSceneAfterSaleCompensation_def

section \<open>Coupon templates\<close>

definition touch_coupon :: "Time \<Rightarrow> CouponRow \<Rightarrow> CouponRow" where
  "touch_coupon t r = r\<lparr>cpr_UpdateTime := Some t\<rparr>"

definition shift_remain :: "int \<Rightarrow> CouponRow \<Rightarrow> CouponRow option" where
  "shift_remain d r = (case (add_u32 (cpr_RemainCount r) d, add_u32 (cpr_Version r) 1) of
       (Some a, Some v) \<Rightarrow> Some (r\<lparr>cpr_RemainCount := a, cpr_Version := v\<rparr>)
     | _ \<Rightarrow> None)"

definition mysqlRepo_GetCoupon :: "u64 \<Rightarrow> Coupon io" where
  "mysqlRepo_GetCoupon couponID = do {
     now \<leftarrow> Now;
     bindE (on_error (not_found_as ErrCouponInvalid)
              (first_on coupon_table (\<lambda>c. cpr_ID c = couponID \<and> cpr_RemainCount c > 0
                 \<and> cpr_StartTime c \<le> now \<and> now \<le> cpr_EndTime c)))
       (\<lambda>c. return (Inr \<lparr>cpn_ID = cpr_ID c, cpn_Name = cpr_Name c, cpn_Type = cpr_Type c,
          cpn_Value = cpr_Value c, cpn_MinAmount = cpr_MinAmount c, cpn_Version = cpr_Version c\<rparr>)) }"

definition mysqlRepo_UseCoupon :: "u64 \<Rightarrow> u32 \<Rightarrow> unit io" where
  "mysqlRepo_UseCoupon couponID version =
     bindE (exec_on coupon_table put_coupons
              (\<lambda>c. cpr_ID c = couponID \<and> cpr_Version c = version \<and> cpr_RemainCount c > 0)
              (shift_remain (- 1)) touch_coupon)
       (\<lambda>n. if n = 0 then return (Inl ErrCouponUsed) else return (Inr ()))"

definition mysqlRepo_RestoreCoupon :: "u64 \<Rightarrow> unit io" where
  "mysqlRepo_RestoreCoupon couponID =
     bindE (exec_on coupon_table put_coupons (\<lambda>c. cpr_ID c = couponID) (shift_remain 1) touch_coupon)
       (\<lambda>n. if n = 0 then return (Inl (Plain (utf8 [230, 129, 162, 229, 164, 141, 228, 188, 152, 230, 131, 160, 229, 136, 184, 229, 164, 177, 232, 180, 165]))) else return (Inr ()))"

definition template_match :: "CouponTemplate \<Rightarrow> CouponRow \<Rightarrow> bool" where
  "template_match t c \<longleftrightarrow> cpr_Name c = ct_Name t \<and> cpr_Type c = ct_Type t \<and> cpr_Value c = ct_Value t
     \<and> cpr_MinAmount c = ct_MinAmount t"

text \<open>The row built for a new template, as the code holds it and as the table stores it.\<close>

definition template_row :: "env \<Rightarrow> Time \<Rightarrow> CouponTemplate \<Rightarrow> u64 \<Rightarrow> CouponRow" where
  "template_row E now t i = \<lparr>cpr_ID = i, cpr_Name = ct_Name t, cpr_Type = ct_Type t, cpr_Value = ct_Value t,
     cpr_MinAmount = ct_MinAmount t, cpr_TotalCount = 100000, cpr_RemainCount = 100000, cpr_UserLimit = Some 1,
     cpr_StartTime = now - hour, cpr_EndTime = add_date E 10 0 0 now, cpr_Version = 0,
     cpr_CreateTime = None, cpr_UpdateTime = None\<rparr>"

definition stored_coupon :: "CouponRow \<Rightarrow> Time \<Rightarrow> CouponRow" where
  "stored_coupon c t = c\<lparr>cpr_StartTime := datetime (cpr_StartTime c), cpr_EndTime := datetime (cpr_EndTime c),
     cpr_CreateTime := Some t, cpr_UpdateTime := Some t\<rparr>"

text \<open>The table has no unique key besides the primary one, so no insert clashes.\<close>

definition mysqlRepo_getOrCreateCouponTemplate :: "env \<Rightarrow> CouponTemplate \<Rightarrow> CouponRow io" where
  "mysqlRepo_getOrCreateCouponTemplate E t = do {
     now \<leftarrow> Now;
     found \<leftarrow> first_on coupon_table (template_match t);
     case found of
       Inr c \<Rightarrow> return (Inr c)
     | Inl e \<Rightarrow>
         if \<not> errors_is e RecordNotFound then return (Inl e)
         else do {
           created \<leftarrow> insert_on coupon_table put_coupons (\<lambda>_ _. False)
                        (\<lambda>i ts. stored_coupon (template_row E now t i) ts);
           case created of
             Inl e \<Rightarrow> if is_duplicate e then first_on coupon_table (template_match t) else return (Inl e)
           | Inr i \<Rightarrow> return (Inr (template_row E now t i)) } }"

section \<open>User coupons\<close>

definition touch_user_coupon :: "Time \<Rightarrow> UserCouponRow \<Rightarrow> UserCouponRow" where
  "touch_user_coupon t r = r\<lparr>ucr_UpdateTime := Some t\<rparr>"

definition sourceTypeByScene :: "string \<Rightarrow> string" where
  "sourceTypeByScene scene =
     (if scene = CouponSceneInviteNew then ''INVITE''
      else if scene = CouponSceneAfterSaleCompensation then ''AFTER_SALE''
      else ''REVIEW'')"

definition toBizUserCoupon :: "env \<Rightarrow> Time \<Rightarrow> UserCouponRow \<Rightarrow> UserCoupon" where
  "toBizUserCoupon E now r =
     \<lparr>ucp_ID = ucr_ID r, ucp_UserID = ucr_UserID r, ucp_CouponID = ucr_CouponID r,
      ucp_Name = (case ucr_Coupon r of Some c \<Rightarrow> cpr_Name c | None \<Rightarrow> []),
      ucp_Type = (case ucr_Coupon r of Some c \<Rightarrow> cpr_Type c | None \<Rightarrow> 0),
      ucp_Value = (case ucr_Coupon r of Some c \<Rightarrow> cpr_Value c | None \<Rightarrow> 0),
      ucp_MinAmount = (case ucr_Coupon r of Some c \<Rightarrow> cpr_MinAmount c | None \<Rightarrow> 0),
      ucp_Scene = ucr_Scene r, ucp_SourceType = ucr_SourceType r, ucp_SourceID = ucr_SourceID r,
      ucp_IdempotencyKey = ucr_IdempotencyKey r,
      ucp_Status = (if ucr_Status r = UserCouponStatusUnused \<and> ucr_ExpireTime r < now
                    then UserCouponStatusExpired else ucr_Status r),
      ucp_ReceivedTime = format_time E (ucr_ReceivedTime r), ucp_UsedTime = time_text E (ucr_UsedTime r),
      ucp_ExpireTime = format_time E (ucr_ExpireTime r),
      ucp_Version = (case ucr_Coupon r of Some c \<Rightarrow> cpr_Version c | None \<Rightarrow> 0)\<rparr>"

text \<open>\<open>Preload("Coupon")\<close> reads the templates of the rows found in a second query.\<close>

definition preload_coupon :: "UserCouponRow list \<Rightarrow> (UserCouponRow list) io" where
  "preload_coupon rows = (if rows = [] then return (Inr [])
     else bindE (find_on coupon_table (\<lambda>c. cpr_ID c \<in> set (map ucr_CouponID rows))) (\<lambda>cs.
       return (Inr (map (\<lambda>r. r\<lparr>ucr_Coupon := sql_first (\<lambda>c. cpr_ID c = ucr_CouponID r) cs\<rparr>) rows))))"

definition first_user_coupon :: "(UserCouponRow \<Rightarrow> bool) \<Rightarrow> UserCouponRow io" where
  "first_user_coupon p = bindE (first_on user_coupon_table p) (\<lambda>r.
     bindE (preload_coupon [r]) (\<lambda>rs. return (Inr (hd rs))))"

text \<open>The user coupon built for a grant, as the code holds it and as the table stores it.\<close>

definition granted_row ::
    "env \<Rightarrow> Time \<Rightarrow> GrantCouponRequest \<Rightarrow> CouponTemplate \<Rightarrow> CouponRow \<Rightarrow> u64 \<Rightarrow> UserCouponRow" where
  "granted_row E now req t c i = \<lparr>ucr_ID = i, ucr_UserID = gcr_UserID req, ucr_CouponID = cpr_ID c,
     ucr_Scene = gcr_Scene req, ucr_SourceType = sourceTypeByScene (gcr_Scene req),
     ucr_SourceID = (if gcr_Scene req = CouponSceneInviteNew \<and> gcr_ReviewID req = 0
                     then show_word (gcr_UserID req) else show_word (gcr_ReviewID req)),
     ucr_IdempotencyKey = gcr_IdempotencyKey req, ucr_Status = UserCouponStatusUnused,
     ucr_ReceivedTime = now, ucr_UsedTime = None, ucr_ExpireTime = add_date E 0 0 (ct_ValidDays t) now,
     ucr_CreateTime = None, ucr_UpdateTime = None, ucr_Coupon = None\<rparr>"

definition stored_user_coupon :: "UserCouponRow \<Rightarrow> Time \<Rightarrow> UserCouponRow" where
  "stored_user_coupon r t = r\<lparr>ucr_ReceivedTime := datetime (ucr_ReceivedTime r),
     ucr_ExpireTime := datetime (ucr_ExpireTime r), ucr_CreateTime := Some t, ucr_UpdateTime := Some t\<rparr>"

definition same_idempotency :: "UserCouponRow \<Rightarrow> UserCouponRow \<Rightarrow> bool" where
  "same_idempotency r q \<longleftrightarrow> ucr_IdempotencyKey r = ucr_IdempotencyKey q"

definition mysqlRepo_GrantUserCoupon ::
    "env \<Rightarrow> GrantCouponRequest \<Rightarrow> CouponTemplate \<Rightarrow> (UserCoupon \<times> bool) io" where
  "mysqlRepo_GrantUserCoupon E req t = do {
     now \<leftarrow> Now;
     existing \<leftarrow> first_user_coupon (\<lambda>r. ucr_IdempotencyKey r = gcr_IdempotencyKey req);
     case existing of
       Inr r \<Rightarrow> return (Inr (toBizUserCoupon E now r, True))
     | Inl e \<Rightarrow>
         if \<not> errors_is e RecordNotFound then return (Inl e)
         else bindE (mysqlRepo_getOrCreateCouponTemplate E t) (\<lambda>coupon. do {
           created \<leftarrow> insert_on user_coupon_table put_user_coupons same_idempotency
                        (\<lambda>i ts. stored_user_coupon (granted_row E now req t coupon i) ts);
           case created of
             Inl e \<Rightarrow>
               if is_duplicate e
               then bindE (first_user_coupon (\<lambda>r. ucr_IdempotencyKey r = gcr_IdempotencyKey req))
                      (\<lambda>r. return (Inr (toBizUserCoupon E now r, True)))
               else return (Inl e)
           | Inr i \<Rightarrow>
               bindE (exec_on coupon_table put_coupons (\<lambda>c. cpr_ID c = cpr_ID coupon \<and> cpr_RemainCount c > 0)
                        (shift_remain (- 1)) touch_coupon) (\<lambda>n.
               if n = 0 then return (Inl ErrCouponInvalid)
               else return (Inr (toBizUserCoupon E now
                      ((granted_row E now req t coupon i)\<lparr>ucr_Coupon := Some coupon\<rparr>), False))) }) }"

definition mysqlRepo_GetUserCouponForUse :: "env \<Rightarrow> u64 \<Rightarrow> u64 \<Rightarrow> UserCoupon io" where
  "mysqlRepo_GetUserCouponForUse E userCouponID userID = do {
     now \<leftarrow> Now;
     bindE (on_error (not_found_as ErrCouponInvalid)
              (first_user_coupon (\<lambda>r. ucr_ID r = userCouponID \<and> ucr_UserID r = userID
                 \<and> ucr_Status r = UserCouponStatusUnused \<and> now \<le> ucr_ExpireTime r)))
       (\<lambda>r. return (Inr (toBizUserCoupon E now r))) }"

definition mysqlRepo_UseUserCoupon :: "u64 \<Rightarrow> unit io" where
  "mysqlRepo_UseUserCoupon userCouponID = do {
     now \<leftarrow> Now;
     bindE (exec_on user_coupon_table put_user_coupons
              (\<lambda>r. ucr_ID r = userCouponID \<and> ucr_Status r = UserCouponStatusUnused \<and> now \<le> ucr_ExpireTime r)
              (\<lambda>r. Some (r\<lparr>ucr_Status := UserCouponStatusUsed, ucr_UsedTime := Some (datetime now)\<rparr>))
              touch_user_coupon)
       (\<lambda>n. if n = 0 then return (Inl ErrCouponUsed) else return (Inr ())) }"

definition mysqlRepo_RestoreUserCoupon :: "u64 \<Rightarrow> unit io" where
  "mysqlRepo_RestoreUserCoupon userCouponID =
     bindE (exec_on user_coupon_table put_user_coupons
              (\<lambda>r. ucr_ID r = userCouponID \<and> ucr_Status r = UserCouponStatusUsed)
              (\<lambda>r. Some (r\<lparr>ucr_Status := UserCouponStatusUnused, ucr_UsedTime := None\<rparr>))
              touch_user_coupon)
       (\<lambda>_. return (Inr ()))"

definition list_filter :: "int \<Rightarrow> Time \<Rightarrow> UserCouponRow \<Rightarrow> bool" where
  "list_filter status now r =
     (if status = UserCouponStatusUnused then ucr_Status r = UserCouponStatusUnused \<and> now \<le> ucr_ExpireTime r
      else if status = UserCouponStatusUsed then ucr_Status r = UserCouponStatusUsed
      else if status = UserCouponStatusExpired then ucr_Status r = UserCouponStatusExpired \<or> ucr_ExpireTime r < now
      else True)"

definition mysqlRepo_ListUserCoupons ::
    "env \<Rightarrow> u64 \<Rightarrow> int \<Rightarrow> int \<Rightarrow> int \<Rightarrow> (UserCoupon list \<times> int) io" where
  "mysqlRepo_ListUserCoupons E userID status page pageSize = do {
     now \<leftarrow> Now;
     let wanted = (\<lambda>r. ucr_UserID r = userID \<and> list_filter status now r);
     bindE (count_on user_coupon_table wanted) (\<lambda>total.
     bindE (query (\<lambda>w. Inr (page_of (wrap32 (wrap32 (page - 1) * pageSize)) pageSize
                         (rev (filter wanted (user_coupon_table w)))))) (\<lambda>rows.
     bindE (preload_coupon rows) (\<lambda>rows.
     return (Inr (map (toBizUserCoupon E now) rows, total))))) }"

end
