(* ===== verification/Mysql_Pay.thy ===== *)
theory Mysql_Pay
  imports Mysql_Coupons
begin

text \<open>
  The payment and dead-letter methods of \<open>mysqlRepo\<close>; they run on the payment database, which
  no transaction covers.
\<close>

section \<open>Payments\<close>

definition pay_clash :: "PayInfoRow \<Rightarrow> PayInfoRow \<Rightarrow> bool" where
  "pay_clash r q \<longleftrightarrow> pir_OrderNo r = pir_OrderNo q \<or> pir_PlatformNumber r = pir_PlatformNumber q"

definition pay_row :: "PayInfo \<Rightarrow> u64 \<Rightarrow> Time \<Rightarrow> PayInfoRow" where
  "pay_row p i t = \<lparr>pir_ID = i, pir_OrderNo = pay_OrderNo p, pir_UserID = pay_UserID p,
     pir_PayPlatform = pay_PayPlatform p, pir_PlatformNumber = pay_PlatformNumber p,
     pir_PlatformStatus = pay_PlatformStatus p, pir_PayAmount = pay_PayAmount p,
     pir_PayTime = map_option datetime (pay_PayTime p), pir_CreateTime = Some t, pir_UpdateTime = Some t\<rparr>"

definition mysqlRepo_CreatePayInfo :: "PayInfo \<Rightarrow> unit io" where
  "mysqlRepo_CreatePayInfo p = do {
     r \<leftarrow> insert_on pay_infos put_pay_infos pay_clash (pay_row p);
     case r of
       Inl e \<Rightarrow> if is_duplicate e then return (Inl ErrPaymentExists) else return (Inl e)
     | Inr _ \<Rightarrow> return (Inr ()) }"

definition pay_info :: "PayInfoRow \<Rightarrow> PayInfo" where
  "pay_info r = \<lparr>pay_OrderNo = pir_OrderNo r, pay_UserID = pir_UserID r, pay_PayPlatform = pir_PayPlatform r,
     pay_PlatformNumber = pir_PlatformNumber r, pay_PlatformStatus = pir_PlatformStatus r,
     pay_PayAmount = pir_PayAmount r, pay_PayTime = pir_PayTime r\<rparr>"

definition mysqlRepo_GetPayInfoByPlatformNumber :: "string \<Rightarrow> PayInfo io" where
  "mysqlRepo_GetPayInfoByPlatformNumber platformNumber =
     bindE (on_error (not_found_as ErrPayInfoNotFound) (first_on pay_infos (\<lambda>r. pir_PlatformNumber r = platformNumber)))
       (\<lambda>r. return (Inr (pay_info r)))"

definition mysqlRepo_GetPayInfoByOrderNo :: "string \<Rightarrow> PayInfo io" where
  "mysqlRepo_GetPayInfoByOrderNo orderNo =
     bindE (on_error (not_found_as ErrPayInfoNotFound) (first_on pay_infos (\<lambda>r. pir_OrderNo r = orderNo)))
       (\<lambda>r. return (Inr (pay_info r)))"

definition touch_pay :: "Time \<Rightarrow> PayInfoRow \<Rightarrow> PayInfoRow" where
  "touch_pay t r = r\<lparr>pir_UpdateTime := Some t\<rparr>"

definition set_pay :: "string \<Rightarrow> Time option \<Rightarrow> PayInfoRow \<Rightarrow> PayInfoRow" where
  "set_pay status payTime r =
     (let r = r\<lparr>pir_PlatformStatus := status\<rparr>
      in case payTime of None \<Rightarrow> r | Some t \<Rightarrow> r\<lparr>pir_PayTime := Some (datetime t)\<rparr>)"

definition mysqlRepo_UpdatePayInfoStatus :: "string \<Rightarrow> string \<Rightarrow> Time option \<Rightarrow> unit io" where
  "mysqlRepo_UpdatePayInfoStatus platformNumber status payTime =
     bindE (exec_on pay_infos put_pay_infos (\<lambda>r. pir_PlatformNumber r = platformNumber)
              (\<lambda>r. Some (set_pay status payTime r)) touch_pay)
       (\<lambda>n. if n = 0 then return (Inl ErrPayInfoNotFound) else return (Inr ()))"

section \<open>Dead letters\<close>

definition dead_letter_row :: "DeadLetterMessage \<Rightarrow> u64 \<Rightarrow> Time \<Rightarrow> MqDeadLetterMessageRow" where
  "dead_letter_row m i t = \<lparr>dlr_ID = i, dlr_EventID = dl_EventID m, dlr_Topic = dl_Topic m,
     dlr_PartitionID = dl_Partition m, dlr_OffsetID = dl_Offset m, dlr_OrderNo = dl_OrderNo m,
     dlr_RequestID = dl_RequestID m, dlr_TraceID = dl_TraceID m, dlr_RetryCount = wrap32 (dl_RetryCount m),
     dlr_ErrorMessage = dl_ErrorMessage m, dlr_RawPayload = dl_RawPayload m, dlr_Status = Some (dl_Status m),
     dlr_CreateTime = Some t, dlr_UpdateTime = Some t\<rparr>"

definition same_event :: "MqDeadLetterMessageRow \<Rightarrow> MqDeadLetterMessageRow \<Rightarrow> bool" where
  "same_event r q \<longleftrightarrow> dlr_EventID r = dlr_EventID q"

definition mysqlRepo_CreateDeadLetterMessage :: "DeadLetterMessage \<Rightarrow> unit io" where
  "mysqlRepo_CreateDeadLetterMessage m = do {
     r \<leftarrow> insert_on dead_letters put_dead_letters same_event (dead_letter_row m);
     case r of
       Inl e \<Rightarrow> if is_duplicate e then return (Inr ()) else return (Inl e)
     | Inr _ \<Rightarrow> return (Inr ()) }"

text \<open>The zero \<open>time.Time\<close>, year 1, for a missing time.\<close>

definition zero_time :: Time where
  "zero_time = - 62135596800 * second"

definition dead_letter :: "MqDeadLetterMessageRow \<Rightarrow> DeadLetterMessage" where
  "dead_letter r = \<lparr>dl_ID = dlr_ID r, dl_EventID = dlr_EventID r, dl_Topic = dlr_Topic r,
     dl_Partition = dlr_PartitionID r, dl_Offset = dlr_OffsetID r, dl_OrderNo = dlr_OrderNo r,
     dl_RequestID = dlr_RequestID r, dl_TraceID = dlr_TraceID r, dl_RetryCount = dlr_RetryCount r,
     dl_ErrorMessage = dlr_ErrorMessage r, dl_RawPayload = dlr_RawPayload r,
     dl_Status = (case dlr_Status r of Some s \<Rightarrow> s | None \<Rightarrow> []),
     dl_CreateTime = (case dlr_CreateTime r of Some t \<Rightarrow> t | None \<Rightarrow> zero_time),
     dl_UpdateTime = (case dlr_UpdateTime r of Some t \<Rightarrow> t | None \<Rightarrow> zero_time)\<rparr>"

definition mysqlRepo_GetDeadLetterMessageByEventID :: "string \<Rightarrow> DeadLetterMessage io" where
  "mysqlRepo_GetDeadLetterMessageByEventID eventID =
     bindE (on_error (not_found_as ErrDeadLetterNotFound) (first_on dead_letters (\<lambda>r. dlr_EventID r = eventID)))
       (\<lambda>r. return (Inr (dead_letter r)))"

definition mysqlRepo_ListDeadLetterMessages :: "string \<Rightarrow> int \<Rightarrow> (DeadLetterMessage list) io" where
  "mysqlRepo_ListDeadLetterMessages status limit =
     bindE (query (\<lambda>w.
         let rows = filter (\<lambda>r. status \<noteq> [] \<longrightarrow> dlr_Status r = Some status) (rev (dead_letters w))
         in Inr (if 0 < limit then take (nat limit) rows else rows)))
       (\<lambda>rows. return (Inr (map dead_letter rows)))"

definition touch_dead_letter :: "Time \<Rightarrow> MqDeadLetterMessageRow \<Rightarrow> MqDeadLetterMessageRow" where
  "touch_dead_letter t r = r\<lparr>dlr_UpdateTime := Some t\<rparr>"

definition mysqlRepo_MarkDeadLetterReplayed :: "string \<Rightarrow> unit io" where
  "mysqlRepo_MarkDeadLetterReplayed eventID =
     bindE (exec_on dead_letters put_dead_letters (\<lambda>r. dlr_EventID r = eventID)
              (\<lambda>r. Some (r\<lparr>dlr_Status := Some ''REPLAYED''\<rparr>)) touch_dead_letter)
       (\<lambda>n. if n = 0 then return (Inl ErrDeadLetterNotFound) else return (Inr ()))"

end
