(* ===== verification/Mysql_Repo.thy ===== *)
theory Mysql_Repo
  imports Mysql_Pay
begin

text \<open>
  \<open>NewMysqlRepo\<close>: the MySQL implementation of \<open>SeckillRepo\<close>, and the laws it keeps.
\<close>

definition mysqlRepo :: "env \<Rightarrow> SeckillRepo" where
  "mysqlRepo E = \<lparr>
     repo_ListSeckillProducts = mysqlRepo_ListSeckillProducts,
     repo_GetSeckillProductDetail = mysqlRepo_GetSeckillProductDetail E,
     repo_GetCurrentActivity = mysqlRepo_GetCurrentActivity E,
     repo_UpdateSeckillActivity = mysqlRepo_UpdateSeckillActivity E,
     repo_UpdateSeckillProduct = mysqlRepo_UpdateSeckillProduct,
     repo_CheckUserBuyRecord = mysqlRepo_CheckUserBuyRecord,
     repo_GetUserAddress = mysqlRepo_GetUserAddress,
     repo_LockStock = mysqlRepo_LockStock,
     repo_DecreaseStock = mysqlRepo_DecreaseStock,
     repo_RestoreStock = mysqlRepo_RestoreStock,
     repo_CreateOrder = mysqlRepo_CreateOrder,
     repo_CreateOrderShipping = mysqlRepo_CreateOrderShipping,
     repo_GetOrder = mysqlRepo_GetOrder E,
     repo_GetOrderByRequestID = mysqlRepo_GetOrderByRequestID E,
     repo_GetOrderForUpdate = mysqlRepo_GetOrderForUpdate E,
     repo_UpdateOrderStatus = mysqlRepo_UpdateOrderStatus,
     repo_GetPendingOrders = mysqlRepo_GetPendingOrders E,
     repo_CreateDeadLetterMessage = mysqlRepo_CreateDeadLetterMessage,
     repo_ListDeadLetterMessages = mysqlRepo_ListDeadLetterMessages,
     repo_GetDeadLetterMessageByEventID = mysqlRepo_GetDeadLetterMessageByEventID,
     repo_MarkDeadLetterReplayed = mysqlRepo_MarkDeadLetterReplayed,
     repo_CreatePayInfo = mysqlRepo_CreatePayInfo,
     repo_GetCoupon = mysqlRepo_GetCoupon,
     repo_UseCoupon = mysqlRepo_UseCoupon,
     repo_RestoreCoupon = mysqlRepo_RestoreCoupon,
     repo_GrantUserCoupon = mysqlRepo_GrantUserCoupon E,
     repo_GetUserCouponForUse = mysqlRepo_GetUserCouponForUse E,
     repo_UseUserCoupon = mysqlRepo_UseUserCoupon,
     repo_RestoreUserCoupon = mysqlRepo_RestoreUserCoupon,
     repo_ListUserCoupons = mysqlRepo_ListUserCoupons E,
     repo_GetPayInfoByPlatformNumber = mysqlRepo_GetPayInfoByPlatformNumber,
     repo_GetPayInfoByOrderNo = mysqlRepo_GetPayInfoByOrderNo,
     repo_UpdatePayInfoStatus = mysqlRepo_UpdatePayInfoStatus\<rparr>"

section \<open>Rows found by a key\<close>

lemma find_distinct:
  "distinct (map k t) \<Longrightarrow> r \<in> set t \<Longrightarrow> sql_first (\<lambda>x. k x = k r) t = Some r"
  unfolding sql_first_def by (induction t) auto

lemma first_update:
  assumes "\<And>r. k (g r) = k r"
  shows "sql_first (\<lambda>x. k x = a) (sql_update p g t) =
     map_option (\<lambda>r. if p r then g r else r) (sql_first (\<lambda>x. k x = a) t)"
  unfolding sql_first_def sql_update_def by (induction t) (auto simp: assms)

lemma sum_update:
  fixes h :: "'r \<Rightarrow> int"
  assumes "distinct (map k t)" and "r \<in> set t" and "p r" and "\<And>x. p x \<Longrightarrow> k x = k r"
  shows "sum_list (map h (sql_update p g t)) = sum_list (map h t) - h r + h (g r)"
  using assms(1,2)
proof (induction t)
  case (Cons x t)
  show ?case
  proof (cases "x = r")
    case True
    then have "\<And>y. y \<in> set t \<Longrightarrow> \<not> p y" using Cons.prems(1) assms(4) by (metis image_eqI list.simps(9) distinct.simps(2) list.set_map)
    then have "map (\<lambda>y. if p y then g y else y) t = t" by (intro map_idI) simp
    then show ?thesis using True assms(3) by (simp add: sql_update_def)
  next
    case False
    moreover have "\<not> p x" using False Cons.prems assms(4) by force
    ultimately show ?thesis using Cons by (simp add: sql_update_def)
  qed
qed simp

lemma sum_update_same:
  fixes h :: "'r \<Rightarrow> int"
  shows "(\<And>r. r \<in> set t \<Longrightarrow> p r \<Longrightarrow> h (g r) = h r) \<Longrightarrow> sum_list (map h (sql_update p g t)) = sum_list (map h t)"
  unfolding sql_update_def by (induction t) auto

lemma affected_row:
  assumes "sql_exec p f touch t = Inr (t', n)" and "n \<noteq> 0"
  obtains r where "r \<in> set t" and "p r" and "f r \<noteq> Some r"
  using assms by (auto simp: sql_exec_Inr filter_empty_conv)

section \<open>The ledger of the core database\<close>

text \<open>Primary and unique keys of the tables the order flow writes.\<close>

definition wf_core :: "core_db \<Rightarrow> bool" where
  "wf_core c \<longleftrightarrow> distinct (map sku_ID (skus c)) \<and> distinct (map orw_OrderNo (orders c))
     \<and> distinct (map orw_RequestID (orders c)) \<and> distinct (map (\<lambda>r. (orw_UserID r, orw_ActivityID r)) (orders c))
     \<and> distinct (map shp_OrderNo (shippings c))"

definition stock_of_sku :: "u64 \<Rightarrow> core_db \<Rightarrow> int" where
  "stock_of_sku s c = (case sql_first (\<lambda>r. sku_ID r = s) (skus c) of None \<Rightarrow> 0 | Some r \<Rightarrow> uint (sku_AvailableStock r))"

definition held_by :: "u64 \<Rightarrow> SeckillOrderRow \<Rightarrow> int" where
  "held_by s r = (if orw_SkuID r = s \<and> orw_Status r \<in> {0, 1} then quantity_of r else 0)"

definition held_of_sku :: "u64 \<Rightarrow> core_db \<Rightarrow> int" where
  "held_of_sku s c = sum_list (map (held_by s) (orders c))"

definition order_view_of :: "string \<Rightarrow> core_db \<Rightarrow> (u64 \<times> int \<times> int) option" where
  "order_view_of n c = map_option (\<lambda>r. (orw_SkuID r, quantity_of r, sint (orw_Status r)))
     (sql_first (\<lambda>r. orw_OrderNo r = n) (orders c))"

lemma add_u32_Some: "add_u32 u d = Some v \<Longrightarrow> uint v = uint u + d"
  by (auto simp: add_u32_def uint_word_of_int simp del: of_int_add split: if_splits)

lemma shift_stock_Some:
  "shift_stock d r = Some r' \<Longrightarrow> sku_ID r' = sku_ID r \<and> uint (sku_AvailableStock r') = uint (sku_AvailableStock r) + d"
  by (auto simp: shift_stock_def add_u32_Some split: option.splits)

lemma set_row_id:
  assumes "\<And>r r'. f r = Some r' \<Longrightarrow> k r' = k r" and "\<And>r. k (touch r) = k r"
  shows "k (set_row f touch r) = k r"
  by (cases "f r") (simp_all add: set_row_def assms(2), metis assms(1))

lemma set_row_total:
  assumes "\<And>r. k (touch r) = k r"
  shows "k (set_row (\<lambda>r. Some (g r)) touch r) = k (g r)"
  by (cases "g r = r") (simp_all add: set_row_def assms)

lemma run_Now_bind: "run_state (State_Monad.bind Now k) w = run_state (k (clock w)) w"
  by simp

lemma stock_shift:
  assumes wf: "wf_core (core w)"
    and run: "run_state (exec_on sku_table put_skus p (shift_stock d) touch_sku) w = (Inr n, w')"
    and "n \<noteq> 0" and p: "\<And>r. p r \<Longrightarrow> sku_ID r = s"
  shows "wf_core (core w') \<and> stock_of_sku t (core w') = stock_of_sku t (core w) + (if t = s then d else 0)
     \<and> held_of_sku t (core w') = held_of_sku t (core w)"
proof -
  obtain rs tab where ex: "sql_exec p (shift_stock d) (touch_sku (current_timestamp w)) (skus (core w)) = Inr (tab, n)"
    and w': "w' = put_skus tab (w\<lparr>replies := rs\<rparr>)"
    using run by (rule exec_on_Inr) simp
  obtain r where r: "r \<in> set (skus (core w))" "p r" using affected_row [OF ex assms(3)] by metis
  let ?g = "set_row (shift_stock d) (touch_sku (current_timestamp w))"
  have tab: "tab = sql_update p ?g (skus (core w))" and some: "\<And>x. x \<in> set (skus (core w)) \<Longrightarrow> p x \<Longrightarrow> shift_stock d x \<noteq> None"
    using ex by (auto simp: sql_exec_Inr)
  have id: "sku_ID (?g x) = sku_ID x" for x
    by (rule set_row_id) (auto simp: shift_stock_Some touch_sku_def)
  have av: "uint (sku_AvailableStock (?g x)) = uint (sku_AvailableStock x) + d" if x: "x \<in> set (skus (core w))" "p x" for x
  proof -
    obtain x' where "shift_stock d x = Some x'" using some [OF x] by auto
    then show ?thesis using shift_stock_Some [of d x x'] by (auto simp: set_row_def touch_sku_def)
  qed
  have "sql_first (\<lambda>x. sku_ID x = s) (skus (core w)) = Some r"
    using find_distinct [of sku_ID "skus (core w)" r] wf r p by (simp add: wf_core_def)
  then have "stock_of_sku s (core w') = stock_of_sku s (core w) + d"
    using av r by (simp add: w' put_skus_def tab stock_of_sku_def first_update [where k = sku_ID, OF id])
  moreover have "stock_of_sku t (core w') = stock_of_sku t (core w)" if "t \<noteq> s"
  proof (cases "sql_first (\<lambda>x. sku_ID x = t) (skus (core w))")
    case None
    then show ?thesis by (simp add: w' put_skus_def tab stock_of_sku_def first_update [where k = sku_ID, OF id])
  next
    case (Some q)
    then have "\<not> p q" using sql_first_Some [OF Some] p that by blast
    then show ?thesis using Some by (simp add: w' put_skus_def tab stock_of_sku_def first_update [where k = sku_ID, OF id])
  qed
  moreover have "wf_core (core w')"
    using wf by (simp add: w' put_skus_def tab wf_core_def map_sql_update id)
  ultimately show ?thesis by (simp add: w' put_skus_def held_of_sku_def)
qed

lemma DecreaseStock_effect:
  assumes "wf_core (core w)" and "run_state (mysqlRepo_DecreaseStock s q v) w = (Inr (), w')"
  shows "wf_core (core w') \<and> stock_of_sku t (core w') = stock_of_sku t (core w) - (if t = s then uint q else 0)
     \<and> held_of_sku t (core w') = held_of_sku t (core w)"
  using assms(2) unfolding mysqlRepo_DecreaseStock_def
  by (elim bindE_Inr) (auto split: if_splits dest!: stock_shift [OF assms(1), where s = s and t = t])

lemma RestoreStock_effect:
  assumes "wf_core (core w)" and "run_state (mysqlRepo_RestoreStock s q) w = (Inr (), w')"
  shows "wf_core (core w') \<and> stock_of_sku t (core w') = stock_of_sku t (core w) + (if t = s then uint q else 0)
     \<and> held_of_sku t (core w') = held_of_sku t (core w)"
  using assms(2) unfolding mysqlRepo_RestoreStock_def
  by (elim bindE_Inr) (auto split: if_splits dest!: stock_shift [OF assms(1), where s = s and t = t])


subsection \<open>Orders\<close>

lemma CreateOrder_effect:
  assumes wf: "wf_core (core w)" and run: "run_state (mysqlRepo_CreateOrder ord) w = (Inr n, w')"
  shows "wf_core (core w') \<and> n = ord_OrderNo ord \<and> stock_of_sku t (core w') = stock_of_sku t (core w)
     \<and> held_of_sku t (core w') = held_of_sku t (core w) + (if t = ord_SkuID ord then uint (u32_of (ord_Quantity ord)) else 0)"
proof -
  obtain i where ins: "run_state (insert_on order_table put_orders order_clash (order_row ord)) w = (Inr i, w')"
    and n: "n = ord_OrderNo ord"
    using run by (auto simp: mysqlRepo_CreateOrder_def split: prod.splits sum.splits if_splits)
  from ins obtain rs where fresh: "\<not> sql_clash order_clash (order_row ord i (current_timestamp w)) (orders (core w))"
    and w': "w' = put_orders (orders (core w) @ [order_row ord i (current_timestamp w)])
        (w\<lparr>replies := rs, auto_id := Suc (auto_id w)\<rparr>)"
    by (rule insert_on_Inr) simp
  have "wf_core (core w')"
    using wf fresh by (auto simp: w' put_orders_def wf_core_def sql_clash_def list_ex_iff order_clash_def)
  then show ?thesis
    by (simp add: w' put_orders_def n stock_of_sku_def held_of_sku_def held_by_def order_row_def quantity_of_def)
qed

lemma CreateOrderShipping_effect:
  assumes wf: "wf_core (core w)" and run: "run_state (mysqlRepo_CreateOrderShipping n a) w = (y, w')"
  shows "wf_core (core w') \<and> stock_of_sku t (core w') = stock_of_sku t (core w)
     \<and> held_of_sku t (core w') = held_of_sku t (core w)"
proof -
  obtain q where "run_state (insert_on shipping_table put_shippings (\<lambda>r q. shp_OrderNo r = shp_OrderNo q)
      (shipping_row n a)) w = (q, w')"
    using run unfolding mysqlRepo_CreateOrderShipping_def by (elim bindE_cases) auto
  then consider (inserted) rs i where "w' = put_shippings (shippings (core w) @ [shipping_row n a i (current_timestamp w)])
        (w\<lparr>replies := rs, auto_id := Suc (auto_id w)\<rparr>)"
      and "\<not> sql_clash (\<lambda>r q. shp_OrderNo r = shp_OrderNo q) (shipping_row n a i (current_timestamp w)) (shippings (core w))"
    | (failed) "core w' = core w"
    by (rule insert_on_cases) auto
  then show ?thesis
  proof cases
    case inserted
    then have "wf_core (core w')"
      using wf by (auto simp: put_shippings_def wf_core_def sql_clash_def list_ex_iff)
    with inserted show ?thesis by (simp add: put_shippings_def stock_of_sku_def held_of_sku_def)
  next
    case failed
    then show ?thesis using wf by simp
  qed
qed

lemma set_status_keys:
  "orw_OrderNo (set_row (\<lambda>r. Some (set_status st now r)) (touch_order ts) r) = orw_OrderNo r"
  "orw_RequestID (set_row (\<lambda>r. Some (set_status st now r)) (touch_order ts) r) = orw_RequestID r"
  "orw_UserID (set_row (\<lambda>r. Some (set_status st now r)) (touch_order ts) r) = orw_UserID r"
  "orw_ActivityID (set_row (\<lambda>r. Some (set_status st now r)) (touch_order ts) r) = orw_ActivityID r"
  "orw_SkuID (set_row (\<lambda>r. Some (set_status st now r)) (touch_order ts) r) = orw_SkuID r"
  "orw_Quantity (set_row (\<lambda>r. Some (set_status st now r)) (touch_order ts) r) = orw_Quantity r"
  "orw_Status (set_row (\<lambda>r. Some (set_status st now r)) (touch_order ts) r) = u32_of st"
  by (subst set_row_total; simp add: touch_order_def set_status_def Let_def)+

lemma UpdateOrderStatus_run:
  assumes "run_state (mysqlRepo_UpdateOrderStatus n from st) w = (Inr (), w')"
  obtains rs r where
    "w' = put_orders (sql_update (\<lambda>o'. orw_OrderNo o' = n \<and> orw_Status o' = u32_of from)
        (set_row (\<lambda>r. Some (set_status st (clock w) r)) (touch_order (current_timestamp w))) (orders (core w)))
        (w\<lparr>replies := rs\<rparr>)"
    and "r \<in> set (orders (core w))" and "orw_OrderNo r = n" and "orw_Status r = u32_of from"
proof -
  let ?p = "\<lambda>o'. orw_OrderNo o' = n \<and> orw_Status o' = u32_of from"
  let ?f = "\<lambda>r. Some (set_status st (clock w) r)"
  obtain m where run: "run_state (exec_on order_table put_orders ?p ?f touch_order) w = (Inr m, w')" and m: "m \<noteq> 0"
    using assms unfolding mysqlRepo_UpdateOrderStatus_def run_Now_bind by (elim bindE_Inr) (auto split: if_splits)
  obtain rs tab where ex: "sql_exec ?p ?f (touch_order (current_timestamp w)) (orders (core w)) = Inr (tab, m)"
    and w': "w' = put_orders tab (w\<lparr>replies := rs\<rparr>)"
    using run by (rule exec_on_Inr) simp
  obtain r where "r \<in> set (orders (core w))" "?p r" using affected_row [OF ex m] by metis
  then show ?thesis using that w' ex by (auto simp: sql_exec_Inr)
qed

lemma UpdateOrderStatus_keys:
  assumes "wf_core (core w)" and "run_state (mysqlRepo_UpdateOrderStatus n from st) w = (Inr (), w')"
  shows "wf_core (core w') \<and> stock_of_sku t (core w') = stock_of_sku t (core w)"
  using assms(2)
  by (rule UpdateOrderStatus_run)
    (use assms(1) in \<open>simp add: put_orders_def wf_core_def stock_of_sku_def map_sql_update set_status_keys\<close>)

lemma order_view_Some:
  assumes "wf_core c" and "r \<in> set (orders c)" and "orw_OrderNo r = n"
  shows "order_view_of n c = Some (orw_SkuID r, quantity_of r, sint (orw_Status r))"
  using find_distinct [of orw_OrderNo "orders c" r] assms by (simp add: order_view_of_def wf_core_def)

lemma held_by_status:
  "held_by t (set_row (\<lambda>r. Some (set_status st now r)) (touch_order ts) r) =
     (if orw_SkuID r = t \<and> u32_of st \<in> {0, 1} then quantity_of r else 0)"
  by (auto simp: held_by_def set_status_keys quantity_of_def)

lemma UpdateOrderStatus_cancel:
  assumes wf: "wf_core (core w)" and view: "order_view_of n (core w) = Some (s, qty, 0)"
    and run: "run_state (mysqlRepo_UpdateOrderStatus n 0 2) w = (Inr (), w')"
  shows "held_of_sku t (core w') = held_of_sku t (core w) - (if t = s then qty else 0)"
  using run
proof (rule UpdateOrderStatus_run)
  fix rs r
  let ?g = "set_row (\<lambda>r. Some (set_status 2 (clock w) r)) (touch_order (current_timestamp w))"
  let ?p = "\<lambda>o'. orw_OrderNo o' = n \<and> orw_Status o' = u32_of 0"
  assume w': "w' = put_orders (sql_update ?p ?g (orders (core w))) (w\<lparr>replies := rs\<rparr>)"
    and r: "r \<in> set (orders (core w))" "orw_OrderNo r = n" "orw_Status r = u32_of 0"
  have "held_of_sku t (core w') = held_of_sku t (core w) - held_by t r + held_by t (?g r)"
    unfolding held_of_sku_def using sum_update [of orw_OrderNo "orders (core w)" r ?p "held_by t" ?g] wf r
    by (simp add: w' put_orders_def wf_core_def)
  moreover have "held_by t (?g r) = 0" unfolding held_by_status by simp
  moreover have "held_by t r = (if t = s then qty else 0)"
    using order_view_Some [OF wf r(1,2)] view r(3) by (auto simp: held_by_def)
  ultimately show ?thesis by simp
qed

lemma UpdateOrderStatus_pay:
  assumes run: "run_state (mysqlRepo_UpdateOrderStatus n 0 1) w = (Inr (), w')"
  shows "held_of_sku t (core w') = held_of_sku t (core w)"
  using run
proof (rule UpdateOrderStatus_run)
  fix rs r
  let ?g = "set_row (\<lambda>r. Some (set_status 1 (clock w) r)) (touch_order (current_timestamp w))"
  let ?p = "\<lambda>o'. orw_OrderNo o' = n \<and> orw_Status o' = u32_of 0"
  assume w': "w' = put_orders (sql_update ?p ?g (orders (core w))) (w\<lparr>replies := rs\<rparr>)"
  have "held_by t (?g x) = held_by t x" if "?p x" for x
    unfolding held_by_status using that by (simp add: held_by_def)
  then show ?thesis unfolding held_of_sku_def w' by (simp add: put_orders_def sum_update_same)
qed


subsection \<open>The ledger contract\<close>

text \<open>The tables the ledger does not read.\<close>

definition ledger_part where
  "ledger_part c = (skus c, orders c, shippings c)"

lemma ledger_part_same:
  assumes "same (\<lambda>w. ledger_part (core w)) m" and "run_state m w = (y, w')" and "wf_core (core w)"
  shows "wf_core (core w') \<and> stock_of_sku t (core w') = stock_of_sku t (core w)
     \<and> held_of_sku t (core w') = held_of_sku t (core w)"
  using sameD [OF assms(1,2)] assms(3)
  by (simp add: ledger_part_def wf_core_def stock_of_sku_def held_of_sku_def)

lemma ledger_RestoreUserCoupon: "same (\<lambda>w. ledger_part (core w)) (mysqlRepo_RestoreUserCoupon c)"
  unfolding mysqlRepo_RestoreUserCoupon_def
  by (intro frame) (simp_all add: put_user_coupons_def ledger_part_def)

text \<open>The reads, and the writes of the payment database, leave the core database alone.\<close>

lemma core_reads [frame]:
  "same core (mysqlRepo_GetOrderForUpdate E n)" "same core (mysqlRepo_GetOrder E n)"
  "same core (mysqlRepo_GetOrderByRequestID E n)" "same core (mysqlRepo_GetUserAddress i)"
  "same core (mysqlRepo_CheckUserBuyRecord u a)" "same core (mysqlRepo_GetPayInfoByPlatformNumber n)"
  "same core (mysqlRepo_GetPayInfoByOrderNo n)"
  unfolding mysqlRepo_GetOrderForUpdate_def mysqlRepo_GetOrder_def mysqlRepo_GetOrderByRequestID_def
    mysqlRepo_GetUserAddress_def mysqlRepo_CheckUserBuyRecord_def mysqlRepo_GetPayInfoByPlatformNumber_def
    mysqlRepo_GetPayInfoByOrderNo_def
  by (auto intro!: frame)

lemma core_pay_writes [frame]:
  "same core (mysqlRepo_CreatePayInfo p)" "same core (mysqlRepo_UpdatePayInfoStatus n st pt)"
  unfolding mysqlRepo_CreatePayInfo_def mysqlRepo_UpdatePayInfoStatus_def
  by (auto intro!: frame simp: put_pay_infos_def)

lemma GetOrderForUpdate_view:
  assumes "run_state (mysqlRepo_GetOrderForUpdate E n) w = (Inr oi, w')"
  shows "order_view_of n (core w) = Some (oi_SkuID oi, oi_Quantity oi, oi_Status oi)"
  using assms unfolding mysqlRepo_GetOrderForUpdate_def
  by (auto simp: on_error_Inr order_view_of_def order_info_def elim!: bindE_Inr first_on_Inr)

lemma quantity_range: "0 \<le> quantity_of r \<and> quantity_of r < 2 ^ 32"
  using uint_lt2p [where 'a = 32] by (auto simp: quantity_of_def split: option.split)

interpretation mysql_ledger: order_ledger "mysqlRepo E" wf_core stock_of_sku held_of_sku order_view_of for E
proof (unfold_locales, goal_cases)
  case (1 w ord n w' t)
  then show ?case using CreateOrder_effect by (simp add: mysqlRepo_def)
next
  case (2 w n a y w' t)
  then show ?case using CreateOrderShipping_effect by (simp add: mysqlRepo_def)
next
  case (3 w s q v w' t)
  then show ?case using DecreaseStock_effect by (simp add: mysqlRepo_def)
next
  case (4 w s q w' t)
  then show ?case using RestoreStock_effect by (simp add: mysqlRepo_def)
next
  case (5 n w oi w')
  then show ?case using GetOrderForUpdate_view by (simp add: mysqlRepo_def)
next
  case (7 n c s qty st)
  then show ?case using quantity_range by (auto simp: order_view_of_def)
next
  case (8 w n s qty w' t)
  then show ?case using UpdateOrderStatus_keys UpdateOrderStatus_cancel by (simp add: mysqlRepo_def)
next
  case (9 w n w' t)
  then show ?case using UpdateOrderStatus_keys UpdateOrderStatus_pay by (auto simp: mysqlRepo_def)
next
  case (10 w c y w' t)
  then show ?case using ledger_part_same [OF ledger_RestoreUserCoupon] by (simp add: mysqlRepo_def)
qed (simp_all add: mysqlRepo_def core_reads core_pay_writes)

end
