(* ===== verification/Redis_Repo.thy ===== *)
theory Redis_Repo
  imports Contracts
begin

text \<open>
  \<open>internal/data/repo/redis_repo.go\<close>: the keys, the Lua scripts and every method of
  \<open>redisRepo\<close>.  A script or a pipeline is one call; the methods' tracing is left out.  The
  last part shows what each method does to the keys it touches, that none touches anything but
  the keyspace, and that the three lock scripts implement \<open>lock_service\<close>.
\<close>

section \<open>Keys\<close>

definition stock_key :: "u64 \<Rightarrow> u64 \<Rightarrow> string" where
  "stock_key a s = ''seckill:act:'' @ show_word a @ '':sku:'' @ show_word s @ '':stock''"

definition buy_key :: "u64 \<Rightarrow> u64 \<Rightarrow> u64 \<Rightarrow> string" where
  "buy_key a s u = ''seckill:act:'' @ show_word a @ '':sku:'' @ show_word s @ '':buy:'' @ show_word u"

definition list_key :: "int \<Rightarrow> int \<Rightarrow> int \<Rightarrow> int \<Rightarrow> string" where
  "list_key a page sz srt = ''seckill:act:'' @ show_int a @ '':list:'' @ show_int page @ '':'' @ show_int sz
     @ '':'' @ show_int srt"

definition list_prefix :: "u64 \<Rightarrow> string" where
  "list_prefix a = ''seckill:act:'' @ show_word a @ '':list:''"

definition detail_key :: "u64 \<Rightarrow> u64 \<Rightarrow> string" where
  "detail_key p a = ''seckill:act:'' @ show_word a @ '':product:'' @ show_word p @ '':detail''"

definition product_key :: "u64 \<Rightarrow> u64 \<Rightarrow> string" where
  "product_key p a = ''seckill:product:'' @ show_word p @ '':'' @ show_word a"

definition bloomProductKey :: "u64 \<Rightarrow> string" where
  "bloomProductKey a = ''seckill:bloom:product:'' @ show_word a"

definition coupon_key :: "u64 \<Rightarrow> string" where
  "coupon_key c = ''seckill:coupon:'' @ show_word c"

definition pendingReservationKey :: "string \<Rightarrow> string" where
  "pendingReservationKey r = ''seckill:pending:'' @ r"

definition activity_keys :: "string list" where
  "activity_keys = [''seckill:activity:current'', ''seckill:current:activity'']"

lemmas key_defs = stock_key_def buy_key_def list_key_def list_prefix_def detail_key_def product_key_def
  bloomProductKey_def coupon_key_def pendingReservationKey_def

lemma stock_key_inj [simp]: "stock_key a s = stock_key b t \<longleftrightarrow> a = b \<and> s = t"
  by (simp add: stock_key_def)

lemma buy_key_inj [simp]: "buy_key a s u = buy_key b t v \<longleftrightarrow> a = b \<and> s = t \<and> u = v"
  by (simp add: buy_key_def)

lemma stock_buy_disjoint [simp]: "stock_key a s \<noteq> buy_key b t u" "buy_key b t u \<noteq> stock_key a s"
  by (auto simp: stock_key_def buy_key_def)

lemma pending_key_inj [simp]: "pendingReservationKey r = pendingReservationKey q \<longleftrightarrow> r = q"
  by (simp add: pendingReservationKey_def)

lemma pending_key_disjoint [simp]:
  "pendingReservationKey r \<noteq> stock_key a s" "stock_key a s \<noteq> pendingReservationKey r"
  "pendingReservationKey r \<noteq> buy_key a s u" "buy_key a s u \<noteq> pendingReservationKey r"
  "pendingReservationKey r \<noteq> coupon_key c" "coupon_key c \<noteq> pendingReservationKey r"
  by (simp_all add: key_defs)

lemma coupon_key_disjoint [simp]:
  "coupon_key c \<noteq> stock_key a s" "stock_key a s \<noteq> coupon_key c"
  "coupon_key c \<noteq> buy_key a s u" "buy_key a s u \<noteq> coupon_key c"
  by (simp_all add: key_defs)

lemma detail_key_disjoint [simp]:
  "detail_key p a \<noteq> stock_key b s" "stock_key b s \<noteq> detail_key p a"
  "detail_key p a \<noteq> buy_key b s u" "buy_key b s u \<noteq> detail_key p a"
  by (auto simp: key_defs)

section \<open>Pipelines and scripts\<close>

text \<open>
  A pipeline sends its commands in one round trip; the server runs them in order, each on its
  own, and \<open>Exec\<close> returns the first error.
\<close>

fun run_pipe :: "(world \<Rightarrow> (error + unit) \<times> world) list \<Rightarrow> world \<Rightarrow> (error + unit) \<times> world" where
  "run_pipe [] w = (Inr (), w)"
| "run_pipe (c # cs) w = (case c w of (r, w1) \<Rightarrow> case run_pipe cs w1 of (q, w2) \<Rightarrow>
     (case r of Inl e \<Rightarrow> Inl e | Inr _ \<Rightarrow> q, w2))"

definition pipe_Exec :: "(world \<Rightarrow> (error + unit) \<times> world) list \<Rightarrow> unit io" where
  "pipe_Exec cs = call (run_pipe cs)"

definition cmd_SetEX :: "string \<Rightarrow> sval \<Rightarrow> Time \<Rightarrow> world \<Rightarrow> (error + unit) \<times> world" where
  "cmd_SetEX k v ttl w = (if expire_seconds ttl \<le> 0 then (Inl InvalidExpire, w)
     else (Inr (), rput k (RStr v) (Some (clock w + expire_seconds ttl * second)) w))"

definition cmd_Set :: "string \<Rightarrow> sval \<Rightarrow> world \<Rightarrow> (error + unit) \<times> world" where
  "cmd_Set k v w = (Inr (), rput k (RStr v) None w)"

definition cmd_BFADD :: "string \<Rightarrow> string \<Rightarrow> world \<Rightarrow> (error + unit) \<times> world" where
  "cmd_BFADD k x w = (case rlookup k w of
       None \<Rightarrow> (Inr (), rput k (RBloom [x]) None w)
     | Some (RBloom xs) \<Rightarrow> (Inr (), rset k (RBloom (x # xs)) w)
     | Some _ \<Rightarrow> (Inl WrongType, w))"

definition cmd_BFEXISTS :: "env \<Rightarrow> string \<Rightarrow> string \<Rightarrow> world \<Rightarrow> error + bool" where
  "cmd_BFEXISTS E k x w = (case rlookup k w of
       None \<Rightarrow> Inr False
     | Some (RBloom xs) \<Rightarrow> Inr (x \<in> set xs \<or> bloom_fp E k x)
     | Some _ \<Rightarrow> Inl WrongType)"

text \<open>The script of \<open>NewRedisRepo\<close>: keys the stock and the buyer's mark, arguments quantity and 900.\<close>

definition deduct_script :: "string \<Rightarrow> string \<Rightarrow> int \<Rightarrow> int \<Rightarrow> world \<Rightarrow> (error + int) \<times> world" where
  "deduct_script sk uk q ttl w =
     (if rexists uk w then (Inr (- 1), w)
      else case rlookup sk w of
        None \<Rightarrow> (Inr 0, w)
      | Some (RStr (SInt n)) \<Rightarrow>
          if n < q then (Inr 0, w)
          else if q = - (2 ^ 63) \<or> \<not> in_int64 (n - q)
            then (Inl (Driver (ServerError ''ERR decrement would overflow'')), w)
          else if ttl \<le> 0
            then (Inl InvalidExpire, rset sk (RStr (SInt (n - q))) w)
          else (Inr 1, rput uk (RStr (SInt 1)) (Some (clock w + ttl * second))
                 (rset sk (RStr (SInt (n - q))) w))
      | Some (RStr (SDec n)) \<Rightarrow>
          if n < q * 10 ^ 12 then (Inr 0, w)
          else (Inl (Driver (ServerError ''ERR value is not an integer or out of range'')), w)
      | Some (RStr _) \<Rightarrow> (Inr 0, w)
      | Some _ \<Rightarrow> (Inl WrongType, w))"

definition acquire_script :: "string \<Rightarrow> string \<Rightarrow> int \<Rightarrow> world \<Rightarrow> (error + int) \<times> world" where
  "acquire_script k tok ms w =
     (if ms \<le> 0 then (Inl InvalidExpire, w)
      else if rexists k w then (Inr 0, w)
      else (Inr 1, rput k (RStr (STxt tok)) (Some (clock w + ms * millisecond)) w))"

definition renew_script :: "string \<Rightarrow> string \<Rightarrow> int \<Rightarrow> world \<Rightarrow> (error + int) \<times> world" where
  "renew_script k tok ms w = (case rlookup k w of
       None \<Rightarrow> (Inr 0, w)
     | Some (RStr v) \<Rightarrow>
         if v = STxt tok
         then (if ms \<le> 0 then (Inr 1, rdel k w)
               else (Inr 1, rput k (RStr v) (Some (clock w + ms * millisecond)) w))
         else (Inr 0, w)
     | Some _ \<Rightarrow> (Inl WrongType, w))"

definition release_script :: "string \<Rightarrow> string \<Rightarrow> world \<Rightarrow> (error + int) \<times> world" where
  "release_script k tok w = (case rlookup k w of
       None \<Rightarrow> (Inr 0, w)
     | Some (RStr v) \<Rightarrow> if v = STxt tok then (Inr 1, rdel k w) else (Inr 0, w)
     | Some _ \<Rightarrow> (Inl WrongType, w))"

section \<open>Decoding\<close>

definition decode_activity :: "sval \<Rightarrow> error + Activity" where
  "decode_activity s = (case s of SJson (DActivity a) \<Rightarrow> Inr a | _ \<Rightarrow> Inl JsonError)"

definition decode_list :: "sval \<Rightarrow> error + SeckillProductsResult" where
  "decode_list s = (case s of SJson (DList r) \<Rightarrow> Inr r | _ \<Rightarrow> Inl JsonError)"

definition decode_detail :: "sval \<Rightarrow> error + SeckillProductDetail" where
  "decode_detail s = (case s of SJson (DDetail d) \<Rightarrow> Inr d | _ \<Rightarrow> Inl JsonError)"

definition decode_int64 :: "sval \<Rightarrow> error + int" where
  "decode_int64 s = (case s of SInt n \<Rightarrow> Inr n | _ \<Rightarrow> Inl (Plain ''strconv.ParseInt: invalid syntax''))"

section \<open>The methods\<close>

text \<open>
  \<open>addRandomJitter\<close>: plus or minus ten percent.  \<open>rand.Int63n\<close> needs a positive bound, which
  every caller's constant gives.
\<close>

definition addRandomJitter :: "env \<Rightarrow> Time \<Rightarrow> (world, Time) state" where
  "addRandomJitter E base = do {
     r \<leftarrow> Int63n E (go_div base 5);
     let result = base + (r - go_div base 10);
     return (if result < 0 then base else result) }"

definition product_commands :: "CachedSeckillProduct \<times> int \<Rightarrow> (world \<Rightarrow> (error + unit) \<times> world) list" where
  "product_commands pr = (case pr of (p, r) \<Rightarrow>
     [cmd_SetEX (product_key (csp_ProductID p) (csp_ActivityID p)) (SJson (DCached p)) ((2 * 3600 + r) * second),
      cmd_Set (stock_key (csp_ActivityID p) (csp_SkuID p)) (SInt (csp_AvailableStock p)),
      cmd_BFADD (bloomProductKey (csp_ActivityID p)) (show_word (csp_ProductID p))])"

definition redisRepo_batchSetProducts :: "env \<Rightarrow> CachedSeckillProduct list \<Rightarrow> unit io" where
  "redisRepo_batchSetProducts E ps = do {
     rs \<leftarrow> map_each (\<lambda>_. Int63n E 600) ps;
     pipe_Exec (concat (map product_commands (zip ps rs))) }"

definition batchSize :: nat where
  "batchSize = 500"

text \<open>The slices \<open>products[i:end]\<close> of the loop.\<close>

function batches :: "'a list \<Rightarrow> 'a list list" where
  "batches xs = (if xs = [] then [] else take batchSize xs # batches (drop batchSize xs))"
  by auto
termination
  by (relation "measure length") (auto simp: batchSize_def)

declare batches.simps [simp del]

definition redisRepo_BatchSetProducts :: "env \<Rightarrow> CachedSeckillProduct list \<Rightarrow> unit io" where
  "redisRepo_BatchSetProducts E ps =
     (if ps = [] then return (Inr ())
      else do { for_each (redisRepo_batchSetProducts E) (batches ps); return (Inr ()) })"

definition redisRepo_GetProductList :: "int \<Rightarrow> int \<Rightarrow> int \<Rightarrow> int \<Rightarrow> SeckillProductsResult io" where
  "redisRepo_GetProductList a page sz srt = do {
     d \<leftarrow> rdb_Get (list_key a page sz srt);
     case d of Inl e \<Rightarrow> return (Inl e) | Inr s \<Rightarrow> return (decode_list s) }"

definition redisRepo_SetProductList ::
    "env \<Rightarrow> int \<Rightarrow> int \<Rightarrow> int \<Rightarrow> int \<Rightarrow> SeckillProductsResult \<Rightarrow> Time \<Rightarrow> unit io" where
  "redisRepo_SetProductList E a page sz srt d ttl = do {
     t \<leftarrow> addRandomJitter E ttl;
     rdb_SetEX (list_key a page sz srt) (SJson (DList d)) t }"

text \<open>\<open>deleteByPattern\<close> with a pattern that is a prefix and a star: one \<open>SCAN\<close> call per page.\<close>

definition has_prefix :: "string \<Rightarrow> string \<Rightarrow> bool" where
  "has_prefix p k \<longleftrightarrow> take (length p) k = p"

definition live_keys :: "world \<Rightarrow> string list" where
  "live_keys w = filter (\<lambda>k. rexists k w) (map fst (keyspace w))"

definition rdb_Scan :: "string \<Rightarrow> string list \<Rightarrow> (string list) io" where
  "rdb_Scan p page = query (\<lambda>_. Inr (filter (has_prefix p) page))"

fun delete_pages :: "string \<Rightarrow> string list list \<Rightarrow> unit io" where
  "delete_pages p [] = return (Inr ())"
| "delete_pages p (page # pages) = do {
     ks \<leftarrow> rdb_Scan p page;
     case ks of
       Inl e \<Rightarrow> return (Inl e)
     | Inr ks \<Rightarrow>
         if ks = [] then delete_pages p pages
         else do {
           d \<leftarrow> rdb_Del ks;
           case d of Inl e \<Rightarrow> return (Inl e) | Inr _ \<Rightarrow> delete_pages p pages } }"

definition redisRepo_deleteByPattern :: "env \<Rightarrow> string \<Rightarrow> unit io" where
  "redisRepo_deleteByPattern E p = do {
     ks \<leftarrow> asks live_keys;
     delete_pages p (scan_plan E ks) }"

definition redisRepo_DeleteProductLists :: "env \<Rightarrow> u64 \<Rightarrow> unit io" where
  "redisRepo_DeleteProductLists E a = redisRepo_deleteByPattern E (list_prefix a)"

definition redisRepo_GetStock :: "u64 \<Rightarrow> u64 \<Rightarrow> int io" where
  "redisRepo_GetStock a s = do {
     d \<leftarrow> rdb_Get (stock_key a s);
     case d of Inl e \<Rightarrow> return (Inl e) | Inr v \<Rightarrow> return (decode_int64 v) }"

definition redisRepo_SetStock :: "u64 \<Rightarrow> u64 \<Rightarrow> int \<Rightarrow> unit io" where
  "redisRepo_SetStock a s n = rdb_Set (stock_key a s) (SInt n)"

definition redisRepo_DeductStock :: "u64 \<Rightarrow> u64 \<Rightarrow> u64 \<Rightarrow> int \<Rightarrow> int io" where
  "redisRepo_DeductStock a s u q = call (deduct_script (stock_key a s) (buy_key a s u) q 900)"

definition redisRepo_RollbackStock :: "u64 \<Rightarrow> u64 \<Rightarrow> int \<Rightarrow> unit io" where
  "redisRepo_RollbackStock a s q = do {
     r \<leftarrow> rdb_IncrBy (stock_key a s) q;
     case r of Inl e \<Rightarrow> return (Inl e) | Inr _ \<Rightarrow> return (Inr ()) }"

definition redisRepo_CheckUserBuy :: "u64 \<Rightarrow> u64 \<Rightarrow> u64 \<Rightarrow> bool io" where
  "redisRepo_CheckUserBuy a s u = rdb_Exists (buy_key a s u)"

definition redisRepo_MarkUserBuy :: "u64 \<Rightarrow> u64 \<Rightarrow> u64 \<Rightarrow> int \<Rightarrow> unit io" where
  "redisRepo_MarkUserBuy a s u ttl = rdb_SetEX (buy_key a s u) (SInt 1) (ttl * second)"

definition del_keys :: "string list \<Rightarrow> unit io" where
  "del_keys ks = do {
     r \<leftarrow> rdb_Del ks;
     case r of Inl e \<Rightarrow> return (Inl e) | Inr _ \<Rightarrow> return (Inr ()) }"

definition redisRepo_RemoveUserBuy :: "u64 \<Rightarrow> u64 \<Rightarrow> u64 \<Rightarrow> unit io" where
  "redisRepo_RemoveUserBuy a s u = del_keys [buy_key a s u]"

text \<open>The loop over the two keys: the first that exists wins, a driver error ends it.\<close>

fun first_present :: "string list \<Rightarrow> sval io" where
  "first_present [] = return (Inl RedisNil)"
| "first_present (k # ks) = do {
     d \<leftarrow> rdb_Get k;
     case d of
       Inr s \<Rightarrow> return (if s = STxt [] then Inl RedisNil else Inr s)
     | Inl e \<Rightarrow> if e \<noteq> RedisNil then return (Inl e) else first_present ks }"

definition redisRepo_GetCurrentActivity :: "Activity io" where
  "redisRepo_GetCurrentActivity = do {
     d \<leftarrow> first_present activity_keys;
     case d of Inl e \<Rightarrow> return (Inl e) | Inr s \<Rightarrow> return (decode_activity s) }"

definition redisRepo_SetCurrentActivity :: "env \<Rightarrow> Activity \<Rightarrow> Time \<Rightarrow> unit io" where
  "redisRepo_SetCurrentActivity E act ttl = do {
     t \<leftarrow> addRandomJitter E ttl;
     pipe_Exec (map (\<lambda>k. cmd_SetEX k (SJson (DActivity act)) t) activity_keys) }"

definition redisRepo_DeleteCurrentActivity :: "unit io" where
  "redisRepo_DeleteCurrentActivity = del_keys activity_keys"

definition redisRepo_GetProductDetail :: "u64 \<Rightarrow> u64 \<Rightarrow> (SeckillProductDetail option) io" where
  "redisRepo_GetProductDetail p a = do {
     d \<leftarrow> rdb_Get (detail_key p a);
     case d of
       Inl e \<Rightarrow> if e = RedisNil then return (Inr None) else return (Inl e)
     | Inr s \<Rightarrow> return (case decode_detail s of Inl e \<Rightarrow> Inl e | Inr x \<Rightarrow> Inr (Some x)) }"

definition redisRepo_SetProductDetail :: "env \<Rightarrow> u64 \<Rightarrow> u64 \<Rightarrow> SeckillProductDetail \<Rightarrow> Time \<Rightarrow> unit io" where
  "redisRepo_SetProductDetail E p a d ttl = do {
     t \<leftarrow> addRandomJitter E ttl;
     rdb_SetEX (detail_key p a) (SJson (DDetail d)) t }"

definition redisRepo_DeleteProductDetail :: "u64 \<Rightarrow> u64 \<Rightarrow> unit io" where
  "redisRepo_DeleteProductDetail p a = del_keys [detail_key p a, product_key p a]"

definition redisRepo_BloomAdd :: "u64 \<Rightarrow> u64 \<Rightarrow> unit io" where
  "redisRepo_BloomAdd a p = call (cmd_BFADD (bloomProductKey a) (show_word p))"

definition redisRepo_BloomExists :: "env \<Rightarrow> u64 \<Rightarrow> u64 \<Rightarrow> bool io" where
  "redisRepo_BloomExists E a p = query (cmd_BFEXISTS E (bloomProductKey a) (show_word p))"

definition redisRepo_DeleteCoupon :: "u64 \<Rightarrow> unit io" where
  "redisRepo_DeleteCoupon c = del_keys [coupon_key c]"

definition redisRepo_SetPendingReservation :: "PendingReservation \<Rightarrow> Time \<Rightarrow> unit io" where
  "redisRepo_SetPendingReservation p ttl = rdb_SetEX (pendingReservationKey (pr_RequestID p)) (SJson (DPending p)) ttl"

definition redisRepo_DeletePendingReservation :: "string \<Rightarrow> unit io" where
  "redisRepo_DeletePendingReservation r = del_keys [pendingReservationKey r]"

text \<open>\<open>int(ttl.Milliseconds())\<close>.\<close>

definition milliseconds :: "Time \<Rightarrow> int" where
  "milliseconds ttl = go_div ttl millisecond"

definition redisRepo_AcquireLock :: "string \<Rightarrow> string \<Rightarrow> Time \<Rightarrow> bool io" where
  "redisRepo_AcquireLock k tok ttl = do {
     r \<leftarrow> call (acquire_script k tok (milliseconds ttl));
     case r of Inl e \<Rightarrow> return (Inl e) | Inr n \<Rightarrow> return (Inr (n = 1)) }"

definition redisRepo_RenewLock :: "string \<Rightarrow> string \<Rightarrow> Time \<Rightarrow> bool io" where
  "redisRepo_RenewLock k tok ttl = do {
     r \<leftarrow> call (renew_script k tok (milliseconds ttl));
     case r of Inl e \<Rightarrow> return (Inl e) | Inr n \<Rightarrow> return (Inr (n = 1)) }"

definition redisRepo_ReleaseLock :: "string \<Rightarrow> string \<Rightarrow> unit io" where
  "redisRepo_ReleaseLock k tok = do {
     r \<leftarrow> call (release_script k tok);
     case r of Inl e \<Rightarrow> return (Inl e) | Inr _ \<Rightarrow> return (Inr ()) }"

definition redisRepo :: "env \<Rightarrow> CacheRepo" where
  "redisRepo E = \<lparr>
     cache_BatchSetProducts = redisRepo_BatchSetProducts E,
     cache_GetProductList = redisRepo_GetProductList,
     cache_SetProductList = redisRepo_SetProductList E,
     cache_GetProductDetail = redisRepo_GetProductDetail,
     cache_SetProductDetail = redisRepo_SetProductDetail E,
     cache_DeleteProductDetail = redisRepo_DeleteProductDetail,
     cache_DeleteProductLists = redisRepo_DeleteProductLists E,
     cache_BloomAdd = redisRepo_BloomAdd,
     cache_BloomExists = redisRepo_BloomExists E,
     cache_GetStock = redisRepo_GetStock,
     cache_SetStock = redisRepo_SetStock,
     cache_DeductStock = redisRepo_DeductStock,
     cache_RollbackStock = redisRepo_RollbackStock,
     cache_GetCurrentActivity = redisRepo_GetCurrentActivity,
     cache_SetCurrentActivity = redisRepo_SetCurrentActivity E,
     cache_DeleteCurrentActivity = redisRepo_DeleteCurrentActivity,
     cache_CheckUserBuy = redisRepo_CheckUserBuy,
     cache_MarkUserBuy = redisRepo_MarkUserBuy,
     cache_RemoveUserBuy = redisRepo_RemoveUserBuy,
     cache_DeleteCoupon = redisRepo_DeleteCoupon,
     cache_SetNX = rdb_SetNX,
     cache_AcquireLock = redisRepo_AcquireLock,
     cache_RenewLock = redisRepo_RenewLock,
     cache_ReleaseLock = redisRepo_ReleaseLock,
     cache_Get = rdb_Get,
     cache_Set = rdb_SetEX,
     cache_Del = del_keys,
     cache_SetPendingReservation = redisRepo_SetPendingReservation,
     cache_DeletePendingReservation = redisRepo_DeletePendingReservation\<rparr>"

section \<open>What the methods leave alone\<close>

text \<open>
  An observer of the state is neutral when it sees neither the keyspace nor the counters of
  the model: the databases, the clock and the Kafka log are.
\<close>

definition redis_neutral :: "(world \<Rightarrow> 'b) \<Rightarrow> bool" where
  "redis_neutral f \<longleftrightarrow> (\<forall>w rs. f (w\<lparr>replies := rs\<rparr>) = f w) \<and> (\<forall>w ks. f (w\<lparr>keyspace := ks\<rparr>) = f w)
     \<and> (\<forall>w n. f (w\<lparr>ticks := n\<rparr>) = f w)"

lemma redis_neutral_fields [simp]:
  "redis_neutral core" "redis_neutral clock" "redis_neutral addresses" "redis_neutral products"
  "redis_neutral pay_infos" "redis_neutral dead_letters" "redis_neutral kafka_log" "redis_neutral committed"
  "redis_neutral auto_id"
  by (simp_all add: redis_neutral_def)

lemma redis_neutral_replies: "redis_neutral f \<Longrightarrow> f (w\<lparr>replies := rs\<rparr>) = f w"
  by (simp add: redis_neutral_def)

lemma redis_neutral_ticks: "redis_neutral f \<Longrightarrow> f (w\<lparr>ticks := n\<rparr>) = f w"
  by (simp add: redis_neutral_def)

lemma redis_neutral_rput: "redis_neutral f \<Longrightarrow> f (rput k v e w) = f w"
  by (simp add: redis_neutral_def rput_def)

lemma redis_neutral_rset: "redis_neutral f \<Longrightarrow> f (rset k v w) = f w"
  by (simp add: rset_def redis_neutral_rput)

lemma redis_neutral_rdel: "redis_neutral f \<Longrightarrow> f (rdel k w) = f w"
  by (simp add: redis_neutral_def rdel_def)

lemma redis_neutral_fold_rdel: "redis_neutral f \<Longrightarrow> f (fold rdel ks w) = f w"
  by (induction ks arbitrary: w) (simp_all add: redis_neutral_rdel)

lemmas neutral_rules = redis_neutral_replies redis_neutral_ticks redis_neutral_rput redis_neutral_rset redis_neutral_rdel
  redis_neutral_fold_rdel

lemma neutral_same_call:
  "redis_neutral f \<Longrightarrow> (\<And>w. f (snd (c w)) = f w) \<Longrightarrow> same f (call c)"
  by (rule same_call) (simp_all add: redis_neutral_replies)

lemma neutral_same_query [frame]: "redis_neutral f \<Longrightarrow> same f (query c)"
  by (rule same_query) (simp add: redis_neutral_replies)

lemma neutral_Int63n [frame]: "redis_neutral f \<Longrightarrow> same f (Int63n E n)"
  by (rule same_Int63n) (simp add: redis_neutral_ticks)

lemma neutral_NewString [frame]: "redis_neutral f \<Longrightarrow> same f (NewString E)"
  by (rule same_NewString) (simp add: redis_neutral_ticks)

lemma neutral_commands [frame]:
  assumes "redis_neutral f"
  shows "same f (rdb_Get k)" "same f (rdb_Set k v)" "same f (rdb_SetEX k v t)" "same f (rdb_SetNX k v t)"
    "same f (rdb_Del ks)" "same f (rdb_Exists k)" "same f (rdb_IncrBy k d)" "same f (rdb_Scan p page)"
proof -
  show "same f (rdb_Get k)" "same f (rdb_Exists k)" "same f (rdb_Scan p page)"
    using assms by (simp_all add: rdb_Get_def rdb_Exists_def rdb_Scan_def neutral_same_query)
  show "same f (rdb_Set k v)" "same f (rdb_SetEX k v t)" "same f (rdb_SetNX k v t)" "same f (rdb_Del ks)"
    using assms unfolding rdb_Set_def rdb_SetEX_def rdb_SetNX_def rdb_Del_def
    by (auto intro!: neutral_same_call simp: neutral_rules)
  show "same f (rdb_IncrBy k d)"
    using assms unfolding rdb_IncrBy_def
    by (auto intro!: neutral_same_call simp: neutral_rules split: sum.splits)
qed

lemma neutral_cmds:
  assumes "redis_neutral f"
  shows "f (snd (cmd_SetEX k v t w)) = f w" "f (snd (cmd_Set k v w)) = f w" "f (snd (cmd_BFADD k x w)) = f w"
  using assms
  by (auto simp: cmd_SetEX_def cmd_Set_def cmd_BFADD_def neutral_rules split: option.splits rval.splits)

lemma neutral_run_pipe:
  "(\<And>c w. c \<in> set cs \<Longrightarrow> f (snd (c w)) = f w) \<Longrightarrow> f (snd (run_pipe cs w)) = f w"
proof (induction cs arbitrary: w)
  case (Cons c cs)
  have "f (snd (run_pipe cs (snd (c w)))) = f (snd (c w))"
    by (rule Cons.IH) (simp add: Cons.prems)
  then show ?case by (simp add: Cons.prems case_prod_beta)
qed simp

lemma neutral_pipe_Exec:
  "redis_neutral f \<Longrightarrow> (\<And>c w. c \<in> set cs \<Longrightarrow> f (snd (c w)) = f w) \<Longrightarrow> same f (pipe_Exec cs)"
  unfolding pipe_Exec_def by (rule neutral_same_call) (auto intro: neutral_run_pipe)

lemma neutral_scripts:
  assumes "redis_neutral f"
  shows "f (snd (deduct_script sk uk q t w)) = f w" "f (snd (acquire_script k tok ms w)) = f w"
    "f (snd (renew_script k tok ms w)) = f w" "f (snd (release_script k tok w)) = f w"
  using assms
  by (auto simp: deduct_script_def acquire_script_def renew_script_def release_script_def neutral_rules
      split: option.splits rval.splits sval.splits)

lemma neutral_jitter [frame]: "redis_neutral f \<Longrightarrow> same f (addRandomJitter E t)"
  unfolding addRandomJitter_def Let_def by (intro frame)

lemma neutral_del_keys [frame]: "redis_neutral f \<Longrightarrow> same f (del_keys ks)"
  unfolding del_keys_def by (intro frame)

lemma neutral_first_present [frame]: "redis_neutral f \<Longrightarrow> same f (first_present ks)"
  by (induction ks) (auto intro!: frame)

lemma neutral_delete_pages [frame]: "redis_neutral f \<Longrightarrow> same f (delete_pages p pages)"
  by (induction pages) (auto intro!: frame)

lemma neutral_batch [frame]: "redis_neutral f \<Longrightarrow> same f (redisRepo_batchSetProducts E ps)"
  unfolding redisRepo_batchSetProducts_def
  by (intro frame neutral_pipe_Exec) (auto simp: product_commands_def neutral_cmds)

lemma neutral_products [frame]:
  assumes "redis_neutral f"
  shows "same f (redisRepo_BatchSetProducts E ps)" "same f (redisRepo_GetProductList a page sz srt)"
    "same f (redisRepo_SetProductList E a page sz srt d t)" "same f (redisRepo_GetProductDetail p c)"
    "same f (redisRepo_SetProductDetail E p c dt t)" "same f (redisRepo_DeleteProductDetail p c)"
    "same f (redisRepo_DeleteProductLists E c)" "same f (redisRepo_BloomAdd c p)" "same f (redisRepo_BloomExists E c p)"
proof -
  show "same f (redisRepo_BloomAdd c p)"
    using assms unfolding redisRepo_BloomAdd_def by (auto intro!: neutral_same_call simp: neutral_cmds)
qed (use assms in \<open>auto intro!: frame simp: redisRepo_BatchSetProducts_def redisRepo_GetProductList_def
    redisRepo_SetProductList_def redisRepo_GetProductDetail_def redisRepo_SetProductDetail_def
    redisRepo_DeleteProductDetail_def redisRepo_DeleteProductLists_def redisRepo_deleteByPattern_def
    redisRepo_BloomExists_def\<close>)

lemma neutral_stock [frame]:
  assumes "redis_neutral f"
  shows "same f (redisRepo_GetStock a s)" "same f (redisRepo_SetStock a s n)" "same f (redisRepo_DeductStock a s u q)"
    "same f (redisRepo_RollbackStock a s q)" "same f (redisRepo_CheckUserBuy a s u)"
    "same f (redisRepo_MarkUserBuy a s u ttl)" "same f (redisRepo_RemoveUserBuy a s u)"
proof -
  show "same f (redisRepo_DeductStock a s u q)"
    using assms unfolding redisRepo_DeductStock_def by (auto intro!: neutral_same_call simp: neutral_scripts)
qed (use assms in \<open>auto intro!: frame simp: redisRepo_GetStock_def redisRepo_SetStock_def redisRepo_RollbackStock_def
    redisRepo_CheckUserBuy_def redisRepo_MarkUserBuy_def redisRepo_RemoveUserBuy_def\<close>)

lemma neutral_activity [frame]:
  assumes "redis_neutral f"
  shows "same f redisRepo_GetCurrentActivity" "same f (redisRepo_SetCurrentActivity E act t)"
    "same f redisRepo_DeleteCurrentActivity" "same f (redisRepo_DeleteCoupon c)"
    "same f (redisRepo_SetPendingReservation p t)" "same f (redisRepo_DeletePendingReservation r)"
proof -
  show "same f (redisRepo_SetCurrentActivity E act t)"
    using assms unfolding redisRepo_SetCurrentActivity_def
    by (intro frame neutral_pipe_Exec) (auto simp: neutral_cmds)
qed (use assms in \<open>auto intro!: frame simp: redisRepo_GetCurrentActivity_def redisRepo_DeleteCurrentActivity_def
    redisRepo_DeleteCoupon_def redisRepo_SetPendingReservation_def redisRepo_DeletePendingReservation_def\<close>)

lemma neutral_locks [frame]:
  assumes "redis_neutral f"
  shows "same f (redisRepo_AcquireLock k tok t)" "same f (redisRepo_RenewLock k tok t)"
    "same f (redisRepo_ReleaseLock k tok)"
  using assms unfolding redisRepo_AcquireLock_def redisRepo_RenewLock_def redisRepo_ReleaseLock_def
  by (auto intro!: frame neutral_same_call simp: neutral_scripts)

section \<open>What the methods do to the keyspace\<close>

definition rstock :: "u64 \<Rightarrow> u64 \<Rightarrow> world \<Rightarrow> int option" where
  "rstock a s w = (case rlookup (stock_key a s) w of Some (RStr (SInt n)) \<Rightarrow> Some n | _ \<Rightarrow> None)"

definition bought :: "u64 \<Rightarrow> u64 \<Rightarrow> u64 \<Rightarrow> world \<Rightarrow> bool" where
  "bought a s u w \<longleftrightarrow> rexists (buy_key a s u) w"

definition lock_holder :: "string \<Rightarrow> world \<Rightarrow> string option" where
  "lock_holder k w = (case rlookup k w of Some (RStr (STxt t)) \<Rightarrow> Some t | _ \<Rightarrow> None)"

lemma rexists_replies [simp]: "rexists k (w\<lparr>replies := rs\<rparr>) = rexists k w"
  by (simp add: rexists_def)

lemma rexists_rput [simp]:
  "rexists k (rput k' v e w) \<longleftrightarrow> (if k = k' then (case e of None \<Rightarrow> True | Some t \<Rightarrow> clock w < t) else rexists k w)"
  by (auto simp: rexists_def split: option.splits)

lemma rexists_rdel [simp]: "rexists k (rdel k' w) \<longleftrightarrow> k \<noteq> k' \<and> rexists k w"
  by (simp add: rexists_def)

lemma rexists_rset [simp]: "rexists k (rset k' v w) \<longleftrightarrow> k = k' \<or> rexists k w"
  by (auto simp: rexists_def)

lemma view_replies [simp]:
  "rstock a s (w\<lparr>replies := rs\<rparr>) = rstock a s w" "bought a s u (w\<lparr>replies := rs\<rparr>) = bought a s u w"
  "lock_holder k (w\<lparr>replies := rs\<rparr>) = lock_holder k w" "redis_num k (w\<lparr>replies := rs\<rparr>) = redis_num k w"
  by (simp_all add: rstock_def bought_def lock_holder_def redis_num_def)

lemma redis_num_stock: "rstock a s w = Some n \<Longrightarrow> redis_num (stock_key a s) w = Inr n"
  by (auto simp: rstock_def redis_num_def split: option.splits rval.splits sval.splits)

text \<open>A key that a call's command leaves as it was is as it was after the call, whatever the reply.\<close>

lemma call_keeps_key:
  assumes "run_state (call c) w = (r, w')" and "\<And>w. rlookup k (snd (c w)) = rlookup k w"
  shows "rlookup k w' = rlookup k w"
  using assms(1) by (cases rule: call_cases) (simp_all add: assms(2), metis assms(2) rlookup_replies snd_conv)

lemma same_key_call [frame]: "(\<And>w. rlookup k (snd (c w)) = rlookup k w) \<Longrightarrow> same (rlookup k) (call c)"
  by (rule same_call) simp_all

lemma same_key_query [frame]: "same (rlookup k) (query c)"
  by (rule same_query) simp

lemma rlookup_fold_rdel: "rlookup k (fold rdel ks w) = (if k \<in> set ks then None else rlookup k w)"
  by (induction ks arbitrary: w) auto

lemma same_key_del [frame]: "k \<notin> set ks \<Longrightarrow> same (rlookup k) (del_keys ks)"
  unfolding del_keys_def rdb_Del_def by (intro frame) (simp add: rlookup_fold_rdel)

lemma same_key_SetEX [frame]: "k \<noteq> k' \<Longrightarrow> same (rlookup k) (rdb_SetEX k' v t)"
  unfolding rdb_SetEX_def by (rule same_key_call) simp

lemma same_key_rollback [frame]: "k \<noteq> stock_key a s \<Longrightarrow> same (rlookup k) (redisRepo_RollbackStock a s q)"
  unfolding redisRepo_RollbackStock_def rdb_IncrBy_def by (intro frame) (simp split: sum.split)

lemma same_key_deduct [frame]:
  "k \<noteq> stock_key a s \<Longrightarrow> k \<noteq> buy_key a s u \<Longrightarrow> same (rlookup k) (redisRepo_DeductStock a s u q)"
  unfolding redisRepo_DeductStock_def deduct_script_def
  by (rule same_key_call) (simp split: option.split rval.split sval.split)

lemma same_rstock: "same (rlookup (stock_key a s)) m \<Longrightarrow> run_state m w = (r, w') \<Longrightarrow> rstock a s w' = rstock a s w"
  unfolding rstock_def by (drule (1) sameD) simp

lemma same_bought: "same (rlookup (buy_key a s u)) m \<Longrightarrow> run_state m w = (r, w') \<Longrightarrow> bought a s u w' = bought a s u w"
  unfolding bought_def rexists_def by (drule (1) sameD) simp

lemma del_keys_Inr: "run_state (del_keys ks) w = (Inr (), w') \<Longrightarrow> k \<in> set ks \<Longrightarrow> rlookup k w' = None"
  by (auto simp: del_keys_def rdb_Del_def rlookup_fold_rdel split: prod.splits sum.splits elim!: call_Inr)

subsection \<open>The reservation script\<close>

text \<open>All its outcomes: reserved, refused without a change, or an error that takes no mark.\<close>

lemma deduct_script_cases:
  obtains (marked) "rexists uk w" "deduct_script sk uk q t w = (Inr (- 1), w)"
  | (short) "\<not> rexists uk w" "deduct_script sk uk q t w = (Inr 0, w)"
  | (reserved) n where "\<not> rexists uk w" "rlookup sk w = Some (RStr (SInt n))" "q \<le> n" "0 < t"
      "deduct_script sk uk q t w = (Inr 1, rput uk (RStr (SInt 1)) (Some (clock w + t * second))
          (rset sk (RStr (SInt (n - q))) w))"
  | (no_expiry) n where "t \<le> 0" "q \<le> n" "deduct_script sk uk q t w = (Inl InvalidExpire,
          rset sk (RStr (SInt (n - q))) w)"
  | (error) e where "deduct_script sk uk q t w = (Inl e, w)"
proof (cases "rexists uk w")
  case True
  then show ?thesis by (intro marked) (simp_all add: deduct_script_def)
next
  case unmarked: False
  show ?thesis
  proof (cases "\<exists>n. rlookup sk w = Some (RStr (SInt n)) \<and> \<not> n < q")
    case True
    then obtain n where n: "rlookup sk w = Some (RStr (SInt n))" "q \<le> n" by force
    let ?over = "q = - (2 ^ 63) \<or> \<not> in_int64 (n - q)"
    have eq: "deduct_script sk uk q t w = (if ?over
        then (Inl (Driver (ServerError ''ERR decrement would overflow'')), w)
        else if t \<le> 0 then (Inl InvalidExpire, rset sk (RStr (SInt (n - q))) w)
        else (Inr 1, rput uk (RStr (SInt 1)) (Some (clock w + t * second))
               (rset sk (RStr (SInt (n - q))) w)))"
      using n unmarked by (simp add: deduct_script_def)
    consider ?over | "\<not> ?over" "t \<le> 0" | "\<not> ?over" "0 < t" by linarith
    then show ?thesis
    proof cases
      case 1
      then show ?thesis using error eq by simp
    next
      case 2
      then have "deduct_script sk uk q t w = (Inl InvalidExpire, rset sk (RStr (SInt (n - q))) w)"
        using eq by (simp del: power_numeral)
      with 2 n show ?thesis by (intro no_expiry)
    next
      case 3
      then have "deduct_script sk uk q t w = (Inr 1, rput uk (RStr (SInt 1)) (Some (clock w + t * second))
               (rset sk (RStr (SInt (n - q))) w))"
        using eq by (simp del: power_numeral)
      with 3 n unmarked show ?thesis by (intro reserved)
    qed
  next
    case False
    then have "deduct_script sk uk q t w \<in> {(Inr 0, w), (Inl WrongType, w),
        (Inl (Driver (ServerError ''ERR value is not an integer or out of range'')), w)}"
      using unmarked by (auto simp: deduct_script_def split: option.split rval.split sval.split)
    then show ?thesis using unmarked short error by blast
  qed
qed

lemma second_pos [simp]: "0 < second"
  by (simp add: second_def)

lemma DeductStock_1:
  assumes "run_state (redisRepo_DeductStock a s u q) w = (Inr 1, w')"
  shows "\<not> bought a s u w \<and> bought a s u w' \<and> (\<exists>n. rstock a s w = Some n \<and> q \<le> n \<and> rstock a s w' = Some (n - q))"
proof -
  obtain rs where rs: "deduct_script (stock_key a s) (buy_key a s u) q 900 (w\<lparr>replies := rs\<rparr>) = (Inr 1, w')"
    using assms unfolding redisRepo_DeductStock_def by (rule call_Inr)
  then show ?thesis
    by (cases rule: deduct_script_cases [where uk = "buy_key a s u" and sk = "stock_key a s" and q = q and t = 900
        and w = "w\<lparr>replies := rs\<rparr>"])
      (auto simp: bought_def rstock_def)
qed

lemma DeductStock_rejected:
  assumes "run_state (redisRepo_DeductStock a s u q) w = (Inr r, w')" and "r \<noteq> 1"
  shows "\<exists>rs. w' = w\<lparr>replies := rs\<rparr> \<and> (r = - 1 \<longleftrightarrow> bought a s u w) \<and> r \<in> {- 1, 0}"
proof -
  obtain rs where rs: "deduct_script (stock_key a s) (buy_key a s u) q 900 (w\<lparr>replies := rs\<rparr>) = (Inr r, w')"
    using assms(1) unfolding redisRepo_DeductStock_def by (rule call_Inr)
  then show ?thesis using assms(2)
    by (cases rule: deduct_script_cases [where uk = "buy_key a s u" and sk = "stock_key a s" and q = q and t = 900
        and w = "w\<lparr>replies := rs\<rparr>"])
      (auto simp: bought_def)
qed

lemma RollbackStock_Inr:
  assumes "run_state (redisRepo_RollbackStock a s q) w = (Inr (), w')" and "rstock a s w = Some n"
  shows "rstock a s w' = Some (n + q)"
proof -
  obtain m where "run_state (rdb_IncrBy (stock_key a s) q) w = (Inr m, w')"
    using assms(1) by (auto simp: redisRepo_RollbackStock_def split: prod.splits sum.splits)
  then obtain rs where "(case redis_num (stock_key a s) (w\<lparr>replies := rs\<rparr>) of
      Inl e \<Rightarrow> (Inl e, w\<lparr>replies := rs\<rparr>)
    | Inr n \<Rightarrow> if in_int64 (n + q) then (Inr (n + q), rset (stock_key a s) (RStr (SInt (n + q))) (w\<lparr>replies := rs\<rparr>))
               else (Inl (Driver (ServerError ''ERR increment or decrement would overflow'')), w\<lparr>replies := rs\<rparr>))
    = (Inr m, w')"
    unfolding rdb_IncrBy_def by (rule call_Inr)
  then show ?thesis using redis_num_stock [OF assms(2)] by (auto simp: rstock_def split: if_splits)
qed

section \<open>The contracts hold\<close>

lemma redis_db_part: "redis_neutral db_part"
  by (simp add: redis_neutral_def db_part_def)

interpretation redis_reservations: reservation_cache "redisRepo E" rstock bought for E
proof (unfold_locales, goal_cases)
  case (12 a s u q w r w' b t v)
  then show ?case by (auto simp: redisRepo_def dest: DeductStock_rejected)
next
  case (17 a s u w w')
  then show ?case
    by (auto simp: redisRepo_def redisRepo_RemoveUserBuy_def bought_def rexists_def dest: del_keys_Inr)
qed (auto simp: redisRepo_def redis_db_part redisRepo_SetPendingReservation_def redisRepo_RemoveUserBuy_def
      redisRepo_DeletePendingReservation_def redisRepo_DeleteCoupon_def RollbackStock_Inr DeductStock_1
      intro: frame elim!: same_rstock [rotated] same_bought [rotated])


subsection \<open>Locks\<close>

lemma milliseconds_pos: "millisecond \<le> t \<Longrightarrow> 0 < milliseconds t"
  by (simp add: milliseconds_def go_div_pos duration_defs)

lemma AcquireLock_run:
  "run_state (redisRepo_AcquireLock k tok ttl) w = (r, w') \<Longrightarrow>
     \<exists>q. run_state (call (acquire_script k tok (milliseconds ttl))) w = (q, w') \<and> (r = Inr True \<longleftrightarrow> q = Inr 1)"
  by (auto simp: redisRepo_AcquireLock_def split: prod.splits sum.splits)

lemma RenewLock_run:
  "run_state (redisRepo_RenewLock k tok ttl) w = (r, w') \<Longrightarrow>
     \<exists>q. run_state (call (renew_script k tok (milliseconds ttl))) w = (q, w') \<and> (r = Inr True \<longleftrightarrow> q = Inr 1)"
  by (auto simp: redisRepo_RenewLock_def split: prod.splits sum.splits)

lemma ReleaseLock_run:
  "run_state (redisRepo_ReleaseLock k tok) w = (r, w') \<Longrightarrow>
     \<exists>q. run_state (call (release_script k tok)) w = (q, w')"
  by (auto simp: redisRepo_ReleaseLock_def split: prod.splits sum.splits)

lemma lock_holder_rlookup: "lock_holder k w = Some t \<longleftrightarrow> rlookup k w = Some (RStr (STxt t))"
  by (auto simp: lock_holder_def split: option.splits rval.splits sval.splits)

text \<open>What each script does to a held lock: nothing, unless it is the holder's.\<close>

lemma scripts_on_held:
  assumes "rlookup k w = Some (RStr (STxt u))"
  shows "snd (acquire_script k t ms w) = w" "fst (acquire_script k t ms w) \<noteq> Inr 1"
    "u \<noteq> t \<Longrightarrow> renew_script k t ms w = (Inr 0, w)" "u \<noteq> t \<Longrightarrow> release_script k t w = (Inr 0, w)"
  using assms by (auto simp: acquire_script_def renew_script_def release_script_def rexists_def)

lemma millisecond_pos [simp]: "0 < millisecond"
  by (simp add: millisecond_def)

interpretation redis_locks: lock_service redisRepo_AcquireLock redisRepo_RenewLock redisRepo_ReleaseLock lock_holder
proof (unfold_locales, goal_cases)
  case (1 k t d w w')
  then obtain rs where "acquire_script k t (milliseconds d) (w\<lparr>replies := rs\<rparr>) = (Inr 1, w')"
    by (auto dest!: AcquireLock_run elim: call_Inr)
  then show ?case by (auto simp: acquire_script_def lock_holder_def rexists_def split: if_splits)
next
  case (2 k t d w w')
  then obtain rs where "acquire_script k t (milliseconds d) (w\<lparr>replies := rs\<rparr>) = (Inr 1, w')"
    by (auto dest!: AcquireLock_run elim: call_Inr)
  then show ?case by (auto simp: acquire_script_def lock_holder_def split: if_splits)
next
  case (3 k w u t d r w')
  then obtain q where q: "run_state (call (acquire_script k t (milliseconds d))) w = (q, w')"
    and r: "r = Inr True \<longleftrightarrow> q = Inr 1" using AcquireLock_run by blast
  have held: "rlookup k (w\<lparr>replies := rs\<rparr>) = Some (RStr (STxt u))" for rs
    using 3 by (simp add: lock_holder_rlookup)
  from q show ?case
  proof (cases rule: call_cases)
    case (answered rs)
    then have "q = fst (acquire_script k t (milliseconds d) (w\<lparr>replies := rs\<rparr>))" "w' = w\<lparr>replies := rs\<rparr>"
      using scripts_on_held(1) [OF held] by (metis fst_conv, metis snd_conv)
    then show ?thesis using scripts_on_held(2) [OF held] held r by (simp add: lock_holder_rlookup)
  next
    case (refused e rs)
    then show ?thesis using held r by (simp add: lock_holder_rlookup)
  next
    case (lost e rs)
    then show ?thesis using scripts_on_held(1) [OF held] held r by (simp add: lock_holder_rlookup)
  qed
next
  case (4 k w u t d r w')
  then obtain q where q: "run_state (call (renew_script k t (milliseconds d))) w = (q, w')"
    and r: "r = Inr True \<longleftrightarrow> q = Inr 1" using RenewLock_run by blast
  have held: "rlookup k (w\<lparr>replies := rs\<rparr>) = Some (RStr (STxt u))" for rs
    using 4 by (simp add: lock_holder_rlookup)
  from q show ?case
    by (cases rule: call_cases) (use scripts_on_held(3) [OF held 4(2)] held r in \<open>auto simp: lock_holder_rlookup\<close>)
next
  case (5 k w u t q w')
  then obtain p where p: "run_state (call (release_script k t)) w = (p, w')" using ReleaseLock_run by blast
  have held: "rlookup k (w\<lparr>replies := rs\<rparr>) = Some (RStr (STxt u))" for rs
    using 5 by (simp add: lock_holder_rlookup)
  from p show ?case
    by (cases rule: call_cases) (use scripts_on_held(4) [OF held 5(2)] held in \<open>auto simp: lock_holder_rlookup\<close>)
qed

section \<open>Batches and jitter\<close>

lemma concat_batches [simp]: "concat (batches xs) = xs"
proof (induction xs rule: batches.induct)
  case (1 xs)
  then show ?case by (subst batches.simps) simp
qed

lemma batches_bound: "b \<in> set (batches xs) \<Longrightarrow> b \<noteq> [] \<and> length b \<le> batchSize"
proof (induction xs rule: batches.induct)
  case (1 xs)
  show ?case
  proof (cases "xs = []")
    case True
    then show ?thesis using "1.prems" by (simp add: batches.simps)
  next
    case False
    then have "batches xs = take batchSize xs # batches (drop batchSize xs)"
      by (subst batches.simps) simp
    then show ?thesis using "1.IH" "1.prems" False by (auto simp: batchSize_def)
  qed
qed

end
