(* ===== verification/Cache_Guards.thy ===== *)
theory Cache_Guards
  imports Redis_Repo
begin

text \<open>
  \<open>internal/cache\<close>: the request guard of \<open>idempotent.go\<close> and the token-bucket limiter of
  \<open>limiter.go\<close>.  Lua numbers and Go \<open>float64\<close>s are rationals rounded by \<open>fl\<close> after each
  operation; \<open>%.12f\<close> prints to twelve places.  The Redis server reads the same clock as the
  service.
\<close>

section \<open>Idempotency\<close>

definition idempotent_key :: "string \<Rightarrow> string" where
  "idempotent_key r = ''idempotent:'' @ r"

definition CheckAndMark :: "string \<Rightarrow> Time \<Rightarrow> bool io" where
  "CheckAndMark requestId ttl = rdb_SetNX (idempotent_key requestId) (SInt 1) ttl"

definition idempotentChecker :: IdempotentChecker where
  "idempotentChecker = \<lparr>idem_CheckAndMark = CheckAndMark\<rparr>"

definition marked :: "string \<Rightarrow> world \<Rightarrow> bool" where
  "marked r w \<longleftrightarrow> rexists (idempotent_key r) w"

section \<open>The token bucket\<close>

definition hash_get :: "string \<Rightarrow> string \<Rightarrow> world \<Rightarrow> error + sval option" where
  "hash_get k f w = (case rlookup k w of
       None \<Rightarrow> Inr None
     | Some (RHash h) \<Rightarrow> Inr (map_of h f)
     | Some _ \<Rightarrow> Inl WrongType)"

definition hash_of :: "string \<Rightarrow> world \<Rightarrow> (string \<times> sval) list" where
  "hash_of k w = (case rlookup k w of Some (RHash h) \<Rightarrow> h | _ \<Rightarrow> [])"

text \<open>\<open>tonumber\<close>.\<close>

definition to_number :: "sval \<Rightarrow> rat option" where
  "to_number v = (case v of SInt n \<Rightarrow> Some (of_int n) | SDec n \<Rightarrow> Some (of_int n / 10 ^ 12) | _ \<Rightarrow> None)"

text \<open>\<open>string.format('%.12f', x)\<close>.\<close>

definition fix12 :: "rat \<Rightarrow> sval" where
  "fix12 x = SDec (round (x * 10 ^ 12))"

text \<open>The number of tokens before the request, refilled for the time since the last one and capped.\<close>

definition refill :: "env \<Rightarrow> rat \<Rightarrow> rat \<Rightarrow> int \<Rightarrow> sval option \<Rightarrow> sval option \<Rightarrow> rat" where
  "refill E rate capacity now tokens_s last_s = (case tokens_s of
       None \<Rightarrow> capacity
     | Some ts \<Rightarrow> (case (to_number ts, Option.bind last_s to_number) of
           (Some tokens, Some prev) \<Rightarrow>
             (let elapsed = fl E ((of_int now - prev) / 1000000);
                  elapsed = (if elapsed < 0 then 0 else elapsed);
                  tokens = fl E (tokens + fl E (elapsed * rate))
              in if capacity < tokens then capacity else tokens)
         | _ \<Rightarrow> capacity))"

definition tokenBucketScript :: "env \<Rightarrow> string \<Rightarrow> rat \<Rightarrow> rat \<Rightarrow> int \<Rightarrow> world \<Rightarrow> (error + int) \<times> world" where
  "tokenBucketScript E key rate capacity ttl w =
     (let now = clock w div microsecond in
      case (hash_get key ''tokens'' w, hash_get key ''last'' w) of
        (Inr ts, Inr ls) \<Rightarrow>
          (let tokens = refill E rate capacity now ts ls;
               allowed = (1 \<le> tokens);
               tokens = (if allowed then fl E (tokens - 1) else tokens);
               fields = AList.update ''last'' (SInt now) (AList.update ''tokens'' (fix12 tokens) (hash_of key w));
               expiry = (if 0 < ttl then Some (clock w + ttl * second) else rexpiry key w)
           in (Inr (if allowed then 1 else 0), rput key (RHash fields) expiry w))
      | (Inl e, _) \<Rightarrow> (Inl e, w)
      | (_, Inl e) \<Rightarrow> (Inl e, w))"

text \<open>\<open>window.Seconds()\<close>.\<close>

definition seconds_of :: "Time \<Rightarrow> rat" where
  "seconds_of d = of_int d / of_int second"

definition bucketParams :: "env \<Rightarrow> int \<Rightarrow> int \<Rightarrow> Time \<Rightarrow> rat \<times> rat \<times> int" where
  "bucketParams E limit burst window =
     (let limit = (if limit \<le> 0 then 0 else limit);
          burst = (if burst \<le> 0 then limit else burst);
          w = fl E (seconds_of window);
          w = (if w \<le> 0 then 1 else w);
          rate = fl E (of_int limit / w);
          capacity = of_int burst;
          ttlSec = \<lceil>fl E (w * 3)\<rceil>;
          ttlSec = (if ttlSec < 60 then 60 else ttlSec);
          ttlSec = (if ttlSec > 86400 * 7 then 86400 * 7 else ttlSec)
      in (rate, capacity, ttlSec))"

definition runBucket :: "env \<Rightarrow> string \<Rightarrow> rat \<times> rat \<times> int \<Rightarrow> bool io" where
  "runBucket E key params = do {
     r \<leftarrow> (case params of (rate, capacity, ttl) \<Rightarrow> call (tokenBucketScript E key rate capacity ttl));
     case r of
       Inl e \<Rightarrow> return (Inl (Wrapped ''rate limiter redis error'' e))
     | Inr allowed \<Rightarrow> return (Inr (allowed = 1)) }"

definition user_limit_key :: "u64 \<Rightarrow> string" where
  "user_limit_key u = ''seckill:ratelimit:user:'' @ show_word u"

definition global_limit_key :: string where
  "global_limit_key = ''seckill:ratelimit:global:tokenbucket''"

definition activity_limit_key :: "u64 \<Rightarrow> string" where
  "activity_limit_key a = ''seckill:ratelimit:activity:'' @ show_word a"

definition UserRateLimit :: "env \<Rightarrow> u64 \<Rightarrow> int \<Rightarrow> int \<Rightarrow> Time \<Rightarrow> bool io" where
  "UserRateLimit E u limit burst window = runBucket E (user_limit_key u) (bucketParams E limit burst window)"

definition GlobalRateLimit :: "env \<Rightarrow> int \<Rightarrow> int \<Rightarrow> Time \<Rightarrow> bool io" where
  "GlobalRateLimit E limit burst window = runBucket E global_limit_key (bucketParams E limit burst window)"

definition ActivityRateLimit :: "env \<Rightarrow> u64 \<Rightarrow> int \<Rightarrow> int \<Rightarrow> Time \<Rightarrow> bool io" where
  "ActivityRateLimit E a limit burst window =
     runBucket E (activity_limit_key a) (bucketParams E limit burst window)"

definition rateLimiter :: "env \<Rightarrow> RateLimiter" where
  "rateLimiter E = \<lparr>limiter_UserRateLimit = UserRateLimit E, limiter_GlobalRateLimit = GlobalRateLimit E,
     limiter_ActivityRateLimit = ActivityRateLimit E\<rparr>"

section \<open>Frames\<close>

lemma neutral_CheckAndMark [frame]: "redis_neutral f \<Longrightarrow> same f (CheckAndMark r t)"
  unfolding CheckAndMark_def by (intro frame)

lemma neutral_bucket: "redis_neutral f \<Longrightarrow> f (snd (tokenBucketScript E key rate capacity ttl w)) = f w"
  by (simp add: tokenBucketScript_def Let_def neutral_rules split: sum.split)

lemma neutral_runBucket [frame]: "redis_neutral f \<Longrightarrow> same f (runBucket E key params)"
  unfolding runBucket_def by (intro frame neutral_same_call) (simp_all add: neutral_bucket)

lemma neutral_limits [frame]:
  assumes "redis_neutral f"
  shows "same f (UserRateLimit E u l b d)" "same f (GlobalRateLimit E l b d)" "same f (ActivityRateLimit E a l b d)"
  using assms by (simp_all add: UserRateLimit_def GlobalRateLimit_def ActivityRateLimit_def neutral_runBucket)

section \<open>Correctness\<close>

subsection \<open>At most one request passes\<close>

lemma CheckAndMark_first:
  assumes "run_state (CheckAndMark r ttl) w = (Inr True, w')"
  shows "\<not> marked r w \<and> marked r w'"
proof -
  obtain rs where "(if ttl \<le> 0 then (Inl InvalidExpire, w\<lparr>replies := rs\<rparr>)
     else if rexists (idempotent_key r) (w\<lparr>replies := rs\<rparr>) then (Inr False, w\<lparr>replies := rs\<rparr>)
     else (Inr True, rput (idempotent_key r) (RStr (SInt 1)) (Some (clock (w\<lparr>replies := rs\<rparr>) + ttl)) (w\<lparr>replies := rs\<rparr>)))
     = (Inr True, w')"
    using assms unfolding CheckAndMark_def rdb_SetNX_def by (rule call_Inr)
  then show ?thesis by (auto simp: marked_def split: if_splits)
qed

lemma CheckAndMark_marked:
  assumes "marked r w" and "run_state (CheckAndMark r ttl) w = (q, w')"
  shows "q \<noteq> Inr True \<and> (\<exists>rs. w' = w\<lparr>replies := rs\<rparr>)"
  using assms(2) unfolding CheckAndMark_def rdb_SetNX_def
  by (cases rule: call_cases) (use assms(1) in \<open>auto simp: marked_def split: if_splits\<close>)

subsection \<open>The bucket stays within its capacity\<close>

text \<open>What is used of the rounding of doubles: it is monotone and exact at the numbers named.\<close>

definition rounds_to :: "(rat \<Rightarrow> rat) \<Rightarrow> rat set \<Rightarrow> bool" where
  "rounds_to r X \<longleftrightarrow> mono r \<and> (\<forall>x \<in> X. r x = x)"

definition bucket_tokens :: "string \<Rightarrow> world \<Rightarrow> rat option" where
  "bucket_tokens key w = (case hash_get key ''tokens'' w of Inr (Some v) \<Rightarrow> to_number v | _ \<Rightarrow> None)"

definition bucket_ok :: "string \<Rightarrow> rat \<Rightarrow> world \<Rightarrow> bool" where
  "bucket_ok key capacity w \<longleftrightarrow> (case bucket_tokens key w of None \<Rightarrow> True | Some x \<Rightarrow> 0 \<le> x \<and> x \<le> capacity)"

lemma refill_bounds:
  assumes fl: "rounds_to (fl E) {0}" and "0 \<le> rate" "0 \<le> capacity"
    and "\<And>v x. ts = Some v \<Longrightarrow> to_number v = Some x \<Longrightarrow> 0 \<le> x"
  shows "0 \<le> refill E rate capacity now ts ls \<and> refill E rate capacity now ts ls \<le> capacity"
proof -
  have nn: "0 \<le> fl E x" if "0 \<le> x" for x
    using fl that unfolding rounds_to_def by (metis insertI1 monoD)
  show ?thesis
    using assms nn by (auto simp: refill_def Let_def split: option.splits)
qed

lemma fix12_bounds:
  assumes "0 \<le> x" and "x \<le> of_nat n"
  shows "\<exists>y. to_number (fix12 x) = Some y \<and> 0 \<le> y \<and> y \<le> of_nat n"
proof -
  let ?k = "round (x * 10 ^ 12)"
  have "round (0::rat) \<le> ?k" by (rule round_mono) (use assms in simp)
  moreover have "?k \<le> round (of_nat n * 10 ^ 12 :: rat)" by (rule round_mono) (use assms in simp)
  moreover have "round (of_nat n * 10 ^ 12 :: rat) = int n * 10 ^ 12"
    using round_of_int [of "int n * 10 ^ 12", where 'a = rat] by simp
  ultimately have "0 \<le> ?k" "?k \<le> int n * 10 ^ 12" by simp_all
  then have "(of_int ?k :: rat) \<le> of_int (int n * 10 ^ 12)" and "(0::rat) \<le> of_int ?k"
    by (simp_all only: of_int_le_iff of_int_0_le_iff)
  then have "of_int ?k / 10 ^ 12 \<le> (of_nat n :: rat)" and "(0::rat) \<le> of_int ?k / 10 ^ 12"
    by (simp_all add: divide_le_eq)
  moreover have "to_number (fix12 x) = Some (of_int ?k / 10 ^ 12)"
    by (simp add: fix12_def to_number_def)
  ultimately show ?thesis by blast
qed

lemma hash_get_replies [simp]: "hash_get k f (w\<lparr>replies := rs\<rparr>) = hash_get k f w"
  by (simp add: hash_get_def)

lemma bucket_step:
  assumes fl: "rounds_to (fl E) {0, of_nat n}" and rate: "0 \<le> rate"
    and ok: "bucket_ok key (of_nat n) w" and ttl: "0 < ttl"
  shows "bucket_ok key (of_nat n) (snd (tokenBucketScript E key rate (of_nat n) ttl w))"
proof (cases "\<exists>ts ls. hash_get key ''tokens'' w = Inr ts \<and> hash_get key ''last'' w = Inr ls")
  case False
  then have "snd (tokenBucketScript E key rate (of_nat n) ttl w) = w"
    by (cases "hash_get key ''tokens'' w"; cases "hash_get key ''last'' w")
      (auto simp: tokenBucketScript_def Let_def)
  then show ?thesis using ok by simp
next
  case True
  then obtain ts ls where h: "hash_get key ''tokens'' w = Inr ts" "hash_get key ''last'' w = Inr ls" by blast
  let ?x = "refill E rate (of_nat n) (clock w div microsecond) ts ls"
  let ?y = "if 1 \<le> ?x then fl E (?x - 1) else ?x"
  have "rounds_to (fl E) {0}" using fl by (simp add: rounds_to_def)
  moreover have "0 \<le> x" if "ts = Some v" "to_number v = Some x" for v x
    using ok h that by (simp add: bucket_ok_def bucket_tokens_def)
  ultimately have x: "0 \<le> ?x \<and> ?x \<le> of_nat n" using rate by (intro refill_bounds) auto
  have mono: "mono (fl E)" and fl0: "fl E 0 = 0" and fln: "fl E (of_nat n) = of_nat n"
    using fl by (auto simp: rounds_to_def)
  have "0 \<le> ?y" using x monoD [OF mono, of 0 "?x - 1"] fl0 by simp
  moreover have "?y \<le> of_nat n" using x monoD [OF mono, of "?x - 1" "of_nat n"] fln by simp
  ultimately obtain z where z: "to_number (fix12 ?y) = Some z" "0 \<le> z" "z \<le> of_nat n"
    using fix12_bounds by blast
  have "hash_get key ''tokens'' (snd (tokenBucketScript E key rate (of_nat n) ttl w)) = Inr (Some (fix12 ?y))"
    using h ttl by (simp add: tokenBucketScript_def Let_def hash_get_def [of key "''tokens''" "rput _ _ _ _"] update_conv')
  then show ?thesis using z by (simp add: bucket_ok_def bucket_tokens_def)
qed

lemma bucketParams_capacity:
  "bucketParams E limit burst window = (rate, capacity, ttl) \<Longrightarrow>
     capacity = of_nat (nat (if burst \<le> 0 then max limit 0 else burst)) \<and> 60 \<le> ttl \<and> ttl \<le> 604800"
  by (auto simp: bucketParams_def Let_def)

lemma bucketParams_rate:
  assumes "rounds_to (fl E) {0}" and "bucketParams E limit burst window = (rate, capacity, ttl)"
  shows "0 \<le> rate"
proof -
  have mono: "mono (fl E)" and fl0: "fl E 0 = 0" using assms by (auto simp: rounds_to_def)
  have nn: "0 \<le> fl E x" if "0 \<le> x" for x using monoD [OF mono that] fl0 by simp
  show ?thesis using assms(2) by (auto simp: bucketParams_def Let_def intro!: nn split: if_splits)
qed

lemma runBucket_Inr:
  "run_state (runBucket E key (rate, capacity, ttl)) w = (Inr b, w') \<Longrightarrow>
     \<exists>n rs. tokenBucketScript E key rate capacity ttl (w\<lparr>replies := rs\<rparr>) = (Inr n, w') \<and> b = (n = 1)"
  by (auto simp: runBucket_def split: prod.splits sum.splits elim!: call_Inr)

lemma bucket_ok_replies [simp]: "bucket_ok key c (w\<lparr>replies := rs\<rparr>) = bucket_ok key c w"
  by (simp add: bucket_ok_def bucket_tokens_def)

lemma keeps_runBucket:
  assumes "rounds_to (fl E) {0, of_nat n}" and "0 \<le> rate" and "0 < ttl"
  shows "keeps (bucket_ok key (of_nat n)) (runBucket E key (rate, of_nat n, ttl))"
  unfolding runBucket_def using bucket_step [OF assms(1,2) _ assms(3)] by (auto intro!: inv_rules)

end
