(* ===== verification/Order_Biz.thy ===== *)
theory Order_Biz
  imports Mysql_Repo Cache_Guards
begin

text \<open>
  The order operations of \<open>internal/biz/seckill.go\<close> and \<open>order_cancel.go\<close> after the
  reservation: confirmation, rollback, replay, cancellation and the two queries.  Each takes
  the usecase record, as the methods take their receiver.
\<close>

section \<open>Cancellation\<close>

definition cancel_body :: "OrderCancelService \<Rightarrow> string \<Rightarrow> OrderInfo io" where
  "cancel_body s orderNo =
     bindE (on_error (Wrapped (utf8 [232, 142, 183, 229, 143, 150, 232, 174, 162, 229, 141, 149, 229, 164, 177, 232, 180, 165])) (repo_GetOrderForUpdate (ocs_repo s) orderNo)) (\<lambda>order.
     if oi_Status order \<noteq> OrderStatusPending then return (Inr order)
     else
       bindE (on_error (Wrapped (utf8 [230, 155, 180, 230, 150, 176, 232, 174, 162, 229, 141, 149, 231, 138, 182, 230, 128, 129, 229, 164, 177, 232, 180, 165]))
                (repo_UpdateOrderStatus (ocs_repo s) orderNo OrderStatusPending OrderStatusCancel)) (\<lambda>_.
       bindE (on_error (Wrapped (utf8 [230, 129, 162, 229, 164, 141, 32, 77, 121, 83, 81, 76, 32, 229, 186, 147, 229, 173, 152, 229, 164, 177, 232, 180, 165]))
                (repo_RestoreStock (ocs_repo s) (oi_SkuID order) (u32_of (oi_Quantity order)))) (\<lambda>_.
       bindE (if oi_CouponID order > 0
              then on_error (Wrapped (utf8 [230, 129, 162, 229, 164, 141, 228, 188, 152, 230, 131, 160, 229, 136, 184, 229, 164, 177, 232, 180, 165])) (repo_RestoreUserCoupon (ocs_repo s) (oi_CouponID order))
              else return (Inr ())) (\<lambda>_.
       return (Inr order)))))"

definition CancelTimeoutOrder :: "OrderCancelService \<Rightarrow> string \<Rightarrow> unit io" where
  "CancelTimeoutOrder s orderNo =
     bindE (ExecTx (cancel_body s orderNo)) (\<lambda>order.
     if oi_Status order \<noteq> OrderStatusPending then return (Inr ())
     else do {
       _ \<leftarrow> cache_RollbackStock (ocs_cache s) (oi_ActivityID order) (oi_SkuID order) (oi_Quantity order);
       _ \<leftarrow> cache_RemoveUserBuy (ocs_cache s) (oi_ActivityID order) (oi_SkuID order) (oi_UserID order);
       return (Inr ()) })"

definition CancelOrder :: "SeckillUsecase \<Rightarrow> string \<Rightarrow> u64 \<Rightarrow> unit io" where
  "CancelOrder uc orderNo userID =
     bindE (repo_GetOrder (uc_Repo uc) orderNo) (\<lambda>order.
     if oi_UserID order \<noteq> userID then return (Inl ErrUserNotMatch)
     else CancelTimeoutOrder (uc_Canceler uc) orderNo)"

section \<open>Confirmation\<close>

text \<open>The amounts of a message, recomputed where it has none.\<close>

definition confirm_order_amount :: "SeckillOrderMessage \<Rightarrow> u64" where
  "confirm_order_amount msg =
     (if msg_OrderAmount msg = 0 then msg_SeckillPrice msg * u64_of (msg_Quantity msg) else msg_OrderAmount msg)"

definition confirm_final_amount :: "SeckillOrderMessage \<Rightarrow> u64" where
  "confirm_final_amount msg =
     (if msg_FinalAmount msg = 0
      then (if confirm_order_amount msg < msg_CouponDiscount msg then 0
            else confirm_order_amount msg - msg_CouponDiscount msg)
      else msg_FinalAmount msg)"

definition order_of :: "SeckillOrderMessage \<Rightarrow> Order" where
  "order_of msg = \<lparr>ord_OrderNo = msg_OrderNo msg, ord_UserID = msg_UserID msg, ord_RequestID = msg_RequestID msg,
     ord_ActivityID = msg_ActivityID msg, ord_ProductID = msg_ProductID msg, ord_SkuID = msg_SkuID msg,
     ord_ProductName = msg_ProductName msg, ord_ProductImage = msg_ProductImage msg,
     ord_SeckillPrice = msg_SeckillPrice msg, ord_Quantity = msg_Quantity msg,
     ord_OrderAmount = confirm_order_amount msg, ord_CouponID = msg_CouponID msg,
     ord_CouponDiscount = msg_CouponDiscount msg, ord_FinalAmount = confirm_final_amount msg,
     ord_AddressID = msg_AddressID msg, ord_Status = OrderStatusPending\<rparr>"

definition confirm_body :: "SeckillRepo \<Rightarrow> SeckillOrderMessage \<Rightarrow> unit io" where
  "confirm_body repo msg =
     bindE (repo_GetUserAddress repo (msg_AddressID msg)) (\<lambda>address.
     bindE (repo_CreateOrder repo (order_of msg)) (\<lambda>orderNo.
     if orderNo \<noteq> msg_OrderNo msg then return (Inl ErrOrderExists)
     else
       bindE (repo_CreateOrderShipping repo orderNo address) (\<lambda>_.
       repo_DecreaseStock repo (msg_SkuID msg) (u32_of (msg_Quantity msg)) (msg_Version msg))))"

definition OrderTimeoutMinutes :: int where "OrderTimeoutMinutes = 15"
definition OrderTimeoutSeconds :: int where "OrderTimeoutSeconds = OrderTimeoutMinutes * 60"

definition ConfirmSeckillOrder :: "SeckillUsecase \<Rightarrow> SeckillOrderMessage \<Rightarrow> unit io" where
  "ConfirmSeckillOrder uc msg =
     bindE (ExecTx (confirm_body (uc_Repo uc) msg)) (\<lambda>_. do {
       _ \<leftarrow> cache_DeletePendingReservation (uc_Cache uc) (msg_RequestID msg);
       _ \<leftarrow> delay_Add (uc_DelayQueue uc) (msg_OrderNo msg) (OrderTimeoutMinutes * minute);
       return (Inr ()) })"

section \<open>Rollback of a reservation\<close>

text \<open>The coupon goes back in two calls whose errors are dropped.\<close>

definition give_back_coupon :: "SeckillUsecase \<Rightarrow> u64 \<Rightarrow> (world, unit) state" where
  "give_back_coupon uc couponID =
     (if couponID > 0 then do {
        _ \<leftarrow> repo_RestoreUserCoupon (uc_Repo uc) couponID;
        _ \<leftarrow> cache_DeleteCoupon (uc_Cache uc) couponID;
        return () }
      else return ())"

definition RollbackSeckillReservation :: "SeckillUsecase \<Rightarrow> SeckillOrderMessage \<Rightarrow> unit io" where
  "RollbackSeckillReservation uc msg =
     bindE (cache_RollbackStock (uc_Cache uc) (msg_ActivityID msg) (msg_SkuID msg) (msg_Quantity msg)) (\<lambda>_.
     bindE (cache_RemoveUserBuy (uc_Cache uc) (msg_ActivityID msg) (msg_SkuID msg) (msg_UserID msg)) (\<lambda>_. do {
       give_back_coupon uc (msg_CouponID msg);
       _ \<leftarrow> cache_DeletePendingReservation (uc_Cache uc) (msg_RequestID msg);
       return (Inr ()) }))"

section \<open>Replay of a dead letter\<close>

definition decode_raw :: "raw \<Rightarrow> error + SeckillOrderMessage" where
  "decode_raw r = (case r of RawOrder m \<Rightarrow> Inr m | RawText _ \<Rightarrow> Inl JsonError)"

definition replay_message :: "DeadLetterMessage \<Rightarrow> SeckillOrderMessage \<Rightarrow> SeckillOrderMessage" where
  "replay_message dlq msg =
     (let msg = (if msg_TraceID msg = [] then msg\<lparr>msg_TraceID := dl_TraceID dlq\<rparr> else msg);
          msg = msg\<lparr>msg_RetryCount := wrap64 (dl_RetryCount dlq + 1)\<rparr>
      in if msg_EventID msg = [] then msg\<lparr>msg_EventID := dl_EventID dlq\<rparr> else msg)"

definition ReplayDeadLetter :: "SeckillUsecase \<Rightarrow> string \<Rightarrow> unit io" where
  "ReplayDeadLetter uc eventID =
     bindE (repo_GetDeadLetterMessageByEventID (uc_Repo uc) eventID) (\<lambda>dlq.
     bindE (return (decode_raw (dl_RawPayload dlq))) (\<lambda>decoded.
       let msg = replay_message dlq decoded in
       bindE (mq_SendToRetry (uc_MQ uc) msg (msg_RetryCount msg) (10 * second)) (\<lambda>_.
       repo_MarkDeadLetterReplayed (uc_Repo uc) eventID)))"

section \<open>Queries\<close>

definition GetSeckillOrder :: "SeckillUsecase \<Rightarrow> string \<Rightarrow> u64 \<Rightarrow> OrderInfo io" where
  "GetSeckillOrder uc orderNo userID =
     bindE (repo_GetOrder (uc_Repo uc) orderNo) (\<lambda>order.
     if oi_UserID order \<noteq> userID then return (Inl ErrUserNotMatch) else return (Inr order))"

definition seckill_result :: "OrderInfo \<Rightarrow> SeckillResult" where
  "seckill_result order =
     (if oi_Status order = OrderStatusPending
      then \<lparr>srs_Status = 1, srs_OrderNo = oi_OrderNo order, srs_Message = utf8 [228, 184, 139, 229, 141, 149, 230, 136, 144, 229, 138, 159, 239, 188, 140, 229, 190, 133, 230, 148, 175, 228, 187, 152],
            srs_OrderAmount = oi_OrderAmount order\<rparr>
      else if oi_Status order = OrderStatusPaid
      then \<lparr>srs_Status = 1, srs_OrderNo = oi_OrderNo order, srs_Message = utf8 [230, 148, 175, 228, 187, 152, 230, 136, 144, 229, 138, 159],
            srs_OrderAmount = oi_FinalAmount order\<rparr>
      else if oi_Status order = OrderStatusCancel
      then \<lparr>srs_Status = 2, srs_OrderNo = oi_OrderNo order, srs_Message = utf8 [232, 174, 162, 229, 141, 149, 229, 183, 178, 229, 143, 150, 230, 182, 136], srs_OrderAmount = 0\<rparr>
      else \<lparr>srs_Status = 2, srs_OrderNo = oi_OrderNo order, srs_Message = utf8 [232, 174, 162, 229, 141, 149, 231, 138, 182, 230, 128, 129, 229, 188, 130, 229, 184, 184], srs_OrderAmount = 0\<rparr>)"

definition GetSeckillResult :: "SeckillUsecase \<Rightarrow> u64 \<Rightarrow> string \<Rightarrow> SeckillResult io" where
  "GetSeckillResult uc userID requestID =
     (if requestID = [] then return (Inl (Plain (utf8 [114, 101, 113, 117, 101, 115, 116, 95, 105, 100, 32, 228, 184, 141, 232, 131, 189, 228, 184, 186, 231, 169, 186])))
      else do {
        r \<leftarrow> repo_GetOrderByRequestID (uc_Repo uc) requestID;
        case r of
          Inl e \<Rightarrow>
            if errors_is e ErrOrderNotFound
            then return (Inr \<lparr>srs_Status = 0, srs_OrderNo = [], srs_Message = utf8 [229, 164, 132, 231, 144, 134, 228, 184, 173], srs_OrderAmount = 0\<rparr>)
            else return (Inl e)
        | Inr order \<Rightarrow>
            if oi_UserID order \<noteq> userID then return (Inl ErrUserNotMatch)
            else return (Inr (seckill_result order)) })"

end
