(* ===== verification/Pay_Biz.thy ===== *)
theory Pay_Biz
  imports Order_Biz
begin

text \<open>Payment in \<open>internal/biz/seckill.go\<close>: creating the payment and handling the callback.\<close>

definition PayStatusCreated :: string where "PayStatusCreated = ''CREATED''"
definition PayStatusSuccess :: string where "PayStatusSuccess = ''SUCCESS''"
definition PayStatusFailed :: string where "PayStatusFailed = ''FAILED''"
definition PayStatusSuccessButOrderCanceled :: string where
  "PayStatusSuccessButOrderCanceled = ''SUCCESS_BUT_ORDER_CANCELED''"
definition mockPaySecret :: string where "mockPaySecret = ''seckill_mock_pay_secret''"

lemmas pay_status_defs = PayStatusCreated_def PayStatusSuccess_def PayStatusFailed_def
  PayStatusSuccessButOrderCanceled_def

section \<open>Creating a payment\<close>

definition isOrderTimeout :: "env \<Rightarrow> Time \<Rightarrow> string \<Rightarrow> bool" where
  "isOrderTimeout E now createTime = (case parse_time E createTime of
       None \<Rightarrow> True
     | Some t \<Rightarrow> OrderTimeoutMinutes * minute < now - t)"

definition pay_result :: "u64 \<Rightarrow> string \<Rightarrow> PayOrderResult" where
  "pay_result amount number = \<lparr>pos_Success = True, pos_PayAmount = amount, pos_PlatformNumber = number, pos_Message = []\<rparr>"

definition pay_body :: "env \<Rightarrow> SeckillUsecase \<Rightarrow> PayOrderRequest \<Rightarrow> PayOrderResult io" where
  "pay_body E uc req =
     bindE (repo_GetOrderForUpdate (uc_Repo uc) (por_OrderNo req)) (\<lambda>order.
     if oi_UserID order \<noteq> por_UserID req then return (Inl ErrUserNotMatch)
     else if oi_Status order \<noteq> OrderStatusPending then return (Inl ErrOrderStatusIncorrect)
     else do {
       now \<leftarrow> Now;
       if isOrderTimeout E now (oi_CreateTime order) then return (Inl ErrOrderTimeout)
       else do {
         i \<leftarrow> idgen_NextString (uc_IDGen uc);
         let number = ''P'' @ i;
         r \<leftarrow> repo_CreatePayInfo (uc_Repo uc) \<lparr>pay_OrderNo = por_OrderNo req, pay_UserID = por_UserID req,
                pay_PayPlatform = por_PayPlatform req, pay_PlatformNumber = number,
                pay_PlatformStatus = PayStatusCreated, pay_PayAmount = oi_FinalAmount order, pay_PayTime = None\<rparr>;
         case r of
           Inr _ \<Rightarrow> return (Inr (pay_result (oi_FinalAmount order) number))
         | Inl e \<Rightarrow>
             if errors_is e ErrPaymentExists
             then bindE (repo_GetPayInfoByOrderNo (uc_Repo uc) (por_OrderNo req)) (\<lambda>exist.
                    return (Inr (pay_result (oi_FinalAmount order) (pay_PlatformNumber exist))))
             else return (Inl (Wrapped (utf8 [229, 136, 155, 229, 187, 186, 230, 148, 175, 228, 187, 152, 229, 141, 149, 229, 164, 177, 232, 180, 165]) e)) } })"

definition PaySeckillOrder :: "env \<Rightarrow> SeckillUsecase \<Rightarrow> PayOrderRequest \<Rightarrow> PayOrderResult io" where
  "PaySeckillOrder E uc req = ExecTx (pay_body E uc req)"

section \<open>The payment callback\<close>

definition buildPayCallbackSign :: "env \<Rightarrow> PayCallbackRequest \<Rightarrow> string" where
  "buildPayCallbackSign E req = md5_hex E (pcr_OrderNo req @ ''|'' @ pcr_PlatformNumber req @ ''|'' @
     show_word (pcr_PayAmount req) @ ''|'' @ pcr_PlatformStatus req @ ''|'' @ show_int (pcr_PayTime req) @ ''|'' @
     mockPaySecret)"

definition verifyPayCallbackSign :: "env \<Rightarrow> PayCallbackRequest \<Rightarrow> error option" where
  "verifyPayCallbackSign E req =
     (if buildPayCallbackSign E req \<noteq> pcr_Sign req then Some (Plain ''invalid payment callback sign'') else None)"

definition callback_result :: "string \<Rightarrow> PayCallbackResult" where
  "callback_result m = \<lparr>pcs_Success = True, pcs_Message = m\<rparr>"

definition callback_body :: "SeckillRepo \<Rightarrow> PayCallbackRequest \<Rightarrow> PayCallbackResult io" where
  "callback_body repo req =
     bindE (repo_GetPayInfoByPlatformNumber repo (pcr_PlatformNumber req)) (\<lambda>payInfo.
     if pay_OrderNo payInfo \<noteq> pcr_OrderNo req then return (Inl (Plain (utf8 [230, 148, 175, 228, 187, 152, 230, 181, 129, 230, 176, 180, 232, 174, 162, 229, 141, 149, 228, 184, 141, 229, 140, 185, 233, 133, 141])))
     else if pay_PayAmount payInfo \<noteq> pcr_PayAmount req then return (Inl ErrPayAmountMismatch)
     else if pay_PlatformStatus payInfo = PayStatusSuccess
          \<or> pay_PlatformStatus payInfo = PayStatusSuccessButOrderCanceled
       then return (Inr (callback_result ''duplicate callback ignored''))
     else
       bindE (repo_GetOrderForUpdate repo (pcr_OrderNo req)) (\<lambda>order.
       let payTime = pcr_PayTime req * second in
       if pcr_PlatformStatus req \<noteq> PayStatusSuccess
         then bindE (repo_UpdatePayInfoStatus repo (pcr_PlatformNumber req) PayStatusFailed (Some payTime)) (\<lambda>_.
                return (Inr (callback_result ''payment failed recorded'')))
       else if oi_Status order = OrderStatusPaid
         then bindE (repo_UpdatePayInfoStatus repo (pcr_PlatformNumber req) PayStatusSuccess (Some payTime)) (\<lambda>_.
                return (Inr (callback_result ''order already paid'')))
       else if oi_Status order = OrderStatusCancel
         then bindE (repo_UpdatePayInfoStatus repo (pcr_PlatformNumber req) PayStatusSuccessButOrderCanceled (Some payTime)) (\<lambda>_.
                return (Inr (callback_result ''order canceled, payment recorded for refund'')))
       else if oi_Status order \<noteq> OrderStatusPending then return (Inl ErrOrderStatusIncorrect)
       else
         bindE (repo_UpdateOrderStatus repo (pcr_OrderNo req) OrderStatusPending OrderStatusPaid) (\<lambda>_.
         bindE (repo_UpdatePayInfoStatus repo (pcr_PlatformNumber req) PayStatusSuccess (Some payTime)) (\<lambda>_.
         return (Inr (callback_result ''payment success''))))))"

text \<open>A bad signature returns an error together with a result the caller drops.\<close>

definition HandlePayCallback :: "env \<Rightarrow> SeckillUsecase \<Rightarrow> PayCallbackRequest \<Rightarrow> PayCallbackResult io" where
  "HandlePayCallback E uc req = (case verifyPayCallbackSign E req of
       Some e \<Rightarrow> return (Inl e)
     | None \<Rightarrow> ExecTx (callback_body (uc_Repo uc) req))"


section \<open>The balance of a SKU over the order flow\<close>

text \<open>
  What a wired usecase has: the ledger's repository, a cache that leaves the databases alone,
  and a delay queue, an identifier generator and a canceller that do too.
\<close>

locale order_flow =
  order_ledger "uc_Repo uc" wf avail sold order_view + cache_frame "uc_Cache uc"
  for uc :: SeckillUsecase and wf avail sold order_view +
  assumes delay_core: "same core (delay_Add (uc_DelayQueue uc) n d)"
    and idgen_core: "same core (idgen_NextString (uc_IDGen uc))"
    and canceler: "uc_Canceler uc = \<lparr>ocs_repo = uc_Repo uc, ocs_cache = uc_Cache uc\<rparr>"
begin

lemma yields_inv_bindE:
  "yields I m (\<lambda>_. I) \<Longrightarrow> (\<And>x. yields I (f x) (\<lambda>_. I)) \<Longrightarrow> yields I (bindE m f) (\<lambda>_. I)"
  by (rule yields_bindE)

lemma yields_inv_return: "yields I (return (Inr x)) (\<lambda>_. I)"
  by (rule yields_return)

lemma keeps_balanced_tx: "yields (balanced t k) fn (\<lambda>_. balanced t k) \<Longrightarrow> keeps (balanced t k) (ExecTx fn)"
  by (rule keeps_ExecTx) (auto simp: balanced_def dest: yieldsD)

lemma yields_balanced: "same core m \<Longrightarrow> yields (balanced t k) m (\<lambda>_. balanced t k)"
  by (rule yields_keeps) (rule keeps_balanced)

subsection \<open>Confirmation\<close>

lemma confirm_body_balanced: "yields (balanced t k) (confirm_body (uc_Repo uc) msg) (\<lambda>_. balanced t k)"
proof -
  let ?q = "if t = msg_SkuID msg then uint (u32_of (msg_Quantity msg)) else 0"
  have 1: "yields (balanced t k) (repo_CreateOrder (uc_Repo uc) (order_of msg)) (\<lambda>n. balanced t (k + ?q))"
    by (rule yieldsI) (auto simp: balanced_def order_of_def dest: create [where t = t])
  have 2: "yields (balanced t (k + ?q)) (repo_CreateOrderShipping (uc_Repo uc) n a) (\<lambda>_. balanced t (k + ?q))" for n a
    by (rule yieldsI) (auto simp: balanced_def dest: ship [where t = t])
  have 3: "yields (balanced t (k + ?q)) (repo_DecreaseStock (uc_Repo uc) (msg_SkuID msg) (u32_of (msg_Quantity msg)) v)
      (\<lambda>_. balanced t k)" for v
    by (rule yieldsI) (auto simp: balanced_def dest: decrease [where t = t])
  show ?thesis unfolding confirm_body_def
    by (rule yields_bindE yields_if yields_error yields_balanced [OF address_core] 1 2 3)+
qed

lemma confirm_balanced: "keeps (balanced t k) (ConfirmSeckillOrder uc msg)"
  unfolding ConfirmSeckillOrder_def
  by (intro inv_rules keeps_balanced_tx confirm_body_balanced keeps_balanced same_db_part(1) [OF db_DeletePending] delay_core)

subsection \<open>Cancellation\<close>

lemma coupon_balanced: "keeps (balanced t k) (repo_RestoreUserCoupon (uc_Repo uc) c)"
proof (rule keepsI)
  fix w assume "balanced t k w"
  then show "balanced t k (snd (run_state (repo_RestoreUserCoupon (uc_Repo uc) c) w))"
    using user_coupon [of w c _ "snd (run_state (repo_RestoreUserCoupon (uc_Repo uc) c) w)" t]
    by (auto simp: balanced_def prod_eq_iff)
qed

lemma cancel_body_balanced: "yields (balanced t k) (cancel_body (uc_Canceler uc) n) (\<lambda>_. balanced t k)"
proof -
  let ?V = "\<lambda>oi w. balanced t k w \<and> order_view n (core w) = Some (oi_SkuID oi, oi_Quantity oi, oi_Status oi)"
  let ?q = "\<lambda>oi. if t = oi_SkuID oi then oi_Quantity oi else 0"
  have 1: "yields (balanced t k) (repo_GetOrderForUpdate (uc_Repo uc) n) ?V"
  proof (rule yieldsI)
    fix w x w' assume "balanced t k w" and run: "run_state (repo_GetOrderForUpdate (uc_Repo uc) n) w = (Inr x, w')"
    then show "?V x w'"
      using view_order [OF run] sameD [OF view_core run] balanced_core [OF sameD [OF view_core run]] by simp
  qed
  have 2: "yields (\<lambda>w. ?V oi w \<and> oi_Status oi = OrderStatusPending)
      (repo_UpdateOrderStatus (uc_Repo uc) n OrderStatusPending OrderStatusCancel)
      (\<lambda>_ w. balanced t (k - ?q oi) w \<and> 0 \<le> oi_Quantity oi \<and> oi_Quantity oi < 2 ^ 32)" for oi
  proof (rule yieldsI)
    fix w x w' assume P: "?V oi w \<and> oi_Status oi = OrderStatusPending"
      and run: "run_state (repo_UpdateOrderStatus (uc_Repo uc) n OrderStatusPending OrderStatusCancel) w = (Inr x, w')"
    have v: "order_view n (core w) = Some (oi_SkuID oi, oi_Quantity oi, 0)"
      using P by (simp add: order_status_defs)
    have b: "wf (core w)" "avail t (core w) + sold t (core w) = k" using P by (simp_all add: balanced_def)
    have run: "run_state (repo_UpdateOrderStatus (uc_Repo uc) n 0 2) w = (Inr (), w')"
      using run by (simp add: order_status_defs)
    show "balanced t (k - ?q oi) w' \<and> 0 \<le> oi_Quantity oi \<and> oi_Quantity oi < 2 ^ 32"
      using cancel [OF b(1) v run, of t] view_range [OF v] b(2) by (simp add: balanced_def)
  qed
  have 3: "yields (\<lambda>w. balanced t (k - ?q oi) w \<and> 0 \<le> oi_Quantity oi \<and> oi_Quantity oi < 2 ^ 32)
      (repo_RestoreStock (uc_Repo uc) (oi_SkuID oi) (u32_of (oi_Quantity oi))) (\<lambda>_. balanced t k)" for oi
  proof (rule yieldsI)
    fix w x w' assume P: "balanced t (k - ?q oi) w \<and> 0 \<le> oi_Quantity oi \<and> oi_Quantity oi < 2 ^ 32"
      and run: "run_state (repo_RestoreStock (uc_Repo uc) (oi_SkuID oi) (u32_of (oi_Quantity oi))) w = (Inr x, w')"
    have q: "uint (u32_of (oi_Quantity oi)) = oi_Quantity oi" using P by (simp add: uint_word_of_int)
    show "balanced t k w'"
      using P run restore [of w "oi_SkuID oi" "u32_of (oi_Quantity oi)" w' t] unfolding q
      by (auto simp: balanced_def split: if_splits)
  qed
  have upd: "yields (?V oi) (repo_UpdateOrderStatus (uc_Repo uc) n OrderStatusPending OrderStatusCancel)
      (\<lambda>_ w. balanced t (k - ?q oi) w \<and> 0 \<le> oi_Quantity oi \<and> oi_Quantity oi < 2 ^ 32)"
    if "oi_Status oi = OrderStatusPending" for oi
    by (rule yields_weaken [OF 2 [of oi]]) (use that in auto)
  show ?thesis unfolding cancel_body_def canceler OrderCancelService.select_convs
    by (rule yields_bindE yields_on_error 1 | rule yields_if yields_return upd 3 yields_keeps [OF coupon_balanced]
        | simp | blast)+
qed

lemma cancel_balanced: "keeps (balanced t k) (CancelTimeoutOrder (uc_Canceler uc) n)"
  unfolding CancelTimeoutOrder_def
proof (intro inv_rules keeps_balanced_tx cancel_body_balanced)
  fix order :: OrderInfo
  show "keeps (balanced t k) (cache_RollbackStock (ocs_cache (uc_Canceler uc)) (oi_ActivityID order) (oi_SkuID order) (oi_Quantity order))"
    "keeps (balanced t k) (cache_RemoveUserBuy (ocs_cache (uc_Canceler uc)) (oi_ActivityID order) (oi_SkuID order) (oi_UserID order))"
    by (simp_all add: canceler keeps_balanced same_db_part(1) [OF db_RollbackStock] same_db_part(1) [OF db_RemoveUserBuy])
qed

lemma cancel_order_balanced: "keeps (balanced t k) (CancelOrder uc n u)"
  unfolding CancelOrder_def by (intro inv_rules keeps_balanced read_core cancel_balanced)

lemma rollback_balanced: "keeps (balanced t k) (RollbackSeckillReservation uc msg)"
  unfolding RollbackSeckillReservation_def give_back_coupon_def
  by (intro inv_rules coupon_balanced keeps_balanced same_db_part(1) [OF db_RollbackStock]
      same_db_part(1) [OF db_RemoveUserBuy] same_db_part(1) [OF db_DeleteCoupon] same_db_part(1) [OF db_DeletePending])

subsection \<open>Payment\<close>

lemma pay_balanced: "keeps (balanced t k) (PaySeckillOrder E uc req)"
proof -
  have "same core (pay_body E uc req)"
    unfolding pay_body_def Let_def by (intro frame view_core pay_core idgen_core)
  then show ?thesis unfolding PaySeckillOrder_def by (intro keeps_balanced_tx yields_balanced)
qed

lemma callback_body_balanced: "yields (balanced t k) (callback_body (uc_Repo uc) req) (\<lambda>_. balanced t k)"
proof -
  have "yields (balanced t k) (repo_UpdateOrderStatus (uc_Repo uc) n OrderStatusPending OrderStatusPaid) (\<lambda>_. balanced t k)" for n
    by (rule yieldsI) (auto simp: balanced_def order_status_defs dest: pay [where t = t])
  then show ?thesis unfolding callback_body_def Let_def
    by (intro yields_inv_bindE yields_if triple_rules yields_inv_return yields_balanced [OF view_core]
        yields_balanced [OF pay_core(2)] yields_balanced [OF pay_core(4)])
qed

lemma callback_balanced: "keeps (balanced t k) (HandlePayCallback E uc req)"
  unfolding HandlePayCallback_def
  by (intro inv_rules keeps_balanced_tx callback_body_balanced)

end

end
