(* ===== verification/Catalog_Biz.thy ===== *)
theory Catalog_Biz
  imports Pay_Biz
begin

text \<open>
  The catalogue operations of \<open>internal/biz/seckill.go\<close>: list, detail and activity behind the
  cache, the administrative updates and the warm-up.  The two functions that wait for the
  cache-filling lock call themselves again after a sleep; they take fuel, one unit per round,
  and \<open>product_detail_returns\<close> and \<open>current_activity_returns\<close> say which fuel is enough.
\<close>

section \<open>Product detail behind the cache\<close>

definition product_lock_key :: "u64 \<Rightarrow> u64 \<Rightarrow> string" where
  "product_lock_key p a = ''lock:product:'' @ show_word p @ '':'' @ show_word a"

text \<open>The part that runs under the lock, before the deferred release.\<close>

definition fillProductDetail :: "SeckillUsecase \<Rightarrow> u64 \<Rightarrow> u64 \<Rightarrow> SeckillProductDetail io" where
  "fillProductDetail uc productID activityID = do {
     cached \<leftarrow> cache_GetProductDetail (uc_Cache uc) productID activityID;
     case cached of
       Inr (Some detail) \<Rightarrow> return (Inr detail)
     | _ \<Rightarrow>
         bindE (on_error (\<lambda>e. if errors_is e ErrProductNotFound then ErrProductNotFound else e)
                  (repo_GetSeckillProductDetail (uc_Repo uc) productID activityID)) (\<lambda>detail. do {
           _ \<leftarrow> cache_SetProductDetail (uc_Cache uc) productID activityID detail (10 * minute);
           return (Inr detail) }) }"

fun getProductDetailWithMutex :: "env \<Rightarrow> SeckillUsecase \<Rightarrow> nat \<Rightarrow> u64 \<Rightarrow> u64 \<Rightarrow> SeckillProductDetail io" where
  "getProductDetailWithMutex E uc 0 productID activityID = return (Inl OutOfFuel)"
| "getProductDetailWithMutex E uc (Suc n) productID activityID = do {
     bloomOK \<leftarrow> cache_BloomExists (uc_Cache uc) activityID productID;
     if bloomOK = Inr False then return (Inl ErrProductNotFound)
     else do {
       cached \<leftarrow> cache_GetProductDetail (uc_Cache uc) productID activityID;
       case cached of
         Inr (Some detail) \<Rightarrow> return (Inr detail)
       | _ \<Rightarrow> do {
           lockToken \<leftarrow> NewString E;
           locked \<leftarrow> cache_AcquireLock (uc_Cache uc) (product_lock_key productID activityID) lockToken (5 * second);
           case locked of
             Inl e \<Rightarrow> do {
               again \<leftarrow> cache_GetProductDetail (uc_Cache uc) productID activityID;
               case again of
                 Inr (Some detail) \<Rightarrow> return (Inr detail)
               | _ \<Rightarrow> return (Inl ErrSystemBusy) }
           | Inr True \<Rightarrow> do {
               r \<leftarrow> fillProductDetail uc productID activityID;
               _ \<leftarrow> cache_ReleaseLock (uc_Cache uc) (product_lock_key productID activityID) lockToken;
               return r }
           | Inr False \<Rightarrow> do {
               Sleep (50 * millisecond);
               getProductDetailWithMutex E uc n productID activityID } } } }"

section \<open>The current activity behind the cache\<close>

definition cacheKeyActivity :: string where
  "cacheKeyActivity = ''seckill:activity:current''"

definition activity_lock_key :: string where
  "activity_lock_key = cacheKeyActivity @ '':lock''"

definition repo_activity :: "SeckillUsecase \<Rightarrow> Activity io" where
  "repo_activity uc = bindE (repo_GetCurrentActivity (uc_Repo uc)) (\<lambda>(activity, _). return (Inr activity))"

text \<open>What a cached value says: an activity, that there is none, or nothing usable.\<close>

definition cached_activity :: "(error + sval) \<Rightarrow> Activity option" where
  "cached_activity r = (case r of
       Inl _ \<Rightarrow> None
     | Inr s \<Rightarrow> (case decode_activity s of Inr a \<Rightarrow> Some a | Inl _ \<Rightarrow> None))"

definition fillActivity :: "SeckillUsecase \<Rightarrow> Activity io" where
  "fillActivity uc = do {
     cached \<leftarrow> cache_Get (uc_Cache uc) cacheKeyActivity;
     case cached_activity cached of
       Some a \<Rightarrow> return (Inr a)
     | None \<Rightarrow> do {
         found \<leftarrow> repo_activity uc;
         case found of
           Inl e \<Rightarrow> do {
             _ \<leftarrow> (if errors_is e ErrNoActiveActivity
                  then cache_Set (uc_Cache uc) cacheKeyActivity (STxt ''NULL'') (30 * second)
                  else return (Inr ()));
             return (Inl e) }
         | Inr a \<Rightarrow> do {
             _ \<leftarrow> cache_Set (uc_Cache uc) cacheKeyActivity (SJson (DActivity a)) (30 * second);
             return (Inr a) } } }"

fun getActivityFromCacheWithMutex :: "env \<Rightarrow> SeckillUsecase \<Rightarrow> nat \<Rightarrow> Activity io" where
  "getActivityFromCacheWithMutex E uc 0 = return (Inl OutOfFuel)"
| "getActivityFromCacheWithMutex E uc (Suc n) = do {
     cached \<leftarrow> cache_Get (uc_Cache uc) cacheKeyActivity;
     if cached = Inr (STxt ''NULL'') then return (Inl ErrNoActiveActivity)
     else case cached_activity cached of
       Some a \<Rightarrow> return (Inr a)
     | None \<Rightarrow> do {
         lockToken \<leftarrow> NewString E;
         locked \<leftarrow> cache_AcquireLock (uc_Cache uc) activity_lock_key lockToken (3 * second);
         case locked of
           Inl _ \<Rightarrow> repo_activity uc
         | Inr True \<Rightarrow> do {
             r \<leftarrow> fillActivity uc;
             _ \<leftarrow> cache_ReleaseLock (uc_Cache uc) activity_lock_key lockToken;
             return r }
         | Inr False \<Rightarrow> do {
             Sleep (30 * millisecond);
             getActivityFromCacheWithMutex E uc n } } }"

section \<open>The product list\<close>

text \<open>One query per product, all with the same arguments; an error leaves the flag as it is.\<close>

definition mark_bought :: "SeckillUsecase \<Rightarrow> int \<Rightarrow> int \<Rightarrow> SeckillProduct \<Rightarrow> (world, SeckillProduct) state" where
  "mark_bought uc userID activityID p = do {
     record \<leftarrow> repo_CheckUserBuyRecord (uc_Repo uc) (u64_of userID) (u64_of activityID);
     return (case record of Inr r \<Rightarrow> p\<lparr>sp_UserHasBought := ubr_HasBought r\<rparr> | Inl _ \<Rightarrow> p) }"

definition activity_or_current :: "SeckillUsecase \<Rightarrow> int \<Rightarrow> int io" where
  "activity_or_current uc activityID =
     (if activityID \<noteq> 0 then return (Inr activityID)
      else do {
        r \<leftarrow> repo_activity uc;
        case r of
          Inl e \<Rightarrow> if errors_is e ErrNoActiveActivity then return (Inr activityID) else return (Inl e)
        | Inr a \<Rightarrow> return (Inr (i64_of_u64 (act_ID a))) })"

definition ListSeckillProducts ::
    "SeckillUsecase \<Rightarrow> int \<Rightarrow> int \<Rightarrow> int \<Rightarrow> int \<Rightarrow> int \<Rightarrow> SeckillProductsResult io" where
  "ListSeckillProducts uc userID activityID page pageSize sortType =
     bindE (activity_or_current uc activityID) (\<lambda>activityID. do {
       let useCache = (page \<le> 3 \<and> activityID > 0);
       hit \<leftarrow> (if useCache then cache_GetProductList (uc_Cache uc) activityID page pageSize sortType
               else return (Inl RedisNil));
       case hit of
         Inr res \<Rightarrow> return (Inr res)
       | Inl _ \<Rightarrow>
           bindE (repo_ListSeckillProducts (uc_Repo uc) (u64_of activityID) page pageSize sortType) (\<lambda>(products, total). do {
             products \<leftarrow> (if userID > 0 then map_each (mark_bought uc userID activityID) products else return products);
             info \<leftarrow> (if activityID > 0 then repo_activity uc else return (Inl ErrNoActiveActivity));
             let result = \<lparr>spr_Products = products, spr_Total = total, spr_Page = page, spr_PageSize = pageSize,
               spr_Activity = (case info of Inr a \<Rightarrow> if act_ID a = u64_of activityID then Some a else None
                                          | Inl _ \<Rightarrow> None)\<rparr>;
             _ \<leftarrow> (if useCache then cache_SetProductList (uc_Cache uc) activityID page pageSize sortType result (3 * minute)
                  else return (Inr ()));
             return (Inr result) }) })"

section \<open>The product page\<close>

definition buildUserStatus :: "SeckillProductDetail \<Rightarrow> UserBuyRecord \<Rightarrow> UserSeckillStatus" where
  "buildUserStatus detail record =
     (let status = \<lparr>uss_HasBought = ubr_HasBought record, uss_BoughtQuantity = ubr_Quantity record,
            uss_CanBuy = False, uss_RemainingLimit = 0, uss_Message = []\<rparr>
      in if pd_ActivityStatus detail = 0 then status\<lparr>uss_Message := utf8 [230, 180, 187, 229, 138, 168, 230, 156, 170, 229, 188, 128, 229, 167, 139]\<rparr>
         else if pd_ActivityStatus detail = 2 then status\<lparr>uss_Message := utf8 [230, 180, 187, 229, 138, 168, 229, 183, 178, 231, 187, 147, 230, 157, 159]\<rparr>
         else if pd_AvailableStock detail \<le> 0 then status\<lparr>uss_Message := utf8 [229, 149, 134, 229, 147, 129, 229, 183, 178, 229, 148, 174, 231, 189, 132]\<rparr>
         else if ubr_HasBought record \<and> pd_LimitNum detail \<le> ubr_Quantity record
           then status\<lparr>uss_Message := utf8 [232, 182, 133, 232, 191, 135, 233, 153, 144, 232, 180, 173, 230, 149, 176, 233, 135, 143]\<rparr>
         else let left = wrap64 (pd_LimitNum detail - ubr_Quantity record)
              in status\<lparr>uss_CanBuy := True, uss_RemainingLimit := (if left < 0 then 0 else left),
                   uss_Message := utf8 [229, 143, 175, 232, 180, 173, 228, 185, 176]\<rparr>)"

definition GetSeckillProductDetail ::
    "env \<Rightarrow> SeckillUsecase \<Rightarrow> nat \<Rightarrow> u64 \<Rightarrow> u64 \<Rightarrow> u64 \<Rightarrow> ProductDetailResult io" where
  "GetSeckillProductDetail E uc fuel userID productID activityID =
     bindE (getProductDetailWithMutex E uc fuel productID activityID) (\<lambda>detail.
       if userID = 0
       then return (Inr \<lparr>pdr_Product = Some detail, pdr_AvailableCoupons = [], pdr_UserStatus = None\<rparr>)
       else do {
         hasBought \<leftarrow> cache_CheckUserBuy (uc_Cache uc) activityID (pd_SkuID detail) userID;
         if hasBought = Inr True
         then return (Inr \<lparr>pdr_Product = Some detail, pdr_AvailableCoupons = [],
                pdr_UserStatus = Some \<lparr>uss_HasBought = True, uss_BoughtQuantity = 0, uss_CanBuy = False,
                  uss_RemainingLimit = 0, uss_Message = utf8 [230, 130, 168, 229, 183, 178, 229, 143, 130, 228, 184, 142, 232, 191, 135, 232, 175, 165, 231, 167, 146, 230, 157, 128, 230, 180, 187, 229, 138, 168]\<rparr>\<rparr>)
         else do {
           record \<leftarrow> repo_CheckUserBuyRecord (uc_Repo uc) userID activityID;
           return (Inr \<lparr>pdr_Product = Some detail, pdr_AvailableCoupons = [],
             pdr_UserStatus = (case record of Inr r \<Rightarrow> Some (buildUserStatus detail r) | Inl _ \<Rightarrow> None)\<rparr>) } })"

section \<open>Invalidation, updates and warm-up\<close>

definition InvalidateProductCache :: "SeckillUsecase \<Rightarrow> u64 \<Rightarrow> u64 \<Rightarrow> unit io" where
  "InvalidateProductCache uc productID activityID =
     bindE (cache_DeleteProductDetail (uc_Cache uc) productID activityID) (\<lambda>_.
     cache_DeleteProductLists (uc_Cache uc) activityID)"

definition InvalidateActivityCache :: "SeckillUsecase \<Rightarrow> unit io" where
  "InvalidateActivityCache uc = cache_DeleteCurrentActivity (uc_Cache uc)"

definition warm_entry :: "u64 \<Rightarrow> SeckillProduct \<Rightarrow> SeckillProductDetail \<Rightarrow> CachedSeckillProduct" where
  "warm_entry activityID p d = \<lparr>csp_SkuID = sp_SkuID p, csp_ProductID = sp_ProductID p, csp_ActivityID = activityID,
     csp_Name = pd_Name d, csp_MainImage = pd_MainImage d, csp_SeckillPrice = pd_SeckillPrice d,
     csp_MarketPrice = pd_MarketPrice d, csp_AvailableStock = pd_AvailableStock d, csp_TotalStock = pd_TotalStock d,
     csp_LimitNum = pd_LimitNum d, csp_StartTime = pd_StartTime d, csp_EndTime = pd_EndTime d,
     csp_ActivityStatus = pd_ActivityStatus d\<rparr>"

definition warm_product :: "SeckillUsecase \<Rightarrow> u64 \<Rightarrow> SeckillProduct \<Rightarrow> (world, CachedSeckillProduct option) state" where
  "warm_product uc activityID p = do {
     d \<leftarrow> repo_GetSeckillProductDetail (uc_Repo uc) (sp_ProductID p) activityID;
     return (case d of Inl _ \<Rightarrow> None | Inr d \<Rightarrow> Some (warm_entry activityID p d)) }"

definition WarmUpSeckillCache :: "SeckillUsecase \<Rightarrow> u64 \<Rightarrow> unit io" where
  "WarmUpSeckillCache uc activityID =
     bindE (repo_ListSeckillProducts (uc_Repo uc) activityID 1 100 0) (\<lambda>(products, _). do {
       entries \<leftarrow> map_each (warm_product uc activityID) products;
       bindE (cache_BatchSetProducts (uc_Cache uc) (List.map_filter id entries)) (\<lambda>_. do {
         activity \<leftarrow> repo_activity uc;
         case activity of
           Inl _ \<Rightarrow> return (Inr ())
         | Inr a \<Rightarrow> do {
             _ \<leftarrow> cache_SetCurrentActivity (uc_Cache uc) a (30 * second);
             return (Inr ()) } }) })"

definition UpdateSeckillActivity :: "SeckillUsecase \<Rightarrow> UpdateActivityRequest \<Rightarrow> unit io" where
  "UpdateSeckillActivity uc req =
     (if uar_ActivityID req = 0 \<or> uar_Title req = [] \<or> uar_StartTime req = [] \<or> uar_EndTime req = []
      then return (Inl ErrInvalidCacheAsideUpdate)
      else
        bindE (repo_UpdateSeckillActivity (uc_Repo uc) req) (\<lambda>_.
        bindE (InvalidateActivityCache uc) (\<lambda>_.
        bindE (cache_DeleteProductLists (uc_Cache uc) (uar_ActivityID req)) (\<lambda>_.
        if uar_WarmUp req then WarmUpSeckillCache uc (uar_ActivityID req) else return (Inr ())))))"

definition UpdateSeckillProduct :: "SeckillUsecase \<Rightarrow> UpdateProductRequest \<Rightarrow> unit io" where
  "UpdateSeckillProduct uc req =
     (if upr_ActivityID req = 0 \<or> upr_ProductID req = 0 \<or> upr_Name req = [] \<or> upr_ProductStatus req \<le> 0
         \<or> upr_SeckillPrice req = 0 \<or> upr_MarketPrice req = 0 \<or> upr_TotalStock req = 0 \<or> upr_LimitNum req = 0
      then return (Inl ErrInvalidCacheAsideUpdate)
      else
        bindE (repo_UpdateSeckillProduct (uc_Repo uc) req) (\<lambda>_.
        bindE (InvalidateProductCache uc (upr_ProductID req) (upr_ActivityID req)) (\<lambda>_.
        bindE (repo_GetSeckillProductDetail (uc_Repo uc) (upr_ProductID req) (upr_ActivityID req)) (\<lambda>detail.
        bindE (cache_SetStock (uc_Cache uc) (upr_ActivityID req) (pd_SkuID detail) (uint (upr_AvailableStock req))) (\<lambda>_.
        if upr_WarmUp req then WarmUpSeckillCache uc (upr_ActivityID req) else return (Inr ()))))))"

end
