(* ===== verification/Order_Create.thy ===== *)
theory Order_Create
  imports Catalog_Biz
begin

text \<open>
  \<open>CreateSeckillOrder\<close> and \<open>applyCoupon\<close> of \<open>internal/biz/seckill.go\<close>: the guards, the
  coupon, the reservation in Redis and the message that asks for the order.
\<close>

section \<open>Coupons on an order\<close>

text \<open>The discount, in unsigned 64-bit arithmetic.\<close>

definition coupon_discount :: "UserCoupon \<Rightarrow> u64 \<Rightarrow> error + u64" where
  "coupon_discount coupon orderAmount =
     (if orderAmount < ucp_MinAmount coupon then Inl (Plain (utf8 [230, 156, 170, 232, 190, 190, 229, 136, 176, 228, 188, 152, 230, 131, 160, 229, 136, 184, 228, 189, 191, 231, 148, 168, 233, 151, 168, 230, 167, 155]))
      else if ucp_Type coupon = 1
        then Inr (if orderAmount < ucp_Value coupon then orderAmount else ucp_Value coupon)
      else if ucp_Type coupon = 2
        then Inr (orderAmount * (100 - ucp_Value coupon) div 100)
      else Inl (Plain (utf8 [230, 151, 160, 230, 149, 136, 231, 154, 132, 228, 188, 152, 230, 131, 160, 229, 136, 184, 231, 177, 187, 229, 158, 139])))"

text \<open>The result is the final amount and the discount.\<close>

definition applyCoupon :: "SeckillUsecase \<Rightarrow> u64 \<Rightarrow> u64 \<Rightarrow> u64 \<Rightarrow> (u64 \<times> u64) io" where
  "applyCoupon uc couponID userID orderAmount =
     (if couponID = 0 then return (Inr (orderAmount, 0))
      else
        bindE (repo_GetUserCouponForUse (uc_Repo uc) couponID userID) (\<lambda>coupon.
        bindE (return (coupon_discount coupon orderAmount)) (\<lambda>discount.
        bindE (repo_UseUserCoupon (uc_Repo uc) (ucp_ID coupon)) (\<lambda>_.
        return (Inr (orderAmount - discount, discount))))))"

section \<open>The guards\<close>

text \<open>The rate limits, the idempotency check and the activity, in the code's order.\<close>

definition create_guards :: "env \<Rightarrow> SeckillUsecase \<Rightarrow> nat \<Rightarrow> CreateOrderRequest \<Rightarrow> unit io" where
  "create_guards E uc fuel req = do {
     allowed \<leftarrow> limiter_GlobalRateLimit (uc_Limiter uc) 10000 20000 second;
     if allowed \<noteq> Inr True then return (Inl ErrSystemBusy)
     else do {
       allowed \<leftarrow> limiter_UserRateLimit (uc_Limiter uc) (cor_UserID req) 3 3 second;
       if allowed \<noteq> Inr True then return (Inl ErrTooManyRequests)
       else do {
         isFirst \<leftarrow> idem_CheckAndMark (uc_Idempotent uc) (cor_RequestID req) (5 * minute);
         if isFirst \<noteq> Inr True then return (Inl ErrDuplicateRequest)
         else bindE (getActivityFromCacheWithMutex E uc fuel) (\<lambda>activity.
           if act_ID activity \<noteq> cor_ActivityID req then return (Inl ErrNoActiveActivity)
           else do {
             allowed \<leftarrow> limiter_ActivityRateLimit (uc_Limiter uc) (act_ID activity) 8000 0 second;
             if allowed \<noteq> Inr True then return (Inl ErrSystemBusy) else return (Inr ()) }) } } }"

text \<open>One order per user: first the mark in Redis, then the orders in MySQL.\<close>

definition not_bought :: "SeckillUsecase \<Rightarrow> CreateOrderRequest \<Rightarrow> unit io" where
  "not_bought uc req = do {
     hasBought \<leftarrow> cache_CheckUserBuy (uc_Cache uc) (cor_ActivityID req) (cor_SkuID req) (cor_UserID req);
     if hasBought = Inr True then return (Inl ErrAlreadyBought)
     else bindE (repo_CheckUserBuyRecord (uc_Repo uc) (cor_UserID req) (cor_ActivityID req)) (\<lambda>record.
       if ubr_HasBought record
       then do {
         _ \<leftarrow> cache_MarkUserBuy (uc_Cache uc) (cor_ActivityID req) (cor_SkuID req) (cor_UserID req) 3600;
         return (Inl ErrAlreadyBought) }
       else return (Inr ())) }"

section \<open>The reservation\<close>

text \<open>
  The script's verdict.  A refusal gives the coupon back; an error of the call does not.
\<close>

definition reserve :: "SeckillUsecase \<Rightarrow> CreateOrderRequest \<Rightarrow> unit io" where
  "reserve uc req = do {
     result \<leftarrow> cache_DeductStock (uc_Cache uc) (cor_ActivityID req) (cor_SkuID req) (cor_UserID req) (cor_Quantity req);
     case result of
       Inl e \<Rightarrow> return (Inl e)
     | Inr n \<Rightarrow>
         if n = 1 then return (Inr ())
         else do {
           give_back_coupon uc (cor_CouponID req);
           return (Inl (if n = - 1 then ErrAlreadyBought
                        else if n = 0 then ErrInsufficientStock
                        else Plain (utf8 [230, 137, 163, 229, 186, 147, 229, 173, 152, 229, 164, 177, 232, 180, 165]))) } }"

definition order_message ::
    "env \<Rightarrow> CreateOrderRequest \<Rightarrow> SeckillProductDetail \<Rightarrow> u64 \<Rightarrow> u64 \<Rightarrow> u64 \<Rightarrow> Time \<Rightarrow> string \<Rightarrow> string \<Rightarrow> SeckillOrderMessage" where
  "order_message E req info orderAmount discount finalAmount now orderNo eventID =
     \<lparr>msg_OrderNo = orderNo, msg_RequestID = cor_RequestID req, msg_UserID = cor_UserID req,
      msg_SkuID = cor_SkuID req, msg_ActivityID = cor_ActivityID req, msg_ProductID = cor_ProductID req,
      msg_ProductName = pd_Name info, msg_ProductImage = pd_MainImage info, msg_Quantity = cor_Quantity req,
      msg_AddressID = cor_AddressID req, msg_CouponID = cor_CouponID req, msg_OrderAmount = orderAmount,
      msg_CouponDiscount = discount, msg_FinalAmount = finalAmount, msg_SeckillPrice = pd_SeckillPrice info,
      msg_Version = pd_Version info, msg_Timestamp = unix now, msg_EventID = eventID,
      msg_TraceID = trace_id E, msg_RetryCount = 0\<rparr>"

definition pending_of :: "SeckillOrderMessage \<Rightarrow> int \<Rightarrow> PendingReservation" where
  "pending_of msg createdAt = \<lparr>pr_OrderNo = msg_OrderNo msg, pr_RequestID = msg_RequestID msg,
     pr_UserID = msg_UserID msg, pr_ActivityID = msg_ActivityID msg, pr_SkuID = msg_SkuID msg,
     pr_Quantity = msg_Quantity msg, pr_CouponID = msg_CouponID msg, pr_CreatedAt = createdAt\<rparr>"

text \<open>From the pending record to the answer; a failed send takes the reservation back.\<close>

definition send_order :: "SeckillUsecase \<Rightarrow> CreateOrderRequest \<Rightarrow> SeckillOrderMessage \<Rightarrow> CreateOrderResult io" where
  "send_order uc req msg = do {
     now \<leftarrow> Now;
     _ \<leftarrow> cache_SetPendingReservation (uc_Cache uc) (pending_of msg (unix now)) (20 * minute);
     sent \<leftarrow> mq_Send (uc_MQ uc) msg;
     case sent of
       Inl e \<Rightarrow> do {
         _ \<leftarrow> cache_DeletePendingReservation (uc_Cache uc) (msg_RequestID msg);
         _ \<leftarrow> cache_RollbackStock (uc_Cache uc) (cor_ActivityID req) (cor_SkuID req) (cor_Quantity req);
         _ \<leftarrow> cache_RemoveUserBuy (uc_Cache uc) (cor_ActivityID req) (cor_SkuID req) (cor_UserID req);
         give_back_coupon uc (cor_CouponID req);
         return (Inl e) }
     | Inr _ \<Rightarrow> do {
         _ \<leftarrow> cache_MarkUserBuy (uc_Cache uc) (cor_ActivityID req) (cor_SkuID req) (cor_UserID req) 3600;
         return (Inr \<lparr>crs_OrderNo = msg_OrderNo msg, crs_OrderAmount = msg_OrderAmount msg,
           crs_CouponDiscount = msg_CouponDiscount msg, crs_FinalAmount = msg_FinalAmount msg,
           crs_Status = OrderStatusPending, crs_SeckillPrice = msg_SeckillPrice msg, crs_Quantity = cor_Quantity req,
           crs_Message = utf8 [230, 142, 146, 233, 152, 159, 228, 184, 173, 239, 188, 140, 232, 175, 183, 231, 168, 141, 229, 144, 142, 230, 159, 165, 232, 175, 162, 231, 187, 147, 230, 158, 156], crs_RemainingSeconds = OrderTimeoutSeconds\<rparr>) } }"

definition CreateSeckillOrder ::
    "env \<Rightarrow> SeckillUsecase \<Rightarrow> nat \<Rightarrow> CreateOrderRequest \<Rightarrow> CreateOrderResult io" where
  "CreateSeckillOrder E uc fuel req =
     bindE (create_guards E uc fuel req) (\<lambda>_.
     bindE (getProductDetailWithMutex E uc fuel (cor_ProductID req) (cor_ActivityID req)) (\<lambda>info.
     if pd_LimitNum info < cor_Quantity req then return (Inl ErrExceedLimit)
     else
       bindE (not_bought uc req) (\<lambda>_.
       let orderAmount = pd_SeckillPrice info * u64_of (cor_Quantity req) in
       bindE (applyCoupon uc (cor_CouponID req) (cor_UserID req) orderAmount) (\<lambda>(finalAmount, discount).
       bindE (reserve uc req) (\<lambda>_. do {
         orderNo \<leftarrow> idgen_NextString (uc_IDGen uc);
         now \<leftarrow> Now;
         eventID \<leftarrow> idgen_NextString (uc_IDGen uc);
         send_order uc req (order_message E req info orderAmount discount finalAmount now orderNo eventID) })))))"

end
