(* ===== verification/Coupon_Biz.thy ===== *)
theory Coupon_Biz
  imports Order_Create
begin

text \<open>\<open>internal/biz/coupon.go\<close>: the marketing rules and the granting and listing of user coupons.\<close>

definition couponTemplateByScene :: "string \<Rightarrow> CouponTemplate option" where
  "couponTemplateByScene scene =
     (if scene = CouponSceneFirstReview
      then Some \<lparr>ct_Name = utf8 [233, 166, 150, 232, 175, 132, 233, 128, 129, 53, 229, 133, 131, 229, 136, 184], ct_Type = CouponTypeCash, ct_Value = 500, ct_MinAmount = 0, ct_ValidDays = 30\<rparr>
      else if scene = CouponSceneGoodReview
      then Some \<lparr>ct_Name = utf8 [229, 165, 189, 232, 175, 132, 232, 191, 148, 57, 53, 230, 138, 152, 229, 136, 184], ct_Type = CouponTypeDiscount, ct_Value = 95, ct_MinAmount = 5000, ct_ValidDays = 30\<rparr>
      else if scene = CouponScenePhotoReview
      then Some \<lparr>ct_Name = utf8 [230, 153, 146, 229, 155, 190, 232, 191, 148, 51, 229, 133, 131, 229, 136, 184], ct_Type = CouponTypeCash, ct_Value = 300, ct_MinAmount = 3000, ct_ValidDays = 30\<rparr>
      else if scene = CouponSceneInviteNew
      then Some \<lparr>ct_Name = utf8 [230, 139, 137, 230, 150, 176, 49, 48, 229, 133, 131, 229, 136, 184], ct_Type = CouponTypeCash, ct_Value = 1000, ct_MinAmount = 0, ct_ValidDays = 30\<rparr>
      else if scene = CouponSceneAfterSaleCompensation
      then Some \<lparr>ct_Name = utf8 [229, 148, 174, 229, 144, 142, 232, 161, 165, 229, 129, 191, 50, 48, 229, 133, 131, 229, 136, 184], ct_Type = CouponTypeCash, ct_Value = 2000, ct_MinAmount = 0, ct_ValidDays = 30\<rparr>
      else None)"

definition matchCouponScene :: "string \<Rightarrow> GrantCouponRequest \<Rightarrow> bool" where
  "matchCouponScene scene req =
     (if scene = CouponSceneFirstReview then gcr_IsFirstReview req
      else if scene = CouponSceneGoodReview then 4 \<le> gcr_Rating req
      else if scene = CouponScenePhotoReview then gcr_HasImage req
      else scene = CouponSceneInviteNew \<or> scene = CouponSceneAfterSaleCompensation)"

definition resolveCouponScene :: "GrantCouponRequest \<Rightarrow> error + string" where
  "resolveCouponScene req =
     (let scene = ToUpper (TrimSpace (gcr_Scene req))
      in if scene \<noteq> [] then (if matchCouponScene scene req then Inr scene else Inl ErrCouponSceneInvalid)
         else if gcr_IsFirstReview req then Inr CouponSceneFirstReview
         else if 4 \<le> gcr_Rating req \<and> gcr_HasImage req then Inr CouponScenePhotoReview
         else if 4 \<le> gcr_Rating req then Inr CouponSceneGoodReview
         else Inl ErrCouponSceneInvalid)"

text \<open>The request the repository sees: the resolved scene and, without a key, one from the review.\<close>

definition grant_request :: "GrantCouponRequest \<Rightarrow> string \<Rightarrow> GrantCouponRequest" where
  "grant_request req scene =
     (let req = req\<lparr>gcr_Scene := scene\<rparr>
      in if gcr_IdempotencyKey req = []
         then req\<lparr>gcr_IdempotencyKey := ''review:'' @ show_word (gcr_ReviewID req) @ '':'' @ scene\<rparr> else req)"

definition GrantCouponByReview :: "SeckillUsecase \<Rightarrow> GrantCouponRequest \<Rightarrow> GrantCouponResult io" where
  "GrantCouponByReview uc req =
     (if gcr_UserID req = 0 then return (Inl ErrUserNotMatch)
      else
        bindE (return (resolveCouponScene req)) (\<lambda>scene.
        case couponTemplateByScene scene of
          None \<Rightarrow> return (Inl ErrCouponSceneInvalid)
        | Some template \<Rightarrow>
            bindE (ExecTx (repo_GrantUserCoupon (uc_Repo uc) (grant_request req scene) template)) (\<lambda>(userCoupon, duplicated).
            return (Inr \<lparr>gcs_Coupon = Some userCoupon, gcs_Duplicated = duplicated,
              gcs_Message = (if duplicated then utf8 [233, 135, 141, 229, 164, 141, 229, 143, 145, 229, 136, 184, 232, 175, 183, 230, 177, 130, 239, 188, 140, 232, 191, 148, 229, 155, 158, 229, 183, 178, 230, 156, 137, 228, 188, 152, 230, 131, 160, 229, 136, 184] else utf8 [229, 143, 145, 229, 136, 184, 230, 136, 144, 229, 138, 159])\<rparr>))))"

definition ListUserCoupons :: "SeckillUsecase \<Rightarrow> u64 \<Rightarrow> int \<Rightarrow> int \<Rightarrow> int \<Rightarrow> (UserCoupon list \<times> int) io" where
  "ListUserCoupons uc userID status page pageSize =
     (if userID = 0 then return (Inl ErrUserNotMatch)
      else repo_ListUserCoupons (uc_Repo uc) userID status
             (if page \<le> 0 then 1 else page) (if pageSize \<le> 0 \<or> 100 < pageSize then 20 else pageSize))"

end
