(* ===== verification/Producer.thy ===== *)
theory Producer
  imports Coupon_Biz
begin

text \<open>
  \<open>internal/kafka/config.go\<close> (the part the code's behaviour depends on) and
  \<open>internal/kafka/producer.go\<close>.  A send that is carried out appends a record to the log.
  Headers are kept in the order the source lists them (Go ranges over the map in any order).
\<close>

section \<open>Configuration\<close>

record TopicNames =
  tn_SeckillOrder :: string
  tn_SeckillResult :: string
  tn_SeckillDLQ :: string
  tn_SeckillRetry :: string

record Config =
  cfg_Brokers :: "string list"
  cfg_Version :: string
  cfg_ConsumerGroup :: string
  cfg_ClientID :: string
  cfg_Topics :: TopicNames

definition Validate :: "Config \<Rightarrow> error option" where
  "Validate c =
     (if cfg_Brokers c = [] then Some (Plain ''brokers is required'')
      else if cfg_ConsumerGroup c = [] then Some (Plain ''consumer_group is required'')
      else if tn_SeckillOrder (cfg_Topics c) = [] then Some (Plain ''seckill_order topic is required'')
      else None)"

section \<open>Sending\<close>

definition SendMessage :: "ProducerMessage \<Rightarrow> unit io" where
  "SendMessage m = call (\<lambda>w. (Inr (), w\<lparr>kafka_log := kafka_log w @ [m]\<rparr>))"

definition SendEvent :: "env \<Rightarrow> string \<Rightarrow> string \<Rightarrow> kvalue \<Rightarrow> (string \<times> string) list \<Rightarrow> unit io" where
  "SendEvent E topic key payload headers =
     SendMessage \<lparr>pm_Topic = topic, pm_Key = key, pm_Value = payload, pm_Headers = trace_headers E @ headers\<rparr>"

definition order_value :: "SeckillOrderMessage \<Rightarrow> kvalue" where
  "order_value msg = KRaw (RawOrder msg)"

definition Send :: "env \<Rightarrow> TopicNames \<Rightarrow> SeckillOrderMessage \<Rightarrow> unit io" where
  "Send E topics msg =
     (let msg = msg\<lparr>msg_TraceID := trace_id E\<rparr>
      in SendEvent E (tn_SeckillOrder topics) (msg_OrderNo msg) (order_value msg)
           [(''retry_count'', ''0''), (''order_no'', msg_OrderNo msg), (''trace_id'', msg_TraceID msg),
            (''request_id'', msg_RequestID msg)])"

text \<open>The asynchronous send queues the record or, when the channel is full, drops it.\<close>

definition SendAsync :: "TopicNames \<Rightarrow> SeckillOrderMessage \<Rightarrow> (world, unit) state" where
  "SendAsync topics msg = do {
     now \<leftarrow> Now;
     let msg = msg\<lparr>msg_Timestamp := unix now\<rparr>;
     _ \<leftarrow> SendMessage \<lparr>pm_Topic = tn_SeckillOrder topics, pm_Key = msg_OrderNo msg, pm_Value = order_value msg,
           pm_Headers = [(''retry_count'', ''0''), (''order_no'', msg_OrderNo msg),
             (''user_id'', show_word (msg_UserID msg)), (''timestamp'', show_int (msg_Timestamp msg))]\<rparr>;
     return () }"

definition SendToDLQ ::
    "env \<Rightarrow> TopicNames \<Rightarrow> SeckillOrderMessage \<Rightarrow> string \<Rightarrow> int \<Rightarrow> string \<Rightarrow> int \<Rightarrow> int \<Rightarrow> unit io" where
  "SendToDLQ E topics msg reason retryCount topic part offset = do {
     now \<leftarrow> Now;
     let msg = msg\<lparr>msg_TraceID := trace_id E\<rparr>;
     SendEvent E (tn_SeckillDLQ topics) (msg_OrderNo msg)
       (KDlq \<lparr>dlm_EventID = msg_EventID msg, dlm_Topic = topic, dlm_Partition = part, dlm_Offset = offset,
          dlm_OriginalMsg = msg, dlm_RawPayload = RawText [], dlm_LastError = reason,
          dlm_RetryCount = retryCount, dlm_NextRetryAt = unix now\<rparr>)
       [(''retry_count'', show_int retryCount), (''reason'', reason), (''trace_id'', msg_TraceID msg),
        (''order_no'', msg_OrderNo msg), (''event_id'', msg_EventID msg)] }"

definition SendToRetry ::
    "env \<Rightarrow> TopicNames \<Rightarrow> SeckillOrderMessage \<Rightarrow> int \<Rightarrow> Time \<Rightarrow> unit io" where
  "SendToRetry E topics msg retryCount delay = do {
     now \<leftarrow> Now;
     let msg = msg\<lparr>msg_RetryCount := retryCount, msg_TraceID := trace_id E, msg_Timestamp := unix now\<rparr>;
     SendEvent E (tn_SeckillRetry topics) (msg_OrderNo msg) (order_value msg)
       [(''retry_count'', show_int retryCount), (''next_retry_at'', show_int (unix (now + delay))),
        (''trace_id'', msg_TraceID msg), (''order_no'', msg_OrderNo msg), (''event_id'', msg_EventID msg),
        (''request_id'', msg_RequestID msg), (''original_topic'', tn_SeckillOrder topics)] }"

definition SendResult :: "TopicNames \<Rightarrow> SeckillResultMessage \<Rightarrow> unit io" where
  "SendResult topics result =
     SendMessage \<lparr>pm_Topic = tn_SeckillResult topics, pm_Key = srm_OrderNo result, pm_Value = KResult result,
       pm_Headers = [(''user_id'', show_word (srm_UserID result)), (''status'', show_int (srm_Status result))]\<rparr>"

definition zeroMessage :: SeckillOrderMessage where
  "zeroMessage = \<lparr>msg_OrderNo = [], msg_RequestID = [], msg_UserID = 0, msg_SkuID = 0, msg_ActivityID = 0,
     msg_ProductID = 0, msg_ProductName = [], msg_ProductImage = [], msg_Quantity = 0, msg_AddressID = 0,
     msg_CouponID = 0, msg_OrderAmount = 0, msg_CouponDiscount = 0, msg_FinalAmount = 0, msg_SeckillPrice = 0,
     msg_Version = 0, msg_Timestamp = 0, msg_EventID = [], msg_TraceID = [], msg_RetryCount = 0\<rparr>"

text \<open>The map built from the headers: the last value of a key.\<close>

definition header_map :: "(string \<times> string) list \<Rightarrow> string \<Rightarrow> string" where
  "header_map headers k = (case map_of (rev headers) k of Some v \<Rightarrow> v | None \<Rightarrow> [])"

definition raw_of :: "env \<Rightarrow> kvalue \<Rightarrow> raw" where
  "raw_of E v = (case v of KRaw r \<Rightarrow> r | _ \<Rightarrow> RawText (text_of E v))"

definition SendParseFailureToDLQ ::
    "env \<Rightarrow> TopicNames \<Rightarrow> kvalue \<Rightarrow> string \<Rightarrow> int \<Rightarrow> int \<Rightarrow> string \<Rightarrow> (string \<times> string) list \<Rightarrow> unit io" where
  "SendParseFailureToDLQ E topics raw topic part offset reason headers = do {
     now \<leftarrow> Now;
     SendEvent E (tn_SeckillDLQ topics) ''parse-error''
       (KDlq \<lparr>dlm_EventID = header_map headers ''event_id'', dlm_Topic = topic, dlm_Partition = part,
          dlm_Offset = offset, dlm_OriginalMsg = zeroMessage, dlm_RawPayload = raw_of E raw,
          dlm_LastError = reason, dlm_RetryCount = 0, dlm_NextRetryAt = unix now\<rparr>)
       [(''reason'', reason), (''topic'', topic), (''trace_id'', header_map headers ''trace_id'')] }"

definition producer :: "env \<Rightarrow> TopicNames \<Rightarrow> MQProducer" where
  "producer E topics = \<lparr>mq_Send = Send E topics, mq_SendAsync = SendAsync topics, mq_SendResult = SendResult topics,
     mq_SendToRetry = SendToRetry E topics, mq_SendToDLQ = SendToDLQ E topics,
     mq_SendParseFailureToDLQ = SendParseFailureToDLQ E topics\<rparr>"

end
