(* ===== verification/Consumer.thy ===== *)
theory Consumer
  imports Producer
begin

text \<open>
  \<open>internal/kafka/error_classify.go\<close>, \<open>consumer.go\<close> and \<open>dlq_consumer.go\<close>: the handling of
  one message, the routing of its failure and the commit of its offset.  The group sessions and
  the goroutines around them are not modelled; a claim is the list of its messages.
\<close>

section \<open>Error classes\<close>

datatype failureType = failureRetry | failureDLQ | failureDrop

text \<open>\<open>errors.As(err, &ne)\<close> with \<open>ne.Timeout() || ne.Temporary()\<close>.\<close>

fun isTemporaryNetError :: "error \<Rightarrow> bool" where
  "isTemporaryNetError (Driver (NetError _ temporary)) = temporary"
| "isTemporaryNetError (Wrapped _ e) = isTemporaryNetError e"
| "isTemporaryNetError _ = False"

definition final_errors :: "error list" where
  "final_errors = [ErrInsufficientStock, ErrAddressNotFound, ErrCouponInvalid, ErrAlreadyBought, ErrExceedLimit,
     ErrOrderStatusIncorrect, ErrOrderTimeout, ErrPaymentExists, ErrUserNotMatch]"

definition classifyOrderError :: "error option \<Rightarrow> failureType" where
  "classifyOrderError err = (case err of
       None \<Rightarrow> failureDrop
     | Some e \<Rightarrow>
         if errors_is e ErrOrderExists then failureDrop
         else if errors_is e ErrSystemBusy \<or> contains (err_text e) ''timeout'' \<or> contains (err_text e) ''deadlock''
              \<or> contains (err_text e) ''connection refused'' then failureRetry
         else if list_ex (errors_is e) final_errors then failureDLQ
         else if isTemporaryNetError e then failureRetry
         else failureDLQ)"

section \<open>Reading a message\<close>

text \<open>
  \<open>json.Unmarshal\<close> into the message type: another document sets the fields it shares by name
  and leaves the rest zero.
\<close>

definition decode_order :: "kvalue \<Rightarrow> error + SeckillOrderMessage" where
  "decode_order v = (case v of
       KRaw r \<Rightarrow> decode_raw r
     | KDlq d \<Rightarrow> Inr (zeroMessage\<lparr>msg_EventID := dlm_EventID d, msg_RetryCount := dlm_RetryCount d\<rparr>)
     | KResult r \<Rightarrow> Inr (zeroMessage\<lparr>msg_OrderNo := srm_OrderNo r, msg_UserID := srm_UserID r,
         msg_Timestamp := srm_Timestamp r\<rparr>))"

definition getHeaderValue :: "ConsumerMessage \<Rightarrow> string \<Rightarrow> string option" where
  "getHeaderValue m k = map_option snd (List.find (\<lambda>h. EqualFold (fst h) k) (cm_Headers m))"

definition getRetryCount :: "ConsumerMessage \<Rightarrow> int" where
  "getRetryCount m = (case getHeaderValue m ''retry_count'' of
       None \<Rightarrow> 0
     | Some v \<Rightarrow> (case parse_int v of Some n \<Rightarrow> if 0 \<le> n then n else 0 | None \<Rightarrow> 0))"

definition getRetryWait :: "Time \<Rightarrow> ConsumerMessage \<Rightarrow> Time" where
  "getRetryWait now m = (case getHeaderValue m ''next_retry_at'' of
       None \<Rightarrow> 0
     | Some v \<Rightarrow> (case parse_int v of
           None \<Rightarrow> 0
         | Some ts \<Rightarrow> if ts \<le> 0 \<or> ts \<le> unix now then 0 else ts * second - now))"

definition MaxRetryCount :: int where "MaxRetryCount = 3"
definition RetryBaseDelay :: Time where "RetryBaseDelay = 10 * second"
definition MaxRetryDelay :: Time where "MaxRetryDelay = 10 * minute"

fun backoff_loop :: "nat \<Rightarrow> Time \<Rightarrow> Time" where
  "backoff_loop 0 delay = delay"
| "backoff_loop (Suc n) delay =
     (let delay = wrap64 (delay * 2) in if MaxRetryDelay < delay then MaxRetryDelay else backoff_loop n delay)"

definition calculateBackoff :: "int \<Rightarrow> Time" where
  "calculateBackoff retryCount =
     (if retryCount \<le> 0 then RetryBaseDelay else backoff_loop (nat (retryCount - 1)) RetryBaseDelay)"

section \<open>Handling\<close>

definition confirmed :: "unit io \<Rightarrow> unit io" where
  "confirmed m = do {
     r \<leftarrow> m;
     return (case r of Inr _ \<Rightarrow> Inr () | Inl e \<Rightarrow> if errors_is e ErrOrderExists then Inr () else Inl e) }"

definition handleOrderTopic :: "SeckillUsecase \<Rightarrow> ConsumerMessage \<Rightarrow> unit io" where
  "handleOrderTopic uc m =
     bindE (return (decode_order (cm_Value m))) (\<lambda>orderMsg.
     bindE (confirmed (ConfirmSeckillOrder uc orderMsg)) (\<lambda>_. do {
       _ \<leftarrow> idem_CheckAndMark (uc_Idempotent uc) (msg_OrderNo orderMsg) (24 * hour);
       return (Inr ()) }))"

text \<open>Waiting for the retry time ends early, with an error, when the session's context is cancelled.\<close>

definition wait_or_done :: "Time \<Rightarrow> unit io" where
  "wait_or_done d = on_error (\<lambda>_. Driver ContextCanceled) (call (\<lambda>w. (Inr (), w\<lparr>clock := clock w + d\<rparr>)))"

definition handleRetryTopic :: "SeckillUsecase \<Rightarrow> ConsumerMessage \<Rightarrow> unit io" where
  "handleRetryTopic uc m =
     bindE (return (decode_order (cm_Value m))) (\<lambda>orderMsg. do {
       now \<leftarrow> Now;
       bindE (if getRetryWait now m > 0 then wait_or_done (getRetryWait now m) else return (Inr ())) (\<lambda>_.
       confirmed (ConfirmSeckillOrder uc orderMsg)) })"

definition consumer_handle :: "TopicNames \<Rightarrow> SeckillUsecase \<Rightarrow> ConsumerMessage \<Rightarrow> unit io" where
  "consumer_handle topics uc m =
     (if cm_Topic m = tn_SeckillOrder topics then handleOrderTopic uc m
      else if cm_Topic m = tn_SeckillRetry topics then handleRetryTopic uc m
      else return (Inl (Plain (''unknown topic: '' @ cm_Topic m))))"

section \<open>Routing a failure\<close>

text \<open>The result is whether to commit the offset, and an error to log.\<close>

definition commit_unless :: "unit io \<Rightarrow> (world, bool \<times> error option) state \<Rightarrow> (world, bool \<times> error option) state" where
  "commit_unless m k = do {
     r \<leftarrow> m;
     case r of Inl e \<Rightarrow> return (False, Some e) | Inr _ \<Rightarrow> k }"

definition handleFinalFailture ::
    "SeckillUsecase \<Rightarrow> MQProducer \<Rightarrow> ConsumerMessage \<Rightarrow> SeckillOrderMessage \<Rightarrow> error \<Rightarrow> (world, bool \<times> error option) state" where
  "handleFinalFailture uc p m orderMsg err =
     commit_unless (mq_SendToDLQ p orderMsg (err_text err) (getRetryCount m) (cm_Topic m) (cm_Partition m) (cm_Offset m))
       (commit_unless (RollbackSeckillReservation uc orderMsg) (return (True, None)))"

definition routeFailure ::
    "SeckillUsecase \<Rightarrow> MQProducer \<Rightarrow> ConsumerMessage \<Rightarrow> error \<Rightarrow> (world, bool \<times> error option) state" where
  "routeFailure uc p m err = (case decode_order (cm_Value m) of
       Inl parseErr \<Rightarrow>
         commit_unless (mq_SendParseFailureToDLQ p (cm_Value m) (cm_Topic m) (cm_Partition m) (cm_Offset m)
                          (err_text parseErr) (cm_Headers m))
           (return (True, None))
     | Inr orderMsg \<Rightarrow>
         (case classifyOrderError (Some err) of
            failureRetry \<Rightarrow>
              if MaxRetryCount \<le> getRetryCount m then handleFinalFailture uc p m orderMsg err
              else commit_unless (mq_SendToRetry p orderMsg (wrap64 (getRetryCount m + 1))
                                    (calculateBackoff (wrap64 (getRetryCount m + 1))))
                     (return (True, None))
          | failureDLQ \<Rightarrow> handleFinalFailture uc p m orderMsg err
          | failureDrop \<Rightarrow> return (True, None)))"

text \<open>
  \<open>session.MarkMessage\<close> and \<open>session.Commit\<close>: the group's position in the partition, the offset it
  reads next, moves behind the message and never back.  What is below the position counts as consumed.
\<close>

definition commit_offset :: "ConsumerMessage \<Rightarrow> (world, unit) state" where
  "commit_offset m = modify (\<lambda>w. w\<lparr>committed := (committed w)
     ((cm_Topic m, cm_Partition m) := max (committed w (cm_Topic m, cm_Partition m)) (cm_Offset m + 1))\<rparr>)"

definition processMessage :: "TopicNames \<Rightarrow> SeckillUsecase \<Rightarrow> MQProducer \<Rightarrow> ConsumerMessage \<Rightarrow> (world, unit) state" where
  "processMessage topics uc p m = do {
     r \<leftarrow> consumer_handle topics uc m;
     case r of
       Inr _ \<Rightarrow> commit_offset m
     | Inl e \<Rightarrow>
         if errors_is e (Driver ContextCanceled) then return ()
         else do {
           (commit, _) \<leftarrow> routeFailure uc p m e;
           if commit then commit_offset m else return () } }"

definition ConsumeClaim :: "TopicNames \<Rightarrow> SeckillUsecase \<Rightarrow> MQProducer \<Rightarrow> ConsumerMessage list \<Rightarrow> (world, unit) state" where
  "ConsumeClaim topics uc p ms = for_each (processMessage topics uc p) ms"

section \<open>The dead-letter consumer\<close>

definition zeroDeadLetter :: MqDeadLetter where
  "zeroDeadLetter = \<lparr>dlm_EventID = [], dlm_Topic = [], dlm_Partition = 0, dlm_Offset = 0,
     dlm_OriginalMsg = zeroMessage, dlm_RawPayload = RawText [], dlm_LastError = [], dlm_RetryCount = 0,
     dlm_NextRetryAt = 0\<rparr>"

definition decode_dlq :: "kvalue \<Rightarrow> error + MqDeadLetter" where
  "decode_dlq v = (case v of
       KDlq d \<Rightarrow> Inr d
     | KRaw (RawOrder m) \<Rightarrow> Inr (zeroDeadLetter\<lparr>dlm_EventID := msg_EventID m, dlm_RetryCount := msg_RetryCount m\<rparr>)
     | KRaw (RawText _) \<Rightarrow> Inl JsonError
     | KResult _ \<Rightarrow> Inr zeroDeadLetter)"

definition dlq_event_id :: "ConsumerMessage \<Rightarrow> MqDeadLetter \<Rightarrow> string" where
  "dlq_event_id m d = (if dlm_EventID d = []
     then ''dlq:'' @ cm_Topic m @ '':'' @ show_int (cm_Partition m) @ '':'' @ show_int (cm_Offset m)
     else dlm_EventID d)"

definition dlq_record :: "ConsumerMessage \<Rightarrow> MqDeadLetter \<Rightarrow> DeadLetterMessage" where
  "dlq_record m d = \<lparr>dl_ID = 0, dl_EventID = dlq_event_id m d, dl_Topic = dlm_Topic d,
     dl_Partition = dlm_Partition d, dl_Offset = dlm_Offset d,
     dl_OrderNo = msg_OrderNo (dlm_OriginalMsg d), dl_RequestID = msg_RequestID (dlm_OriginalMsg d),
     dl_TraceID = msg_TraceID (dlm_OriginalMsg d), dl_RetryCount = dlm_RetryCount d,
     dl_ErrorMessage = dlm_LastError d,
     dl_RawPayload = (if dlm_RawPayload d = RawText [] then RawOrder (dlm_OriginalMsg d) else dlm_RawPayload d),
     dl_Status = ''PENDING'', dl_CreateTime = zero_time, dl_UpdateTime = zero_time\<rparr>"

definition dlq_handle :: "SeckillRepo \<Rightarrow> ConsumerMessage \<Rightarrow> unit io" where
  "dlq_handle repo m =
     bindE (return (decode_dlq (cm_Value m))) (\<lambda>d. repo_CreateDeadLetterMessage repo (dlq_record m d))"

definition dlq_processMessage :: "SeckillRepo \<Rightarrow> ConsumerMessage \<Rightarrow> (world, unit) state" where
  "dlq_processMessage repo m = do {
     r \<leftarrow> dlq_handle repo m;
     case r of Inl _ \<Rightarrow> return () | Inr _ \<Rightarrow> commit_offset m }"

definition dlq_ConsumeClaim :: "SeckillRepo \<Rightarrow> ConsumerMessage list \<Rightarrow> (world, unit) state" where
  "dlq_ConsumeClaim repo ms = for_each (dlq_processMessage repo) ms"

end
