(* ===== verification/Delay_Queue.thy ===== *)
theory Delay_Queue
  imports Consumer "HOL-Library.Char_ord" "HOL-Library.List_Lexorder"
begin

text \<open>
  \<open>internal/job/delay_queue.go\<close>: the two sorted sets, the claim and requeue scripts, one poll
  and the goroutine that cancels a claimed order.  A poll returns the orders whose goroutines
  it starts; \<open>cancelTask\<close> is the body of one.  The semaphore only delays the start of a
  goroutine.
\<close>

section \<open>Sorted sets\<close>

text \<open>
  A sorted set is an association list of members and scores; Redis lists it by score and, at
  equal scores, by the members' bytes.  A set that loses its last member is deleted.
\<close>

definition zset :: "string \<Rightarrow> world \<Rightarrow> error + (string \<times> int) list" where
  "zset k w = (case rlookup k w of
       None \<Rightarrow> Inr []
     | Some (RZset z) \<Rightarrow> Inr z
     | Some _ \<Rightarrow> Inl WrongType)"

definition zput :: "string \<Rightarrow> (string \<times> int) list \<Rightarrow> world \<Rightarrow> world" where
  "zput k z w = (if z = [] then rdel k w else rset k (RZset z) w)"

definition zsorted :: "(string \<times> int) list \<Rightarrow> (string \<times> int) list" where
  "zsorted z = sort_key snd (sort_key fst z)"

definition cmd_ZADD :: "string \<Rightarrow> int \<Rightarrow> string \<Rightarrow> world \<Rightarrow> (error + unit) \<times> world" where
  "cmd_ZADD k score m w = (case zset k w of
       Inl e \<Rightarrow> (Inl e, w)
     | Inr z \<Rightarrow> (Inr (), zput k (AList.update m score z) w))"

text \<open>\<open>ZREM\<close> returns how many members it removed.\<close>

definition cmd_ZREM :: "string \<Rightarrow> string \<Rightarrow> world \<Rightarrow> (error + int) \<times> world" where
  "cmd_ZREM k m w = (case zset k w of
       Inl e \<Rightarrow> (Inl e, w)
     | Inr z \<Rightarrow> if map_of z m = None then (Inr 0, w) else (Inr 1, zput k (AList.delete m z) w))"

definition zrange_due :: "int \<Rightarrow> nat \<Rightarrow> (string \<times> int) list \<Rightarrow> string list" where
  "zrange_due now limit z = take limit (map fst (filter (\<lambda>p. snd p \<le> now) (zsorted z)))"

section \<open>The scripts\<close>

text \<open>
  The loop the two scripts share: an item that \<open>ZREM\<close> removes from the source is added to the
  target with the given score.  An error ends the script; what was done stays.
\<close>

fun move_items :: "string \<Rightarrow> string \<Rightarrow> int \<Rightarrow> string list \<Rightarrow> world \<Rightarrow> (error + string list) \<times> world" where
  "move_items src dst score [] w = (Inr [], w)"
| "move_items src dst score (m # ms) w = (case cmd_ZREM src m w of
       (Inl e, w1) \<Rightarrow> (Inl e, w1)
     | (Inr n, w1) \<Rightarrow>
         if n = 1 then (case cmd_ZADD dst score m w1 of
             (Inl e, w2) \<Rightarrow> (Inl e, w2)
           | (Inr _, w2) \<Rightarrow> (case move_items src dst score ms w2 of
                 (Inl e, w3) \<Rightarrow> (Inl e, w3)
               | (Inr moved, w3) \<Rightarrow> (Inr (m # moved), w3)))
         else move_items src dst score ms w1)"

definition delayQueueKey :: string where "delayQueueKey = ''delay:orders''"
definition delayProcessingKey :: string where "delayProcessingKey = ''delay:orders:processing''"
definition delay_batchSize :: nat where "delay_batchSize = 100"
definition minPollInterval :: Time where "minPollInterval = second"
definition maxPollInterval :: Time where "maxPollInterval = 30 * second"
definition processingTimeout :: Time where "processingTimeout = 60 * second"

definition claim_script :: "string \<Rightarrow> string \<Rightarrow> int \<Rightarrow> int \<Rightarrow> nat \<Rightarrow> world \<Rightarrow> (error + string list) \<times> world" where
  "claim_script src dst now expireAt limit w = (case zset src w of
       Inl e \<Rightarrow> (Inl e, w)
     | Inr z \<Rightarrow> move_items src dst expireAt (zrange_due now limit z) w)"

definition requeue_script :: "string \<Rightarrow> string \<Rightarrow> int \<Rightarrow> nat \<Rightarrow> world \<Rightarrow> (error + string list) \<times> world" where
  "requeue_script src dst now limit w = (case zset src w of
       Inl e \<Rightarrow> (Inl e, w)
     | Inr z \<Rightarrow> (case move_items src dst now (zrange_due now limit z) w of
           (Inl e, w1) \<Rightarrow> (Inl e, w1)
         | (Inr _, w1) \<Rightarrow> (Inr (zrange_due now limit z), w1)))"

section \<open>The queue\<close>

definition DelayQueue_Add :: "string \<Rightarrow> Time \<Rightarrow> unit io" where
  "DelayQueue_Add orderNo delay = do {
     now \<leftarrow> Now;
     call (cmd_ZADD delayQueueKey (unix (now + delay)) orderNo) }"

definition delayQueue :: DelayQueue where
  "delayQueue = \<lparr>delay_Add = DelayQueue_Add\<rparr>"

definition claimDueOrders :: "nat \<Rightarrow> (string list) io" where
  "claimDueOrders limit = do {
     now \<leftarrow> Now;
     call (claim_script delayQueueKey delayProcessingKey (unix now) (unix (now + processingTimeout)) limit) }"

definition requeueExpiredProcessing :: "(world, unit) state" where
  "requeueExpiredProcessing = do {
     now \<leftarrow> Now;
     _ \<leftarrow> call (requeue_script delayProcessingKey delayQueueKey (unix now) delay_batchSize);
     return () }"

text \<open>\<open>ZRANGE key 0 0 WITHSCORES\<close>.\<close>

definition rdb_ZFirst :: "string \<Rightarrow> ((string \<times> int) option) io" where
  "rdb_ZFirst k = query (\<lambda>w. case zset k w of
       Inl e \<Rightarrow> Inl e
     | Inr z \<Rightarrow> Inr (case zsorted z of [] \<Rightarrow> None | p # _ \<Rightarrow> Some p))"

definition nextPollTime :: "(world, Time) state" where
  "nextPollTime = do {
     r \<leftarrow> rdb_ZFirst delayQueueKey;
     now \<leftarrow> Now;
     case r of
       Inr (Some p) \<Rightarrow>
         (let waitDur = snd p * second - now;
              waitDur = (if waitDur < minPollInterval then minPollInterval else waitDur);
              waitDur = (if maxPollInterval < waitDur then maxPollInterval else waitDur)
          in return (now + waitDur))
     | _ \<Rightarrow> return (now + maxPollInterval) }"

definition runOnce :: "(world, string list \<times> Time) state" where
  "runOnce = do {
     requeueExpiredProcessing;
     r \<leftarrow> claimDueOrders delay_batchSize;
     case r of
       Inl _ \<Rightarrow> do { now \<leftarrow> Now; return ([], now + maxPollInterval) }
     | Inr due \<Rightarrow>
         if length due = delay_batchSize then do { now \<leftarrow> Now; return (due, now) }
         else do { t \<leftarrow> nextPollTime; return (due, t) } }"

section \<open>Cancelling a claimed order\<close>

definition order_lock_key :: "string \<Rightarrow> string" where
  "order_lock_key orderNo = ''lock:order:'' @ orderNo"

definition handleTimeout :: "env \<Rightarrow> OrderCancelService \<Rightarrow> string \<Rightarrow> unit io" where
  "handleTimeout E canceler orderNo = do {
     lockValue \<leftarrow> NewString E;
     bindE (rdb_SetNX (order_lock_key orderNo) (STxt lockValue) (30 * second)) (\<lambda>lock.
       if \<not> lock then return (Inl (Plain (''order cancel lock busy: '' @ orderNo)))
       else do {
         r \<leftarrow> CancelTimeoutOrder canceler orderNo;
         _ \<leftarrow> call (release_script (order_lock_key orderNo) lockValue);
         return r }) }"

definition cancelTask :: "env \<Rightarrow> OrderCancelService \<Rightarrow> string \<Rightarrow> (world, unit) state" where
  "cancelTask E canceler orderNo = do {
     r \<leftarrow> handleTimeout E canceler orderNo;
     case r of
       Inl _ \<Rightarrow> return ()
     | Inr _ \<Rightarrow> do { _ \<leftarrow> call (cmd_ZREM delayProcessingKey orderNo); return () } }"

section \<open>What the scripts keep\<close>

lemma zset_put [simp]: "zset k (zput k' z w) = (if k = k' then Inr z else zset k w)"
  by (auto simp: zset_def zput_def)

lemma zput_frame [simp]:
  "core (zput k z w) = core w" "clock (zput k z w) = clock w" "replies (zput k z w) = replies w"
  by (simp_all add: zput_def)

lemma zset_replies [simp]: "zset k (w\<lparr>replies := rs\<rparr>) = zset k w"
  by (simp add: zset_def)

lemma neutral_zput: "redis_neutral f \<Longrightarrow> f (zput k z w) = f w"
  by (simp add: zput_def redis_neutral_rset redis_neutral_rdel)

lemma neutral_zcmds:
  "redis_neutral f \<Longrightarrow> f (snd (cmd_ZADD k s m w)) = f w"
  "redis_neutral f \<Longrightarrow> f (snd (cmd_ZREM k m w)) = f w"
  by (auto simp: cmd_ZADD_def cmd_ZREM_def neutral_zput split: sum.splits)

lemma neutral_move_items: "redis_neutral f \<Longrightarrow> f (snd (move_items src dst s ms w)) = f w"
proof (induction ms arbitrary: w)
  case (Cons m ms)
  show ?case
    using neutral_zcmds(1) [OF Cons.prems, of dst s m] neutral_zcmds(2) [OF Cons.prems, of src m w] Cons.IH [OF Cons.prems]
    by (auto split: prod.splits sum.splits) (metis snd_conv)+
qed simp

lemma neutral_zscripts:
  "redis_neutral f \<Longrightarrow> f (snd (claim_script src dst n t l w)) = f w"
  "redis_neutral f \<Longrightarrow> f (snd (requeue_script src dst n l w)) = f w"
  using neutral_move_items [of f src dst]
  by (auto simp: claim_script_def requeue_script_def split: sum.splits prod.splits) (metis snd_conv)+

text \<open>
  The effect of the loop on the two sets: every item that was in the source is in the target
  with the new score, and everything else is where it was.
\<close>

lemma move_items_effect:
  assumes "src \<noteq> dst" and "zset src w = Inr p" and "zset dst w = Inr q"
    and "distinct ms" and "\<forall>m \<in> set ms. map_of p m \<noteq> None"
  shows "\<exists>p' q' w'. move_items src dst s ms w = (Inr ms, w') \<and> zset src w' = Inr p' \<and> zset dst w' = Inr q' \<and>
     map_of p' = map_of p |` (- set ms) \<and>
     map_of q' = (\<lambda>x. if x \<in> set ms then Some s else map_of q x)"
  using assms
proof (induction ms arbitrary: w p q)
  case Nil
  then show ?case by simp
next
  case (Cons m ms)
  let ?w1 = "zput src (AList.delete m p) w"
  let ?w2 = "zput dst (AList.update m s q) ?w1"
  have "\<exists>p' q' w'. move_items src dst s ms ?w2 = (Inr ms, w') \<and> zset src w' = Inr p' \<and> zset dst w' = Inr q' \<and>
     map_of p' = map_of (AList.delete m p) |` (- set ms) \<and>
     map_of q' = (\<lambda>x. if x \<in> set ms then Some s else map_of (AList.update m s q) x)"
    by (rule Cons.IH) (use Cons.prems in \<open>auto simp: delete_conv'\<close>)
  moreover have "cmd_ZREM src m w = (Inr 1, ?w1)" using Cons.prems by (simp add: cmd_ZREM_def)
  moreover have "cmd_ZADD dst s m ?w1 = (Inr (), ?w2)" using Cons.prems by (simp add: cmd_ZADD_def)
  moreover have "map_of (AList.delete m p) |` (- set ms) = map_of p |` (- set (m # ms))"
    by (rule ext) (auto simp: delete_conv' restrict_map_def)
  moreover have "(\<lambda>x. if x \<in> set ms then Some s else map_of (AList.update m s q) x)
      = (\<lambda>x. if x \<in> set (m # ms) then Some s else map_of q x)"
    by (rule ext) (auto simp: update_conv')
  ultimately show ?case by auto
qed

lemma set_zsorted [simp]: "set (zsorted z) = set z"
  by (simp add: zsorted_def)

lemma map_fst_zsorted: "distinct (map fst z) \<Longrightarrow> distinct (map fst (zsorted z))"
  by (simp add: zsorted_def distinct_map)

lemma zrange_due_distinct: "distinct (map fst z) \<Longrightarrow> distinct (zrange_due now l z)"
  by (simp add: zrange_due_def distinct_map_filter map_fst_zsorted distinct_take)

lemma zrange_due_in: "m \<in> set (zrange_due now l z) \<Longrightarrow> \<exists>s. (m, s) \<in> set z \<and> s \<le> now"
  unfolding zrange_due_def by (drule in_set_takeD) auto

lemma zrange_due_map: "m \<in> set (zrange_due now l z) \<Longrightarrow> map_of z m \<noteq> None"
  using zrange_due_in [of m now l z] by (auto simp: map_of_eq_None_iff) (metis fst_conv image_eqI)

lemma zrange_due_score: "distinct (map fst z) \<Longrightarrow> m \<in> set (zrange_due now l z) \<Longrightarrow> \<exists>s \<le> now. map_of z m = Some s"
  using zrange_due_in [of m now l z] by (auto)

text \<open>Claiming: the claimed orders are due, at most \<open>limit\<close>, and in the processing set until the timeout.\<close>

lemma claim_effect:
  assumes "src \<noteq> dst" and "zset src w = Inr p" and "zset dst w = Inr q" and "distinct (map fst p)"
  shows "\<exists>p' q' w'. claim_script src dst now t l w = (Inr (zrange_due now l p), w') \<and>
     zset src w' = Inr p' \<and> zset dst w' = Inr q' \<and>
     map_of p' = map_of p |` (- set (zrange_due now l p)) \<and>
     map_of q' = (\<lambda>x. if x \<in> set (zrange_due now l p) then Some t else map_of q x)"
  using move_items_effect [OF assms(1-3) zrange_due_distinct [OF assms(4)], of now l t] zrange_due_map assms(2)
  by (auto simp: claim_script_def)

lemma requeue_effect:
  assumes "src \<noteq> dst" and "zset src w = Inr p" and "zset dst w = Inr q" and "distinct (map fst p)"
  shows "\<exists>p' q' w'. requeue_script src dst now l w = (Inr (zrange_due now l p), w') \<and>
     zset src w' = Inr p' \<and> zset dst w' = Inr q' \<and>
     map_of p' = map_of p |` (- set (zrange_due now l p)) \<and>
     map_of q' = (\<lambda>x. if x \<in> set (zrange_due now l p) then Some now else map_of q x)"
  using move_items_effect [OF assms(1-3) zrange_due_distinct [OF assms(4)], of now l now] zrange_due_map assms(2)
  by (auto simp: requeue_script_def)

lemma neutral_queue [frame]:
  "redis_neutral f \<Longrightarrow> same f (DelayQueue_Add n d)"
  "redis_neutral f \<Longrightarrow> same f (claimDueOrders l)"
  "redis_neutral f \<Longrightarrow> same f requeueExpiredProcessing"
  "redis_neutral f \<Longrightarrow> same f nextPollTime"
  unfolding DelayQueue_Add_def claimDueOrders_def requeueExpiredProcessing_def nextPollTime_def rdb_ZFirst_def Let_def
  by (intro frame neutral_same_call neutral_zcmds neutral_zscripts | assumption)+

end
