(* ===== verification/Leader.thy ===== *)
theory Leader
  imports Delay_Queue
begin

text \<open>
  \<open>internal/job/leader.go\<close>: the election of the instance that runs a job.  The steps of
  \<open>Run\<close> and \<open>runAsLeader\<close> are a step relation on the elector's state, in the order the
  select statements allow; a cluster interleaves the steps of its instances with the passing
  of time.  The job started by a leader is a worker of its own, identified by the leader's
  token, that ends when its function returns.
\<close>

section \<open>One elector\<close>

record LeaderIdentity =
  li_Host :: string
  li_PID :: nat
  li_Key :: string
  li_ID :: string

text \<open>
  \<open>json.Marshal\<close> of the identity; host names, keys and identifiers hold no character JSON
  would escape.
\<close>

definition identity_text :: "LeaderIdentity \<Rightarrow> string" where
  "identity_text d = ''{\"host\":\"'' @ li_Host d @ ''\",\"pid\":'' @ dec (li_PID d) @ '',\"key\":\"'' @ li_Key d
     @ ''\",\"id\":\"'' @ li_ID d @ ''\"}''"

record LeaderElector =
  el_host :: string
  el_pid :: nat
  el_key :: string
  el_ttl :: Time

definition newToken :: "env \<Rightarrow> LeaderElector \<Rightarrow> (world, string) state" where
  "newToken E e = do {
     i \<leftarrow> NewString E;
     return (identity_text \<lparr>li_Host = el_host e, li_PID = el_pid e, li_Key = el_key e, li_ID = i\<rparr>) }"

definition retryInterval :: "LeaderElector \<Rightarrow> Time" where
  "retryInterval e = (if go_div (el_ttl e) 3 < second then second else go_div (el_ttl e) 3)"

text \<open>One turn of the loop of \<open>Run\<close> up to the acquisition: the token of a new leader, or a wait.\<close>

definition tryLead :: "env \<Rightarrow> CacheRepo \<Rightarrow> LeaderElector \<Rightarrow> (world, string option) state" where
  "tryLead E cache e = do {
     token \<leftarrow> newToken E e;
     acquired \<leftarrow> cache_AcquireLock cache (el_key e) token (el_ttl e);
     if acquired = Inr True then return (Some token)
     else do { Sleep (retryInterval e); return None } }"

text \<open>One tick of the renewal: whether the instance stays leader.\<close>

definition renewLead :: "CacheRepo \<Rightarrow> LeaderElector \<Rightarrow> string \<Rightarrow> (world, bool) state" where
  "renewLead cache e token = do {
     ok \<leftarrow> cache_RenewLock cache (el_key e) token (el_ttl e);
     return (ok = Inr True) }"

text \<open>The deferred release when \<open>runAsLeader\<close> returns.\<close>

definition leaveLead :: "CacheRepo \<Rightarrow> LeaderElector \<Rightarrow> string \<Rightarrow> (world, unit) state" where
  "leaveLead cache e token = do { _ \<leftarrow> cache_ReleaseLock cache (el_key e) token; return () }"

datatype phase = Seeking | Leading string | Stopped

record instance_state =
  in_phase :: phase
  in_workers :: "string list"

text \<open>
  The steps of an instance.  A lost renewal ends \<open>runAsLeader\<close> but not its worker, which
  runs on until its own function returns.
\<close>

inductive elector_step ::
    "env \<Rightarrow> CacheRepo \<Rightarrow> LeaderElector \<Rightarrow> instance_state \<times> world \<Rightarrow> instance_state \<times> world \<Rightarrow> bool"
  for E cache e where
  acquire: "in_phase s = Seeking \<Longrightarrow> run_state (tryLead E cache e) w = (Some t, w') \<Longrightarrow>
    elector_step E cache e (s, w) (s\<lparr>in_phase := Leading t, in_workers := t # in_workers s\<rparr>, w')"
| miss: "in_phase s = Seeking \<Longrightarrow> run_state (tryLead E cache e) w = (None, w') \<Longrightarrow>
    elector_step E cache e (s, w) (s, w')"
| renew: "in_phase s = Leading t \<Longrightarrow> run_state (renewLead cache e t) w = (True, w') \<Longrightarrow>
    elector_step E cache e (s, w) (s, w')"
| lose: "in_phase s = Leading t \<Longrightarrow> run_state (renewLead cache e t) w = (False, w1) \<Longrightarrow>
    run_state (leaveLead cache e t) w1 = ((), w') \<Longrightarrow>
    elector_step E cache e (s, w) (s\<lparr>in_phase := Seeking\<rparr>, w')"
| job_done: "in_phase s = Leading t \<Longrightarrow> t \<in> set (in_workers s) \<Longrightarrow> run_state (leaveLead cache e t) w = ((), w') \<Longrightarrow>
    elector_step E cache e (s, w) (s\<lparr>in_phase := Seeking, in_workers := remove1 t (in_workers s)\<rparr>, w')"
| orphan_done: "t \<in> set (in_workers s) \<Longrightarrow> in_phase s \<noteq> Leading t \<Longrightarrow>
    elector_step E cache e (s, w) (s\<lparr>in_workers := remove1 t (in_workers s)\<rparr>, w)"
| stop_leading: "in_phase s = Leading t \<Longrightarrow> run_state (leaveLead cache e t) w = ((), w') \<Longrightarrow>
    elector_step E cache e (s, w) (s\<lparr>in_phase := Stopped\<rparr>, w')"
| stop_seeking: "in_phase s = Seeking \<Longrightarrow> elector_step E cache e (s, w) (s\<lparr>in_phase := Stopped\<rparr>, w)"

section \<open>A cluster\<close>

type_synonym cluster = "(nat \<Rightarrow> instance_state) \<times> world"

text \<open>Instance \<open>i\<close> runs the elector \<open>el i\<close>; between steps the clock moves on.\<close>

inductive cluster_step :: "env \<Rightarrow> CacheRepo \<Rightarrow> (nat \<Rightarrow> LeaderElector) \<Rightarrow> cluster \<Rightarrow> cluster \<Rightarrow> bool"
  for E cache el where
  instance_step: "elector_step E cache (el i) (c i, w) (s, w') \<Longrightarrow> cluster_step E cache el (c, w) (c(i := s), w')"
| time_step: "0 \<le> d \<Longrightarrow> cluster_step E cache el (c, w) (c, w\<lparr>clock := clock w + d\<rparr>)"

definition started :: "nat \<Rightarrow> instance_state" where
  "started i = \<lparr>in_phase = Seeking, in_workers = []\<rparr>"

inductive cluster_reach :: "env \<Rightarrow> CacheRepo \<Rightarrow> (nat \<Rightarrow> LeaderElector) \<Rightarrow> world \<Rightarrow> cluster \<Rightarrow> bool"
  for E cache el w0 where
  start: "cluster_reach E cache el w0 (started, w0)"
| cstep: "cluster_reach E cache el w0 x \<Longrightarrow> cluster_step E cache el x y \<Longrightarrow> cluster_reach E cache el w0 y"

inductive_cases elector_stepE: "elector_step E cache e (s, w) (s', w')"
inductive_cases cluster_stepE: "cluster_step E cache el (c, w) y"

section \<open>Tokens\<close>

text \<open>The token drawn at tick \<open>n\<close> by an elector.\<close>

definition token_at :: "env \<Rightarrow> LeaderElector \<Rightarrow> nat \<Rightarrow> string" where
  "token_at E e n = identity_text \<lparr>li_Host = el_host e, li_PID = el_pid e, li_Key = el_key e, li_ID = uuid E n\<rparr>"

lemma run_newToken [simp]:
  "run_state (newToken E e) w = (token_at E e (ticks w), w\<lparr>ticks := Suc (ticks w)\<rparr>)"
  by (simp add: newToken_def NewString_def token_at_def)

text \<open>
  Identifiers that \<open>uuid\<close> draws differ and hold no quote, so a token shows the identifier it
  was made with between its last two quotes.
\<close>

definition uuids_differ :: "env \<Rightarrow> bool" where
  "uuids_differ E \<longleftrightarrow> inj (uuid E) \<and> (\<forall>n. CHR 0x22 \<notin> set (uuid E n))"

lemma takeWhile_stop: "c \<notin> set xs \<Longrightarrow> takeWhile (\<lambda>x. x \<noteq> c) (xs @ c # ys) = xs"
  by (induction xs) auto

lemma token_at_id:
  assumes "uuids_differ E"
  shows "takeWhile (\<lambda>c. c \<noteq> CHR 0x22) (drop 2 (rev (token_at E e n))) = rev (uuid E n)"
proof -
  have "CHR 0x22 \<notin> set (rev (uuid E n))" using assms by (simp add: uuids_differ_def)
  then show ?thesis by (simp add: token_at_def identity_text_def takeWhile_stop)
qed

lemma token_at_inj:
  assumes "uuids_differ E" and "token_at E e m = token_at E e' n"
  shows "m = n"
proof -
  have "rev (uuid E m) = rev (uuid E n)"
    using token_at_id [OF assms(1), of e m] token_at_id [OF assms(1), of e' n] assms(2) by simp
  then show ?thesis using assms(1) by (auto simp: uuids_differ_def dest: injD)
qed

end
