(* ===== verification/Compensate.thy ===== *)
theory Compensate
  imports Leader
begin

text \<open>
  \<open>internal/job/compensate.go\<close>: the stock synchronisation and the repair of reservations whose
  order never came.  A pass reads the pages of one \<open>SCAN\<close> iteration; an error of a page ends
  it.  A key holds only the kind of document its prefix names.
\<close>

section \<open>Stock synchronisation\<close>

definition sync_product :: "CacheRepo \<Rightarrow> SeckillProduct \<Rightarrow> (world, unit) state" where
  "sync_product cache p = do {
     r \<leftarrow> cache_GetStock cache (sp_ActivityID p) (sp_SkuID p);
     case r of
       Inl _ \<Rightarrow> return ()
     | Inr redisStock \<Rightarrow>
         if redisStock \<noteq> sp_AvailableStock p
         then do { _ \<leftarrow> cache_SetStock cache (sp_ActivityID p) (sp_SkuID p) (sp_AvailableStock p); return () }
         else return () }"

definition syncStockConsistency :: "SeckillRepo \<Rightarrow> CacheRepo \<Rightarrow> (world, unit) state" where
  "syncStockConsistency repo cache = do {
     r \<leftarrow> repo_ListSeckillProducts repo 0 1 1000 0;
     case r of
       Inl _ \<Rightarrow> return ()
     | Inr (ps, _) \<Rightarrow> for_each (sync_product cache) ps }"

section \<open>Pending reservations\<close>

definition decode_pending :: "sval \<Rightarrow> error + PendingReservation" where
  "decode_pending s = (case s of SJson (DPending p) \<Rightarrow> Inr p | _ \<Rightarrow> Inl JsonError)"

definition drop_key :: "string \<Rightarrow> (world, unit) state" where
  "drop_key k = do { _ \<leftarrow> rdb_Del [k]; return () }"

definition compensate_reservation ::
    "SeckillRepo \<Rightarrow> CacheRepo \<Rightarrow> string \<Rightarrow> PendingReservation \<Rightarrow> (world, unit) state" where
  "compensate_reservation repo cache key p = do {
     r \<leftarrow> cache_RollbackStock cache (pr_ActivityID p) (pr_SkuID p) (pr_Quantity p);
     case r of
       Inl _ \<Rightarrow> return ()
     | Inr _ \<Rightarrow> do {
         r \<leftarrow> cache_RemoveUserBuy cache (pr_ActivityID p) (pr_SkuID p) (pr_UserID p);
         case r of
           Inl _ \<Rightarrow> return ()
         | Inr _ \<Rightarrow>
             if pr_CouponID p > 0
             then do {
               r \<leftarrow> repo_RestoreUserCoupon repo (pr_CouponID p);
               case r of
                 Inl _ \<Rightarrow> return ()
               | Inr _ \<Rightarrow> do { _ \<leftarrow> cache_DeleteCoupon cache (pr_CouponID p); drop_key key } }
             else drop_key key } }"

definition fix_pending :: "SeckillRepo \<Rightarrow> CacheRepo \<Rightarrow> string \<Rightarrow> (world, unit) state" where
  "fix_pending repo cache key = do {
     d \<leftarrow> rdb_Get key;
     case d of
       Inl _ \<Rightarrow> return ()
     | Inr s \<Rightarrow> (case decode_pending s of
           Inl _ \<Rightarrow> drop_key key
         | Inr p \<Rightarrow> do {
             now \<leftarrow> Now;
             if now - pr_CreatedAt p * second < 2 * minute then return ()
             else do {
               r \<leftarrow> repo_GetOrderByRequestID repo (pr_RequestID p);
               case r of
                 Inr _ \<Rightarrow> drop_key key
               | Inl e \<Rightarrow>
                   if errors_is e ErrOrderNotFound then compensate_reservation repo cache key p
                   else return () } }) }"

definition pending_prefix :: string where
  "pending_prefix = ''seckill:pending:''"

fun fix_pages :: "SeckillRepo \<Rightarrow> CacheRepo \<Rightarrow> string list list \<Rightarrow> (world, unit) state" where
  "fix_pages repo cache [] = return ()"
| "fix_pages repo cache (page # pages) = do {
     ks \<leftarrow> rdb_Scan pending_prefix page;
     case ks of
       Inl _ \<Rightarrow> return ()
     | Inr ks \<Rightarrow> do {
         for_each (fix_pending repo cache) ks;
         fix_pages repo cache pages } }"

definition fixPendingReservations :: "env \<Rightarrow> SeckillRepo \<Rightarrow> CacheRepo \<Rightarrow> (world, unit) state" where
  "fixPendingReservations E repo cache = do {
     ks \<leftarrow> asks live_keys;
     fix_pages repo cache (scan_plan E ks) }"

text \<open>One tick of the job.\<close>

definition compensate_tick :: "env \<Rightarrow> SeckillRepo \<Rightarrow> CacheRepo \<Rightarrow> (world, unit) state" where
  "compensate_tick E repo cache = do {
     syncStockConsistency repo cache;
     fixPendingReservations E repo cache }"

end
