(* ===== verification/Service_Types.thy ===== *)
theory Service_Types
  imports Compensate
begin

text \<open>
  The messages of \<open>api/seckill/v1/seckill.proto\<close> with the fields that
  \<open>internal/service/seckills.go\<close> reads and writes, and the errors a handler returns: a gRPC
  status or a Kratos error with its HTTP code and reason.
\<close>

datatype code = InvalidArgument | NotFound | AlreadyExists | PermissionDenied | ResourceExhausted
  | FailedPrecondition | Internal

datatype rpc_error = Status code string | KratosError int string string | NilDereference

type_synonym 'a rpc = "(world, rpc_error + 'a) state"

section \<open>Requests\<close>

record SeckillProductsRequest =
  spq_UserId :: int
  spq_ActivityId :: int
  spq_Page :: int
  spq_PageSize :: int
  spq_SortType :: int

record SeckillProductDetailRequest =
  dq_UserId :: int
  dq_ProductId :: int
  dq_ActivityId :: int

record CreateSeckillOrderRequest =
  cq_UserId :: int
  cq_SkuId :: int
  cq_ActivityId :: int
  cq_ProductId :: int
  cq_Quantity :: int
  cq_CouponId :: int
  cq_AddressId :: int
  cq_ClientIp :: string
  cq_RequestId :: string

record PayCallbackPb =
  pq_OrderNo :: string
  pq_PlatformNumber :: string
  pq_PayAmount :: int
  pq_PlatformStatus :: string
  pq_PayTime :: int
  pq_Sign :: string

record GrantCouponByReviewRequest =
  gq_UserId :: int
  gq_ReviewId :: int
  gq_OrderNo :: string
  gq_ProductId :: int
  gq_Rating :: int
  gq_HasImage :: bool
  gq_IsFirstReview :: bool
  gq_Scene :: string
  gq_IdempotencyKey :: string

record UpdateSeckillActivityRequest =
  uaq_ActivityId :: int
  uaq_Title :: string
  uaq_Description :: string
  uaq_StartTime :: string
  uaq_EndTime :: string
  uaq_Status :: int
  uaq_WarmUp :: bool

record UpdateSeckillProductRequest =
  upq_ActivityId :: int
  upq_ProductId :: int
  upq_Name :: string
  upq_Subtitle :: string
  upq_MainImage :: string
  upq_Detail :: string
  upq_ProductStatus :: int
  upq_SeckillPrice :: int
  upq_MarketPrice :: int
  upq_TotalStock :: int
  upq_AvailableStock :: int
  upq_LimitNum :: int
  upq_WarmUp :: bool

section \<open>Responses\<close>

record ProductInfoPb =
  pi_SkuId :: int
  pi_ProductId :: int
  pi_Name :: string
  pi_MainImage :: string
  pi_SeckillPrice :: int
  pi_MarketPrice :: int
  pi_AvailableStock :: int
  pi_TotalStock :: int
  pi_LimitNum :: int
  pi_SaleRate :: int
  pi_UserHasBought :: bool

record ActivityInfoPb =
  ai_Id :: int
  ai_Title :: string
  ai_Description :: string
  ai_StartTime :: string
  ai_EndTime :: string
  ai_Status :: int
  ai_RemainingSeconds :: int

record SeckillProductsResponse =
  psr_Total :: int
  psr_Page :: int
  psr_PageSize :: int
  psr_Products :: "ProductInfoPb list"
  psr_Activity :: "ActivityInfoPb option"

record ProductDetailPb =
  dp_ProductId :: int
  dp_Name :: string
  dp_Subtitle :: string
  dp_MainImage :: string
  dp_Detail :: string
  dp_SkuId :: int
  dp_SeckillPrice :: int
  dp_MarketPrice :: int
  dp_TotalStock :: int
  dp_AvailableStock :: int
  dp_LimitNum :: int
  dp_ActivityId :: int
  dp_ActivityTitle :: string
  dp_ActivityDescription :: string
  dp_StartTime :: string
  dp_EndTime :: string
  dp_ActivityStatus :: int
  dp_RemainingSeconds :: int

text \<open>The list of available coupons is always empty.\<close>

record SeckillProductDetailResponse =
  dr_Product :: ProductDetailPb
  dr_UserStatus :: "UserSeckillStatus option"

record GetCurrentActivityResponse =
  ar_Activity :: "ActivityInfoPb option"
  ar_ProductCount :: int

record CreateSeckillOrderResponse =
  cr_OrderNo :: string
  cr_OrderAmount :: int
  cr_CouponDiscount :: int
  cr_FinalAmount :: int
  cr_Status :: int
  cr_SeckillPrice :: int
  cr_Quantity :: int
  cr_Message :: string
  cr_RemainingSeconds :: int

record SeckillOrderInfoPb =
  soi_OrderNo :: string
  soi_UserId :: int
  soi_ActivityId :: int
  soi_ProductId :: int
  soi_SkuId :: int
  soi_ProductName :: string
  soi_ProductImage :: string
  soi_SeckillPrice :: int
  soi_Quantity :: int
  soi_OrderAmount :: int
  soi_CouponId :: int
  soi_CouponDiscount :: int
  soi_FinalAmount :: int
  soi_Status :: int
  soi_CreateTime :: string
  soi_RemainingSeconds :: int
  soi_Address :: "AddressSnapshot option"

record GetSeckillResultResponse =
  rr_Status :: int
  rr_OrderNo :: string
  rr_Message :: string
  rr_OrderAmount :: int

record PaySeckillOrderResponse =
  pay_r_Success :: bool
  pay_r_Message :: string
  pay_r_PayUrl :: string
  pay_r_PayAmount :: int
  pay_r_PlatformNumber :: string

record SuccessReply =
  sr_Success :: bool
  sr_Message :: string

record UserCouponInfoPb =
  uci_Id :: int
  uci_CouponId :: int
  uci_Name :: string
  uci_Type :: int
  uci_Value :: int
  uci_MinAmount :: int
  uci_Scene :: string
  uci_Status :: int
  uci_ReceivedTime :: string
  uci_UsedTime :: string
  uci_ExpireTime :: string

record GrantCouponByReviewReply =
  gr_Success :: bool
  gr_Message :: string
  gr_Coupon :: "UserCouponInfoPb option"
  gr_Duplicated :: bool

record ListUserCouponsReply =
  lr_Total :: int
  lr_Page :: int
  lr_PageSize :: int
  lr_Coupons :: "UserCouponInfoPb list"

end
