(* ===== verification/Service.thy ===== *)
theory Service
  imports Service_Types
begin

text \<open>
  \<open>internal/service/seckills.go\<close>: the handlers of the gRPC service, their checks of the
  request, the translation of errors into statuses and of results into messages.  An
  \<open>int64\<close> field of a message becomes an unsigned identifier by \<open>uint64()\<close> and back by
  \<open>int64()\<close>.
\<close>

section \<open>Errors and results\<close>

definition rpc_of :: "(error \<Rightarrow> rpc_error) \<Rightarrow> ('a \<Rightarrow> 'b) \<Rightarrow> 'a io \<Rightarrow> 'b rpc" where
  "rpc_of f g m = do { r \<leftarrow> m; return (map_sum f g r) }"

definition mapCacheAsideUpdateError :: "error \<Rightarrow> rpc_error" where
  "mapCacheAsideUpdateError e =
     (if errors_is e ErrInvalidCacheAsideUpdate then Status InvalidArgument (err_text e)
      else if errors_is e ErrActivityNotFound \<or> errors_is e ErrProductNotFound then Status NotFound (err_text e)
      else Status Internal (err_text e))"

definition mapPayCallbackError :: "error \<Rightarrow> rpc_error" where
  "mapPayCallbackError e =
     (if errors_is e ErrInvalidPaySign then Status PermissionDenied (err_text e)
      else if errors_is e ErrPayInfoNotFound \<or> errors_is e ErrOrderNotFound then Status NotFound (err_text e)
      else if errors_is e ErrPayAmountMismatch then Status FailedPrecondition (err_text e)
      else if errors_is e ErrOrderStatusIncorrect then Status FailedPrecondition (err_text e)
      else Status Internal (err_text e))"

definition map_create_error :: "error \<Rightarrow> rpc_error" where
  "map_create_error e =
     (if errors_is e ErrInsufficientStock then Status ResourceExhausted (utf8 [229, 186, 147, 229, 173, 152, 228, 184, 141, 232, 182, 179])
      else if errors_is e ErrOrderExists then Status AlreadyExists (utf8 [232, 174, 162, 229, 141, 149, 229, 183, 178, 229, 173, 152, 229, 156, 168])
      else if errors_is e ErrExceedLimit then Status FailedPrecondition (utf8 [232, 182, 133, 232, 191, 135, 233, 153, 144, 232, 180, 173, 230, 149, 176, 233, 135, 143])
      else if errors_is e ErrActivityNotStart then Status FailedPrecondition (utf8 [230, 180, 187, 229, 138, 168, 230, 156, 170, 229, 188, 128, 229, 167, 139])
      else if errors_is e ErrActivityEnded then Status FailedPrecondition (utf8 [230, 180, 187, 229, 138, 168, 229, 183, 178, 231, 187, 147, 230, 157, 159])
      else Status Internal (utf8 [229, 136, 155, 229, 187, 186, 232, 174, 162, 229, 141, 149, 229, 164, 177, 232, 180, 165, 58, 32] @ err_text e))"

definition map_order_error :: "error \<Rightarrow> rpc_error" where
  "map_order_error e =
     (if errors_is e ErrOrderNotFound then KratosError 404 ''ORDER_NOT_FOUND'' (utf8 [232, 174, 162, 229, 141, 149, 228, 184, 141, 229, 173, 152, 229, 156, 168])
      else if errors_is e ErrUserNotMatch then KratosError 403 ''USER_NOT_MATCH'' (utf8 [231, 148, 168, 230, 136, 183, 228, 184, 141, 229, 140, 185, 233, 133, 141])
      else KratosError 500 ''QUERY_ORDER_FAILED'' (utf8 [230, 159, 165, 232, 175, 162, 232, 174, 162, 229, 141, 149, 229, 164, 177, 232, 180, 165]))"

definition map_grant_error :: "error \<Rightarrow> rpc_error" where
  "map_grant_error e =
     (if errors_is e ErrCouponSceneInvalid then Status FailedPrecondition (err_text e)
      else if errors_is e ErrCouponInvalid then Status ResourceExhausted (err_text e)
      else Status Internal (err_text e))"

definition map_replay_error :: "error \<Rightarrow> rpc_error" where
  "map_replay_error e =
     (if errors_is e ErrDeadLetterNotFound then Status NotFound (err_text e) else Status Internal (err_text e))"

definition pb_product :: "SeckillProduct \<Rightarrow> ProductInfoPb" where
  "pb_product p = \<lparr>pi_SkuId = i64_of_u64 (sp_SkuID p), pi_ProductId = i64_of_u64 (sp_ProductID p),
     pi_Name = sp_Name p, pi_MainImage = sp_MainImage p, pi_SeckillPrice = i64_of_u64 (sp_SeckillPrice p),
     pi_MarketPrice = i64_of_u64 (sp_MarketPrice p), pi_AvailableStock = sp_AvailableStock p,
     pi_TotalStock = sp_TotalStock p, pi_LimitNum = sp_LimitNum p, pi_SaleRate = sp_SaleRate p,
     pi_UserHasBought = sp_UserHasBought p\<rparr>"

definition pb_activity :: "Activity \<Rightarrow> ActivityInfoPb" where
  "pb_activity a = \<lparr>ai_Id = i64_of_u64 (act_ID a), ai_Title = act_Title a, ai_Description = act_Description a,
     ai_StartTime = act_StartTime a, ai_EndTime = act_EndTime a, ai_Status = act_Status a,
     ai_RemainingSeconds = act_RemainingSeconds a\<rparr>"

definition pb_products :: "SeckillProductsResult \<Rightarrow> SeckillProductsResponse" where
  "pb_products r = \<lparr>psr_Total = spr_Total r, psr_Page = spr_Page r, psr_PageSize = spr_PageSize r,
     psr_Products = map pb_product (spr_Products r), psr_Activity = map_option pb_activity (spr_Activity r)\<rparr>"

definition pb_detail :: "SeckillProductDetail \<Rightarrow> ProductDetailPb" where
  "pb_detail p = \<lparr>dp_ProductId = i64_of_u64 (pd_ProductID p), dp_Name = pd_Name p, dp_Subtitle = pd_Subtitle p,
     dp_MainImage = pd_MainImage p, dp_Detail = pd_Detail p, dp_SkuId = i64_of_u64 (pd_SkuID p),
     dp_SeckillPrice = i64_of_u64 (pd_SeckillPrice p), dp_MarketPrice = i64_of_u64 (pd_MarketPrice p),
     dp_TotalStock = pd_TotalStock p, dp_AvailableStock = pd_AvailableStock p, dp_LimitNum = pd_LimitNum p,
     dp_ActivityId = i64_of_u64 (pd_ActivityID p), dp_ActivityTitle = pd_ActivityTitle p,
     dp_ActivityDescription = pd_Description p, dp_StartTime = pd_StartTime p, dp_EndTime = pd_EndTime p,
     dp_ActivityStatus = pd_ActivityStatus p, dp_RemainingSeconds = pd_RemainingSeconds p\<rparr>"

definition pb_order :: "OrderInfo \<Rightarrow> SeckillOrderInfoPb" where
  "pb_order r = \<lparr>soi_OrderNo = oi_OrderNo r, soi_UserId = i64_of_u64 (oi_UserID r),
     soi_ActivityId = i64_of_u64 (oi_ActivityID r), soi_ProductId = i64_of_u64 (oi_ProductID r),
     soi_SkuId = i64_of_u64 (oi_SkuID r), soi_ProductName = oi_ProductName r, soi_ProductImage = oi_ProductImage r,
     soi_SeckillPrice = i64_of_u64 (oi_SeckillPrice r), soi_Quantity = oi_Quantity r,
     soi_OrderAmount = i64_of_u64 (oi_OrderAmount r), soi_CouponId = i64_of_u64 (oi_CouponID r),
     soi_CouponDiscount = i64_of_u64 (oi_CouponDiscount r), soi_FinalAmount = i64_of_u64 (oi_FinalAmount r),
     soi_Status = oi_Status r, soi_CreateTime = oi_CreateTime r, soi_RemainingSeconds = oi_RemainingSeconds r,
     soi_Address = oi_Address r\<rparr>"

definition toProtoUserCoupon :: "UserCoupon \<Rightarrow> UserCouponInfoPb" where
  "toProtoUserCoupon c = \<lparr>uci_Id = i64_of_u64 (ucp_ID c), uci_CouponId = i64_of_u64 (ucp_CouponID c),
     uci_Name = ucp_Name c, uci_Type = ucp_Type c, uci_Value = i64_of_u64 (ucp_Value c),
     uci_MinAmount = i64_of_u64 (ucp_MinAmount c), uci_Scene = ucp_Scene c, uci_Status = ucp_Status c,
     uci_ReceivedTime = ucp_ReceivedTime c, uci_UsedTime = ucp_UsedTime c, uci_ExpireTime = ucp_ExpireTime c\<rparr>"

section \<open>Catalogue handlers\<close>

definition rpc_SeckillProducts :: "SeckillUsecase \<Rightarrow> SeckillProductsRequest \<Rightarrow> SeckillProductsResponse rpc" where
  "rpc_SeckillProducts uc req =
     rpc_of (\<lambda>e. Status Internal (utf8 [230, 159, 165, 232, 175, 162, 229, 164, 177, 232, 180, 165, 58, 32, 46] @ err_text e)) pb_products
       (ListSeckillProducts uc (spq_UserId req) (spq_ActivityId req) (spq_Page req) (spq_PageSize req) (spq_SortType req))"

definition rpc_SeckillProductDetail ::
    "env \<Rightarrow> SeckillUsecase \<Rightarrow> nat \<Rightarrow> SeckillProductDetailRequest \<Rightarrow> SeckillProductDetailResponse rpc" where
  "rpc_SeckillProductDetail E uc fuel req = do {
     r \<leftarrow> GetSeckillProductDetail E uc fuel (u64_of (dq_UserId req)) (u64_of (dq_ProductId req)) (u64_of (dq_ActivityId req));
     return (case r of
       Inl e \<Rightarrow> Inl (Status NotFound (utf8 [229, 149, 134, 229, 147, 129, 228, 184, 141, 229, 173, 152, 229, 156, 168, 58, 32] @ err_text e))
     | Inr res \<Rightarrow> (case pdr_Product res of
           None \<Rightarrow> Inl NilDereference
         | Some p \<Rightarrow> Inr \<lparr>dr_Product = pb_detail p, dr_UserStatus = pdr_UserStatus res\<rparr>)) }"

definition rpc_GetCurrentActivity :: "SeckillUsecase \<Rightarrow> GetCurrentActivityResponse rpc" where
  "rpc_GetCurrentActivity uc = do {
     r \<leftarrow> repo_GetCurrentActivity (uc_Repo uc);
     return (case r of
       Inl e \<Rightarrow> if errors_is e ErrNoActiveActivity then Inr \<lparr>ar_Activity = None, ar_ProductCount = 0\<rparr>
                else Inl (Status Internal (utf8 [230, 159, 165, 232, 175, 162, 229, 164, 177, 232, 180, 165, 58, 32] @ err_text e))
     | Inr (a, n) \<Rightarrow> Inr \<lparr>ar_Activity = Some (pb_activity a), ar_ProductCount = n\<rparr>) }"

section \<open>Order handlers\<close>

definition create_request :: "CreateSeckillOrderRequest \<Rightarrow> CreateOrderRequest" where
  "create_request req = \<lparr>cor_UserID = u64_of (cq_UserId req), cor_SkuID = u64_of (cq_SkuId req),
     cor_ActivityID = u64_of (cq_ActivityId req), cor_ProductID = u64_of (cq_ProductId req),
     cor_Quantity = (if cq_Quantity req \<le> 0 then 1 else cq_Quantity req), cor_CouponID = u64_of (cq_CouponId req),
     cor_AddressID = u64_of (cq_AddressId req), cor_ClientIP = cq_ClientIp req, cor_RequestID = cq_RequestId req\<rparr>"

definition create_response :: "CreateOrderResult \<Rightarrow> CreateSeckillOrderResponse" where
  "create_response r = \<lparr>cr_OrderNo = crs_OrderNo r, cr_OrderAmount = i64_of_u64 (crs_OrderAmount r),
     cr_CouponDiscount = i64_of_u64 (crs_CouponDiscount r), cr_FinalAmount = i64_of_u64 (crs_FinalAmount r),
     cr_Status = crs_Status r, cr_SeckillPrice = i64_of_u64 (crs_SeckillPrice r), cr_Quantity = crs_Quantity r,
     cr_Message = crs_Message r, cr_RemainingSeconds = crs_RemainingSeconds r\<rparr>"

definition rpc_CreateSeckillOrder ::
    "env \<Rightarrow> SeckillUsecase \<Rightarrow> nat \<Rightarrow> CreateSeckillOrderRequest \<Rightarrow> CreateSeckillOrderResponse rpc" where
  "rpc_CreateSeckillOrder E uc fuel req =
     (if cq_UserId req = 0 then return (Inl (Status InvalidArgument (utf8 [231, 148, 168, 230, 136, 183, 73, 68, 228, 184, 141, 232, 131, 189, 228, 184, 186, 231, 169, 186])))
      else if cq_SkuId req = 0 then return (Inl (Status InvalidArgument (utf8 [229, 149, 134, 229, 147, 129, 83, 75, 85, 228, 184, 141, 232, 131, 189, 228, 184, 186, 231, 169, 186])))
      else if cq_AddressId req = 0 then return (Inl (Status InvalidArgument (utf8 [230, 148, 182, 232, 180, 167, 229, 156, 176, 229, 157, 128, 228, 184, 141, 232, 131, 189, 228, 184, 186, 231, 169, 186])))
      else rpc_of map_create_error create_response (CreateSeckillOrder E uc fuel (create_request req)))"

definition rpc_GetSeckillOrder :: "SeckillUsecase \<Rightarrow> string \<Rightarrow> int \<Rightarrow> SeckillOrderInfoPb rpc" where
  "rpc_GetSeckillOrder uc orderNo userId =
     rpc_of map_order_error pb_order (GetSeckillOrder uc orderNo (u64_of userId))"

definition rpc_GetSeckillResult :: "SeckillUsecase \<Rightarrow> int \<Rightarrow> string \<Rightarrow> GetSeckillResultResponse rpc" where
  "rpc_GetSeckillResult uc userId requestId =
     rpc_of (\<lambda>e. Status Internal (utf8 [230, 159, 165, 232, 175, 162, 229, 164, 177, 232, 180, 165, 58, 32] @ err_text e))
       (\<lambda>r. \<lparr>rr_Status = srs_Status r, rr_OrderNo = srs_OrderNo r, rr_Message = srs_Message r,
          rr_OrderAmount = i64_of_u64 (srs_OrderAmount r)\<rparr>)
       (GetSeckillResult uc (u64_of userId) requestId)"

section \<open>Payment handlers\<close>

definition rpc_PaySeckillOrder :: "env \<Rightarrow> SeckillUsecase \<Rightarrow> string \<Rightarrow> int \<Rightarrow> int \<Rightarrow> PaySeckillOrderResponse rpc" where
  "rpc_PaySeckillOrder E uc orderNo userId platform =
     rpc_of (\<lambda>e. Status Internal (utf8 [230, 148, 175, 228, 187, 152, 229, 164, 177, 232, 180, 165, 58, 32] @ err_text e))
       (\<lambda>r. \<lparr>pay_r_Success = pos_Success r, pay_r_Message = pos_Message r, pay_r_PayUrl = [],
          pay_r_PayAmount = i64_of_u64 (pos_PayAmount r), pay_r_PlatformNumber = pos_PlatformNumber r\<rparr>)
       (PaySeckillOrder E uc \<lparr>por_OrderNo = orderNo, por_UserID = u64_of userId, por_PayPlatform = platform\<rparr>)"

definition callback_request :: "PayCallbackPb \<Rightarrow> PayCallbackRequest" where
  "callback_request req = \<lparr>pcr_OrderNo = pq_OrderNo req, pcr_PlatformNumber = pq_PlatformNumber req,
     pcr_PayAmount = u64_of (pq_PayAmount req), pcr_PlatformStatus = pq_PlatformStatus req,
     pcr_PayTime = pq_PayTime req, pcr_Sign = pq_Sign req\<rparr>"

definition rpc_PayCallback :: "env \<Rightarrow> SeckillUsecase \<Rightarrow> PayCallbackPb \<Rightarrow> SuccessReply rpc" where
  "rpc_PayCallback E uc req =
     rpc_of mapPayCallbackError (\<lambda>r. \<lparr>sr_Success = pcs_Success r, sr_Message = pcs_Message r\<rparr>)
       (HandlePayCallback E uc (callback_request req))"

section \<open>Coupon handlers\<close>

definition grant_biz_request :: "GrantCouponByReviewRequest \<Rightarrow> string \<Rightarrow> GrantCouponRequest" where
  "grant_biz_request req scene = \<lparr>gcr_UserID = u64_of (gq_UserId req), gcr_ReviewID = u64_of (gq_ReviewId req),
     gcr_OrderNo = gq_OrderNo req, gcr_ProductID = u64_of (gq_ProductId req), gcr_Rating = gq_Rating req,
     gcr_HasImage = gq_HasImage req, gcr_IsFirstReview = gq_IsFirstReview req, gcr_Scene = scene,
     gcr_IdempotencyKey = gq_IdempotencyKey req\<rparr>"

definition rpc_GrantCouponByReview :: "SeckillUsecase \<Rightarrow> GrantCouponByReviewRequest \<Rightarrow> GrantCouponByReviewReply rpc" where
  "rpc_GrantCouponByReview uc req =
     (if gq_UserId req = 0 then return (Inl (Status InvalidArgument (utf8 [117, 115, 101, 114, 95, 105, 100, 228, 184, 141, 232, 131, 189, 228, 184, 186, 231, 169, 186])))
      else let scene = ToUpper (TrimSpace (gq_Scene req)) in
        if gq_ReviewId req = 0 \<and> scene \<noteq> CouponSceneInviteNew \<and> scene \<noteq> CouponSceneAfterSaleCompensation
        then return (Inl (Status InvalidArgument (utf8 [114, 101, 118, 105, 101, 119, 95, 105, 100, 228, 184, 141, 232, 131, 189, 228, 184, 186, 231, 169, 186])))
        else rpc_of map_grant_error
          (\<lambda>r. \<lparr>gr_Success = True, gr_Message = gcs_Message r,
             gr_Coupon = map_option toProtoUserCoupon (gcs_Coupon r), gr_Duplicated = gcs_Duplicated r\<rparr>)
          (GrantCouponByReview uc (grant_biz_request req scene)))"

definition rpc_ListUserCoupons :: "SeckillUsecase \<Rightarrow> int \<Rightarrow> int \<Rightarrow> int \<Rightarrow> int \<Rightarrow> ListUserCouponsReply rpc" where
  "rpc_ListUserCoupons uc userId status page pageSize =
     rpc_of (\<lambda>e. Status Internal (err_text e))
       (\<lambda>(cs, total). \<lparr>lr_Total = total, lr_Page = (if page \<le> 0 then 1 else page),
          lr_PageSize = (if pageSize \<le> 0 then 20 else pageSize), lr_Coupons = map toProtoUserCoupon cs\<rparr>)
       (ListUserCoupons uc (u64_of userId) status page pageSize)"

section \<open>Administrative handlers\<close>

definition activity_update :: "UpdateSeckillActivityRequest \<Rightarrow> UpdateActivityRequest" where
  "activity_update req = \<lparr>uar_ActivityID = u64_of (uaq_ActivityId req), uar_Title = uaq_Title req,
     uar_Description = uaq_Description req, uar_StartTime = uaq_StartTime req, uar_EndTime = uaq_EndTime req,
     uar_Status = uaq_Status req, uar_WarmUp = uaq_WarmUp req\<rparr>"

definition rpc_UpdateSeckillActivity :: "SeckillUsecase \<Rightarrow> UpdateSeckillActivityRequest \<Rightarrow> SuccessReply rpc" where
  "rpc_UpdateSeckillActivity uc req =
     (if uaq_ActivityId req = 0 then return (Inl (Status InvalidArgument (utf8 [97, 99, 116, 105, 118, 105, 116, 121, 95, 105, 100, 228, 184, 141, 232, 131, 189, 228, 184, 186, 231, 169, 186])))
      else rpc_of mapCacheAsideUpdateError
        (\<lambda>_. \<lparr>sr_Success = True, sr_Message = utf8 [230, 180, 187, 229, 138, 168, 229, 183, 178, 230, 155, 180, 230, 150, 176, 239, 188, 140, 231, 188, 147, 229, 173, 152, 229, 183, 178, 229, 164, 177, 230, 149, 136]\<rparr>)
        (UpdateSeckillActivity uc (activity_update req)))"

definition product_update :: "UpdateSeckillProductRequest \<Rightarrow> UpdateProductRequest" where
  "product_update req = \<lparr>upr_ActivityID = u64_of (upq_ActivityId req), upr_ProductID = u64_of (upq_ProductId req),
     upr_Name = upq_Name req, upr_Subtitle = upq_Subtitle req, upr_MainImage = upq_MainImage req,
     upr_Detail = upq_Detail req, upr_ProductStatus = upq_ProductStatus req,
     upr_SeckillPrice = u64_of (upq_SeckillPrice req), upr_MarketPrice = u64_of (upq_MarketPrice req),
     upr_TotalStock = u32_of (upq_TotalStock req), upr_AvailableStock = u32_of (upq_AvailableStock req),
     upr_LimitNum = u32_of (upq_LimitNum req), upr_WarmUp = upq_WarmUp req\<rparr>"

definition rpc_UpdateSeckillProduct :: "SeckillUsecase \<Rightarrow> UpdateSeckillProductRequest \<Rightarrow> SuccessReply rpc" where
  "rpc_UpdateSeckillProduct uc req =
     (if upq_ActivityId req = 0 \<or> upq_ProductId req = 0
      then return (Inl (Status InvalidArgument (utf8 [97, 99, 116, 105, 118, 105, 116, 121, 95, 105, 100, 47, 112, 114, 111, 100, 117, 99, 116, 95, 105, 100, 228, 184, 141, 232, 131, 189, 228, 184, 186, 231, 169, 186])))
      else if upq_ProductStatus req \<le> 0 \<or> upq_SeckillPrice req \<le> 0 \<or> upq_MarketPrice req \<le> 0
           \<or> upq_TotalStock req \<le> 0 \<or> upq_AvailableStock req < 0 \<or> upq_LimitNum req \<le> 0
      then return (Inl (Status InvalidArgument (utf8 [229, 149, 134, 229, 147, 129, 231, 138, 182, 230, 128, 129, 227, 128, 129, 228, 187, 183, 230, 160, 188, 227, 128, 129, 229, 186, 147, 229, 173, 152, 229, 146, 140, 233, 153, 144, 232, 180, 173, 229, 143, 130, 230, 149, 176, 228, 184, 141, 229, 144, 136, 230, 179, 149])))
      else rpc_of mapCacheAsideUpdateError
        (\<lambda>_. \<lparr>sr_Success = True, sr_Message = utf8 [229, 149, 134, 229, 147, 129, 229, 183, 178, 230, 155, 180, 230, 150, 176, 239, 188, 140, 231, 188, 147, 229, 173, 152, 229, 183, 178, 229, 164, 177, 230, 149, 136]\<rparr>)
        (UpdateSeckillProduct uc (product_update req)))"

definition rpc_ReplayDeadLetter :: "SeckillUsecase \<Rightarrow> string \<Rightarrow> SuccessReply rpc" where
  "rpc_ReplayDeadLetter uc eventId =
     (if eventId = [] then return (Inl (Status InvalidArgument (utf8 [101, 118, 101, 110, 116, 95, 105, 100, 228, 184, 141, 232, 131, 189, 228, 184, 186, 231, 169, 186])))
      else rpc_of map_replay_error (\<lambda>_. \<lparr>sr_Success = True, sr_Message = utf8 [233, 135, 141, 230, 148, 190, 230, 136, 144, 229, 138, 159]\<rparr>)
        (ReplayDeadLetter uc eventId))"

section \<open>Rules\<close>

lemma keeps_rpc_of [inv_rules]: "keeps I m \<Longrightarrow> keeps I (rpc_of f g m)"
  unfolding rpc_of_def by (intro inv_rules)

lemma same_rpc_of [frame]: "same v m \<Longrightarrow> same v (rpc_of f g m)"
  unfolding rpc_of_def by (intro frame)

lemma run_rpc_of: "run_state (rpc_of f g m) w = (case run_state m w of (r, w') \<Rightarrow> (map_sum f g r, w'))"
  by (simp add: rpc_of_def split: prod.split)

end
