(* ===== verification/Wiring.thy ===== *)
theory Wiring
  imports Service
begin

text \<open>
  \<open>wireApp\<close> of \<open>cmd/seckill-service/wire_gen.go\<close>: the usecase over the MySQL repository, the
  Redis cache, the Kafka producer and the delay queue.  The interpretation discharges the laws
  of \<open>order_flow\<close> for these parts, and the rest of the theory says which of the usecase's
  operations leave the order ledger alone.
\<close>

definition orderCancelService :: "env \<Rightarrow> OrderCancelService" where
  "orderCancelService E = \<lparr>ocs_repo = mysqlRepo E, ocs_cache = redisRepo E\<rparr>"

definition wired :: "env \<Rightarrow> TopicNames \<Rightarrow> SeckillUsecase" where
  "wired E topics = \<lparr>uc_Repo = mysqlRepo E, uc_Cache = redisRepo E, uc_MQ = producer E topics,
     uc_Limiter = rateLimiter E, uc_Idempotent = idempotentChecker, uc_DelayQueue = delayQueue,
     uc_Canceler = orderCancelService E, uc_IDGen = NewIDGenerator E\<rparr>"

lemma wired_simps [simp]:
  "uc_Repo (wired E topics) = mysqlRepo E" "uc_Cache (wired E topics) = redisRepo E"
  "uc_MQ (wired E topics) = producer E topics" "uc_Limiter (wired E topics) = rateLimiter E"
  "uc_Idempotent (wired E topics) = idempotentChecker" "uc_DelayQueue (wired E topics) = delayQueue"
  "uc_Canceler (wired E topics) = orderCancelService E" "uc_IDGen (wired E topics) = NewIDGenerator E"
  by (simp_all add: wired_def)

interpretation app: order_flow "wired E topics" wf_core stock_of_sku held_of_sku order_view_of for E topics
proof (intro order_flow.intro order_flow_axioms.intro)
  show "order_ledger (uc_Repo (wired E topics)) wf_core stock_of_sku held_of_sku order_view_of"
    by (simp add: mysql_ledger.order_ledger_axioms)
  show "cache_frame (uc_Cache (wired E topics))"
    by (simp add: redis_reservations.cache_frame_axioms)
  show "same core (delay_Add (uc_DelayQueue (wired E topics)) n d)" for n d
    by (simp add: delayQueue_def) (rule neutral_queue, simp)
  show "same core (idgen_NextString (uc_IDGen (wired E topics)))"
    unfolding wired_simps NewIDGenerator_def snowflake_NextString_def snowflake_NextID_def IDGenerator.select_convs
    by (intro frame) simp
  show "uc_Canceler (wired E topics) = \<lparr>ocs_repo = uc_Repo (wired E topics), ocs_cache = uc_Cache (wired E topics)\<rparr>"
    by (simp add: orderCancelService_def)
qed

section \<open>What leaves the order ledger alone\<close>

text \<open>
  \<open>ledger w\<close> is the part of the core database the order ledger reads; \<open>quiet m\<close> says that
  \<open>m\<close> does not change it.
\<close>

abbreviation ledger where
  "ledger \<equiv> \<lambda>w. ledger_part (core w)"

abbreviation quiet :: "(world, 'a) state \<Rightarrow> bool" where
  "quiet m \<equiv> same ledger m"

lemma quiet_core: "same core m \<Longrightarrow> quiet m"
  by (rule same_comp)

lemma neutral_ledger [simp]: "redis_neutral ledger"
  by (simp add: redis_neutral_def)

lemma quiet_Sleep: "quiet (Sleep d)"
  by (rule same_Sleep) simp

lemma quiet_reads:
  "quiet (mysqlRepo_ListSeckillProducts a pg sz srt)" "quiet (mysqlRepo_GetSeckillProductDetail E p a)"
  "quiet (mysqlRepo_GetCurrentActivity E)" "quiet (mysqlRepo_GetDeadLetterMessageByEventID ev)"
  "quiet (mysqlRepo_GetUserCouponForUse E c u)" "quiet (mysqlRepo_ListUserCoupons E u st pg sz)"
  unfolding mysqlRepo_ListSeckillProducts_def mysqlRepo_GetSeckillProductDetail_def mysqlRepo_GetCurrentActivity_def
    mysqlRepo_GetDeadLetterMessageByEventID_def mysqlRepo_GetUserCouponForUse_def mysqlRepo_ListUserCoupons_def
    first_user_coupon_def preload_coupon_def Let_def
  by (intro frame; simp)+

lemma ledger_puts:
  "ledger (put_activities t1 w) = ledger w" "ledger (put_coupons t2 w) = ledger w"
  "ledger (put_user_coupons t3 w) = ledger w" "ledger (put_dead_letters t4 w) = ledger w"
  by (simp_all add: put_defs ledger_part_def)

lemma quiet_writes:
  "quiet (mysqlRepo_UpdateSeckillActivity E req)" "quiet (mysqlRepo_UseUserCoupon c)"
  "quiet (mysqlRepo_RestoreUserCoupon c)" "quiet (mysqlRepo_CreateDeadLetterMessage m)"
  "quiet (mysqlRepo_MarkDeadLetterReplayed ev)" "quiet (mysqlRepo_GrantUserCoupon E g t)"
  unfolding mysqlRepo_UpdateSeckillActivity_def mysqlRepo_UseUserCoupon_def mysqlRepo_RestoreUserCoupon_def
    mysqlRepo_CreateDeadLetterMessage_def mysqlRepo_MarkDeadLetterReplayed_def mysqlRepo_GrantUserCoupon_def
    mysqlRepo_getOrCreateCouponTemplate_def first_user_coupon_def preload_coupon_def
  by (intro frame; simp add: ledger_puts)+

lemmas quiet_repo = quiet_reads quiet_writes core_reads [THEN quiet_core] core_pay_writes [THEN quiet_core]

lemma quiet_send: "quiet (SendMessage m)"
  unfolding SendMessage_def by (intro frame) simp_all

lemma quiet_producer:
  "quiet (Send E topics msg)" "quiet (SendToRetry E topics msg k d)" "quiet (SendToDLQ E topics msg s k t i q)"
  "quiet (SendParseFailureToDLQ E topics v t i q s h)"
  unfolding Send_def SendToRetry_def SendToDLQ_def SendParseFailureToDLQ_def SendEvent_def Let_def
  by (intro frame quiet_send)+

lemma quiet_idgen: "quiet (idgen_NextString (NewIDGenerator E))"
  unfolding NewIDGenerator_def snowflake_NextString_def snowflake_NextID_def IDGenerator.select_convs
  by (intro frame) simp

lemma quiet_cache:
  "quiet (rdb_Get k)" "quiet (rdb_SetEX k v t)" "quiet (rdb_SetNX k v t)" "quiet (rdb_Del ks)" "quiet (rdb_Scan pre page)"
  "quiet (redisRepo_BatchSetProducts E ps)" "quiet (redisRepo_GetProductList a pg sz srt)"
  "quiet (redisRepo_SetProductList E a pg sz srt ls t)" "quiet (redisRepo_GetProductDetail p c)"
  "quiet (redisRepo_SetProductDetail E p c dt t)" "quiet (redisRepo_DeleteProductDetail p c)"
  "quiet (redisRepo_DeleteProductLists E c)" "quiet (redisRepo_BloomExists E c p)"
  "quiet (redisRepo_GetStock c s)" "quiet (redisRepo_SetStock c s n)" "quiet (redisRepo_DeductStock c s u n)"
  "quiet (redisRepo_RollbackStock c s n)" "quiet (redisRepo_CheckUserBuy c s u)"
  "quiet (redisRepo_MarkUserBuy c s u ttl)" "quiet (redisRepo_RemoveUserBuy c s u)"
  "quiet (redisRepo_SetCurrentActivity E act t)" "quiet redisRepo_DeleteCurrentActivity"
  "quiet (redisRepo_DeleteCoupon c)" "quiet (redisRepo_SetPendingReservation r t)"
  "quiet (redisRepo_DeletePendingReservation k)" "quiet (redisRepo_AcquireLock k tok t)"
  "quiet (redisRepo_ReleaseLock k tok)" "quiet (NewString E)"
  "quiet (CheckAndMark k t)" "quiet (UserRateLimit E u n b d)" "quiet (GlobalRateLimit E n b d)"
  "quiet (ActivityRateLimit E c n b d)" "quiet (DelayQueue_Add k d)"
  by (intro frame neutral_queue; simp)+

lemma same_case_bool [frame]: "(b \<Longrightarrow> same f m) \<Longrightarrow> (\<not> b \<Longrightarrow> same f n) \<Longrightarrow> same f (case_bool m n b)"
  by (cases b) auto

lemmas part_simps = mysqlRepo_def redisRepo_def producer_def rateLimiter_def idempotentChecker_def delayQueue_def
  orderCancelService_def

text \<open>After the frame rules have taken an operation apart, these facts close its calls.\<close>

lemmas quiet_parts = part_simps quiet_repo quiet_cache quiet_producer quiet_idgen

text \<open>The quiet operations of the usecase.\<close>

lemma quiet_fillDetail: "quiet (fillProductDetail (wired E topics) p a)"
  unfolding fillProductDetail_def by (intro frame; simp add: quiet_parts)

lemma quiet_detail: "quiet (getProductDetailWithMutex E (wired E topics) n p a)"
proof (induction n)
  case (Suc n)
  show ?case unfolding getProductDetailWithMutex.simps
    by (intro frame Suc.IH quiet_fillDetail; simp add: quiet_parts)
qed (simp, intro frame)

lemma quiet_repo_activity: "quiet (repo_activity (wired E topics))"
  unfolding repo_activity_def by (intro frame; simp add: quiet_parts)

lemma quiet_fillActivity: "quiet (fillActivity (wired E topics))"
  unfolding fillActivity_def by (intro frame quiet_repo_activity; simp add: quiet_parts)

lemma quiet_activity: "quiet (getActivityFromCacheWithMutex E (wired E topics) n)"
proof (induction n)
  case (Suc n)
  show ?case unfolding getActivityFromCacheWithMutex.simps
    by (intro frame Suc.IH quiet_fillActivity quiet_repo_activity; simp add: quiet_parts)
qed (simp, intro frame)

lemma quiet_list: "quiet (ListSeckillProducts (wired E topics) u a pg sz srt)"
  unfolding ListSeckillProducts_def activity_or_current_def mark_bought_def Let_def
  by (intro frame quiet_repo_activity; simp add: quiet_parts)

lemma quiet_product_page: "quiet (GetSeckillProductDetail E (wired E topics) n u p a)"
  unfolding GetSeckillProductDetail_def by (intro frame quiet_detail; simp add: quiet_parts)

lemma quiet_warmup: "quiet (WarmUpSeckillCache (wired E topics) a)"
  unfolding WarmUpSeckillCache_def warm_product_def by (intro frame quiet_repo_activity; simp add: quiet_parts)

lemma quiet_update_activity: "quiet (UpdateSeckillActivity (wired E topics) req)"
  unfolding UpdateSeckillActivity_def InvalidateActivityCache_def by (intro frame quiet_warmup; simp add: quiet_parts)

lemma quiet_give_back: "quiet (give_back_coupon (wired E topics) c)"
  unfolding give_back_coupon_def by (intro frame; simp add: quiet_parts)

lemma quiet_create: "quiet (CreateSeckillOrder E (wired E topics) n req)"
  unfolding CreateSeckillOrder_def create_guards_def not_bought_def applyCoupon_def reserve_def send_order_def Let_def
  by (intro frame quiet_detail quiet_activity quiet_give_back; simp add: quiet_parts)

lemma quiet_queries:
  "quiet (GetSeckillOrder (wired E topics) k u)" "quiet (GetSeckillResult (wired E topics) u k)"
  "quiet (ListUserCoupons (wired E topics) u st pg sz)" "quiet (ReplayDeadLetter (wired E topics) k)"
  unfolding GetSeckillOrder_def GetSeckillResult_def ListUserCoupons_def ReplayDeadLetter_def Let_def
  by (intro frame; simp add: quiet_parts)+

lemma quiet_pay: "quiet (pay_body E (wired E topics) req)"
  unfolding pay_body_def Let_def by (intro frame; simp add: quiet_parts)

lemma quiet_rollback: "quiet (RollbackSeckillReservation (wired E topics) msg)"
  unfolding RollbackSeckillReservation_def by (intro frame quiet_give_back; simp add: quiet_parts)

lemma quiet_fix_pending: "quiet (fix_pending (mysqlRepo E) (redisRepo E) k)"
  unfolding fix_pending_def compensate_reservation_def drop_key_def by (intro frame; simp add: quiet_parts)

lemma quiet_fix_pages: "quiet (fix_pages (mysqlRepo E) (redisRepo E) pages)"
proof (induction pages)
  case (Cons page pages)
  show ?case unfolding fix_pages.simps by (intro frame quiet_fix_pending Cons.IH; simp)
qed (simp, intro frame)

lemma quiet_sync: "quiet (syncStockConsistency (mysqlRepo E) (redisRepo E))"
  unfolding syncStockConsistency_def sync_product_def by (intro frame; simp add: quiet_parts)

lemma quiet_compensate: "quiet (compensate_tick E (mysqlRepo E) (redisRepo E))"
  unfolding compensate_tick_def fixPendingReservations_def by (intro frame quiet_sync quiet_fix_pages)

end
