(* ===== verification/Sample.thy ===== *)
theory Sample
  imports Wiring
begin

text \<open>
  A small deployment on which the theorems are exercised: one activity with one SKU, two users
  with an address each, and simple stand-ins for the library functions of \<open>env\<close>.
\<close>

definition E0 :: env where
  "E0 = \<lparr>format_time = (\<lambda>t. show_int (unix t)), parse_time = (\<lambda>s. map_option (\<lambda>i. i * second) (parse_int s)),
     add_date = (\<lambda>y m d t. t + (y * 365 + m * 30 + d) * 24 * hour), md5_hex = (\<lambda>s. s), snowflake = int,
     uuid = dec, rand_below = (\<lambda>n k. 0), trace_id = ''t'', trace_headers = [], bloom_fp = (\<lambda>_ _. False),
     scan_plan = (\<lambda>ks. [ks]), text_of = (\<lambda>_. []), fl = id\<rparr>"

definition topics0 :: TopicNames where
  "topics0 = \<lparr>tn_SeckillOrder = ''order'', tn_SeckillResult = ''result'', tn_SeckillDLQ = ''dlq'',
     tn_SeckillRetry = ''retry''\<rparr>"

definition sku0 :: SeckillSkuRow where
  "sku0 = \<lparr>sku_ID = 7, sku_ActivityID = 3, sku_ProductID = 5, sku_SeckillPrice = 100, sku_MarketPrice = 200,
     sku_TotalStock = 10, sku_AvailableStock = 10, sku_LimitNum = Some 1, sku_Version = 0, sku_CreateTime = None,
     sku_UpdateTime = None\<rparr>"

definition activity0 :: SeckillActivityRow where
  "activity0 = \<lparr>acr_ID = 3, acr_Title = ''sale'', acr_Description = [], acr_StartTime = 0, acr_EndTime = hour,
     acr_Status = 1, acr_CreateTime = None, acr_UpdateTime = None\<rparr>"

definition address0 :: UserAddressRow where
  "address0 = \<lparr>uad_ID = 11, uad_UserID = 21, uad_ReceiverName = ''A'', uad_ReceiverPhone = ''1'', uad_Province = [],
     uad_City = [], uad_District = [], uad_DetailAddress = [], uad_IsDefault = 1, uad_IsDelete = 0,
     uad_CreateTime = None, uad_UpdateTime = None\<rparr>"

definition product0 :: ProductRow where
  "product0 = \<lparr>prd_ID = 5, prd_Name = ''phone'', prd_Subtitle = [], prd_MainImage = [], prd_Detail = None,
     prd_Status = Some 1, prd_CreateTime = None, prd_UpdateTime = None\<rparr>"

definition core0 :: core_db where
  "core0 = \<lparr>skus = [sku0], activities = [activity0], coupons = [], user_coupons = [], orders = [], shippings = []\<rparr>"

definition w0 :: world where
  "w0 = \<lparr>replies = [], clock = second, ticks = 1, auto_id = 1, keyspace = [], core = core0, addresses = [address0],
     products = [product0], pay_infos = [], dead_letters = [], kafka_log = [], committed = (\<lambda>_. 0)\<rparr>"

definition msg0 :: SeckillOrderMessage where
  "msg0 = zeroMessage\<lparr>msg_OrderNo := ''n1'', msg_RequestID := ''r1'', msg_UserID := 21, msg_SkuID := 7,
     msg_ActivityID := 3, msg_ProductID := 5, msg_ProductName := ''phone'', msg_Quantity := 2, msg_AddressID := 11,
     msg_OrderAmount := 200, msg_FinalAmount := 200, msg_SeckillPrice := 100\<rparr>"

end
