(* ===== verification/System.thy ===== *)
theory System
  imports Sample
begin

text \<open>
  The deployment as a whole: everything the service can be made to do, as \<open>action\<close>s on one
  world, and the histories that sequences of actions make.  An action is a handler run from
  start to end; what its calls meet (answers, refusals, lost answers) is the world's reply list,
  over which every theorem quantifies.  The messages, requests and timers of an action are
  arbitrary.
\<close>

section \<open>Actions\<close>

datatype action =
    ListProducts SeckillProductsRequest
  | ProductDetail nat SeckillProductDetailRequest
  | CurrentActivity
  | SubmitOrder nat CreateSeckillOrderRequest
  | QueryOrder string int
  | QueryResult int string
  | PayOrder string int int
  | PaymentCallback PayCallbackPb
  | GrantCoupon GrantCouponByReviewRequest
  | ListCoupons int int int int
  | ChangeActivity UpdateSeckillActivityRequest
  | ChangeProduct UpdateSeckillProductRequest
  | ReplayEvent string
  | UserCancel string u64
  | ConsumeOrder ConsumerMessage
  | ConsumeDeadLetter ConsumerMessage
  | PollDelayQueue
  | CancelTask string
  | CompensateTick
  | TimePasses nat

definition ignore :: "(world, 'a) state \<Rightarrow> (world, unit) state" where
  "ignore m = State_Monad.bind m (\<lambda>_. return ())"

fun run_action :: "env \<Rightarrow> TopicNames \<Rightarrow> action \<Rightarrow> (world, unit) state" where
  "run_action E T (ListProducts q) = ignore (rpc_SeckillProducts (wired E T) q)"
| "run_action E T (ProductDetail n q) = ignore (rpc_SeckillProductDetail E (wired E T) n q)"
| "run_action E T CurrentActivity = ignore (rpc_GetCurrentActivity (wired E T))"
| "run_action E T (SubmitOrder n q) = ignore (rpc_CreateSeckillOrder E (wired E T) n q)"
| "run_action E T (QueryOrder k u) = ignore (rpc_GetSeckillOrder (wired E T) k u)"
| "run_action E T (QueryResult u k) = ignore (rpc_GetSeckillResult (wired E T) u k)"
| "run_action E T (PayOrder k u p) = ignore (rpc_PaySeckillOrder E (wired E T) k u p)"
| "run_action E T (PaymentCallback q) = ignore (rpc_PayCallback E (wired E T) q)"
| "run_action E T (GrantCoupon q) = ignore (rpc_GrantCouponByReview (wired E T) q)"
| "run_action E T (ListCoupons u st pg sz) = ignore (rpc_ListUserCoupons (wired E T) u st pg sz)"
| "run_action E T (ChangeActivity q) = ignore (rpc_UpdateSeckillActivity (wired E T) q)"
| "run_action E T (ChangeProduct q) = ignore (rpc_UpdateSeckillProduct (wired E T) q)"
| "run_action E T (ReplayEvent k) = ignore (rpc_ReplayDeadLetter (wired E T) k)"
| "run_action E T (UserCancel k u) = ignore (CancelOrder (wired E T) k u)"
| "run_action E T (ConsumeOrder m) = processMessage T (wired E T) (producer E T) m"
| "run_action E T (ConsumeDeadLetter m) = dlq_processMessage (mysqlRepo E) m"
| "run_action E T PollDelayQueue = ignore runOnce"
| "run_action E T (CancelTask k) = cancelTask E (orderCancelService E) k"
| "run_action E T CompensateTick = compensate_tick E (mysqlRepo E) (redisRepo E)"
| "run_action E T (TimePasses d) = Sleep (int d)"

text \<open>A history: the actions taken, one after the other.\<close>

inductive history :: "env \<Rightarrow> TopicNames \<Rightarrow> world \<Rightarrow> action list \<Rightarrow> world \<Rightarrow> bool" for E T where
  idle: "history E T w [] w"
| act: "run_state (run_action E T a) w = ((), w1) \<Longrightarrow> history E T w1 as w' \<Longrightarrow> history E T w (a # as) w'"

inductive_simps history_Nil [simp]: "history E T w [] w'"
inductive_simps history_Cons: "history E T w (a # as) w'"

text \<open>A history is never stuck.\<close>

lemma history_total: "\<exists>w'. history E T w as w'"
proof (induction as arbitrary: w)
  case (Cons a as)
  obtain w1 where "run_state (run_action E T a) w = ((), w1)" by (cases "run_state (run_action E T a) w") auto
  then show ?case using Cons [of w1] by (auto simp: history_Cons)
qed (auto intro: history.idle)

lemma history_keeps:
  assumes "history E T w as w'" and "I w" and "\<And>a. a \<in> set as \<Longrightarrow> keeps I (run_action E T a)"
  shows "I w'"
  using assms
proof (induction rule: history.induct)
  case (act a w w1 as w')
  have "I w1" using keepsD [OF act.prems(2) [of a] act.prems(1)] act.hyps(1) by simp
  then show ?case using act.IH act.prems(2) by simp
qed

lemma same_ignore [frame]: "same f m \<Longrightarrow> same f (ignore m)"
  unfolding ignore_def by (intro frame)

lemma keeps_ignore [inv_rules]: "keeps I m \<Longrightarrow> keeps I (ignore m)"
  unfolding ignore_def by (intro inv_rules)

section \<open>Actions that leave the ledger alone\<close>

text \<open>A transaction whose body leaves a part of the core database alone leaves it alone too.\<close>

lemma same_core_tx:
  assumes "same (\<lambda>w. f (core w)) fn"
  shows "same (\<lambda>w. f (core w)) (ExecTx fn)"
proof (rule sameI)
  fix w
  obtain r w' where run: "run_state (ExecTx fn) w = (r, w')" by fastforce
  from run have "f (core w') = f (core w)"
    by (cases rule: ExecTx_cases) (auto dest!: sameD [OF assms])
  then show "f (core (snd (run_state (ExecTx fn) w))) = f (core w)" using run by simp
qed

lemma quiet_tx: "quiet fn \<Longrightarrow> quiet (ExecTx fn)"
  by (rule same_core_tx)

lemma quiet_commit: "quiet (commit_offset m)"
  by (rule sameI) (simp add: commit_offset_def)

lemma quiet_wait: "quiet (wait_or_done d)"
  unfolding wait_or_done_def by (intro frame; simp)

lemma quiet_dlq: "quiet (dlq_processMessage (mysqlRepo E) m)"
  unfolding dlq_processMessage_def dlq_handle_def
  by (intro frame quiet_commit; simp add: quiet_parts)

lemma quiet_runOnce: "quiet runOnce"
  unfolding runOnce_def by (intro frame neutral_queue; simp)

lemma quiet_grant: "quiet (GrantCouponByReview (wired E T) q)"
  unfolding GrantCouponByReview_def Let_def by (intro frame quiet_tx; simp add: quiet_parts)

lemma quiet_PaySeckillOrder: "quiet (PaySeckillOrder E (wired E T) q)"
  unfolding PaySeckillOrder_def by (intro quiet_tx quiet_pay)

text \<open>Every handler but the confirmation, the cancellation, the callback and the product update.\<close>

lemma quiet_rpcs:
  "quiet (rpc_SeckillProducts (wired E T) q1)" "quiet (rpc_SeckillProductDetail E (wired E T) n q2)"
  "quiet (rpc_GetCurrentActivity (wired E T))" "quiet (rpc_CreateSeckillOrder E (wired E T) n q3)"
  "quiet (rpc_GetSeckillOrder (wired E T) k u)" "quiet (rpc_GetSeckillResult (wired E T) u k)"
  "quiet (rpc_PaySeckillOrder E (wired E T) k u p)" "quiet (rpc_GrantCouponByReview (wired E T) q4)"
  "quiet (rpc_ListUserCoupons (wired E T) u st pg sz)" "quiet (rpc_UpdateSeckillActivity (wired E T) q5)"
  "quiet (rpc_ReplayDeadLetter (wired E T) k)"
  unfolding rpc_SeckillProducts_def rpc_SeckillProductDetail_def rpc_GetCurrentActivity_def
    rpc_CreateSeckillOrder_def rpc_GetSeckillOrder_def rpc_GetSeckillResult_def rpc_PaySeckillOrder_def
    rpc_GrantCouponByReview_def rpc_ListUserCoupons_def rpc_UpdateSeckillActivity_def rpc_ReplayDeadLetter_def Let_def
  by (intro frame quiet_list quiet_product_page quiet_create quiet_queries quiet_PaySeckillOrder quiet_grant
      quiet_update_activity; simp add: quiet_parts)+

lemma quiet_final_failure: "quiet (handleFinalFailture (wired E T) (producer E T) m msg err)"
  unfolding handleFinalFailture_def commit_unless_def
  by (intro frame quiet_rollback; simp add: quiet_parts)

lemma same_case_failure [frame]:
  "same f m1 \<Longrightarrow> same f m2 \<Longrightarrow> same f m3 \<Longrightarrow> same f (case_failureType m1 m2 m3 x)"
  by (cases x) simp_all

lemma keeps_case_failure [inv_rules]:
  "keeps I m1 \<Longrightarrow> keeps I m2 \<Longrightarrow> keeps I m3 \<Longrightarrow> keeps I (case_failureType m1 m2 m3 x)"
  by (cases x) simp_all

lemma quiet_route: "quiet (routeFailure (wired E T) (producer E T) m err)"
  unfolding routeFailure_def commit_unless_def
  by (intro frame quiet_final_failure) (simp_all add: quiet_parts)

section \<open>Invariants of the ledger\<close>

text \<open>
  An invariant of the ledger part of the core database that the four operations writing to it
  keep is kept by every action.
\<close>

locale ledger_rows =
  fixes I :: "core_db \<Rightarrow> bool" and E :: env and T :: TopicNames
  assumes ledger_only: "ledger_part c' = ledger_part c \<Longrightarrow> I c \<Longrightarrow> I c'"
    and keeps_confirm: "keeps (\<lambda>w. I (core w)) (ConfirmSeckillOrder (wired E T) msg)"
    and keeps_cancel: "keeps (\<lambda>w. I (core w)) (CancelTimeoutOrder (orderCancelService E) k)"
begin

lemma keeps_quiet: "quiet m \<Longrightarrow> keeps (\<lambda>w. I (core w)) m"
  by (metis keepsI ledger_only same_snd)

lemma keeps_consume: "keeps (\<lambda>w. I (core w)) (processMessage T (wired E T) (producer E T) m)"
proof -
  have idem: "quiet (idem_CheckAndMark (uc_Idempotent (wired E T)) n t)" for n t
    by (simp add: quiet_parts)
  show ?thesis
    unfolding processMessage_def consumer_handle_def handleOrderTopic_def handleRetryTopic_def confirmed_def
    by (intro inv_rules keeps_confirm keeps_quiet [OF quiet_route] keeps_quiet [OF quiet_commit]
        keeps_quiet [OF quiet_wait] keeps_quiet [OF idem] keeps_quiet [OF same_Now])
qed

lemma keeps_cancel_task: "keeps (\<lambda>w. I (core w)) (cancelTask E (orderCancelService E) k)"
  unfolding cancelTask_def handleTimeout_def
  by (intro inv_rules keeps_cancel keeps_quiet; intro frame neutral_same_call neutral_zcmds neutral_scripts; simp)

text \<open>Every action but a callback and a product update.\<close>

lemma keeps_others:
  assumes "\<And>q. a \<noteq> ChangeProduct q" and "\<And>q. a \<noteq> PaymentCallback q"
  shows "keeps (\<lambda>w. I (core w)) (run_action E T a)"
proof -
  have cancel: "keeps (\<lambda>w. I (core w)) (CancelOrder (wired E T) k u)" for k u
    unfolding CancelOrder_def
    by (intro inv_rules) (simp_all add: keeps_cancel keeps_quiet [OF quiet_core] app.read_core [unfolded wired_simps])
  show ?thesis
    by (cases a) (use assms in \<open>simp_all add: keeps_ignore keeps_quiet quiet_rpcs cancel keeps_consume keeps_cancel_task
        quiet_dlq quiet_runOnce quiet_compensate quiet_Sleep\<close>)
qed

end

locale ledger_invariant = ledger_rows +
  assumes keeps_callback: "keeps (\<lambda>w. I (core w)) (HandlePayCallback E (wired E T) q)"
begin

lemma keeps_action:
  assumes "\<And>q. a \<noteq> ChangeProduct q"
  shows "keeps (\<lambda>w. I (core w)) (run_action E T a)"
proof (cases "\<exists>q. a = PaymentCallback q")
  case True
  then obtain q where "a = PaymentCallback q" by blast
  then show ?thesis by (simp add: rpc_PayCallback_def) (intro inv_rules keeps_callback)
qed (use keeps_others assms in blast)

text \<open>A product update rewrites a row of the stock table only.\<close>

lemma keeps_history:
  assumes "history E T w as w'" and "I (core w)"
    and "\<And>q. ChangeProduct q \<in> set as \<Longrightarrow> keeps (\<lambda>w. I (core w)) (run_action E T (ChangeProduct q))"
  shows "I (core w')"
proof (rule history_keeps [where I = "\<lambda>w. I (core w)", OF assms(1,2)])
  fix a assume "a \<in> set as"
  then show "keeps (\<lambda>w. I (core w)) (run_action E T a)"
    by (cases "\<exists>q. a = ChangeProduct q") (auto intro: assms(3) keeps_action)
qed

end

section \<open>The stock of a SKU\<close>

abbreviation conserved :: "u64 \<Rightarrow> int \<Rightarrow> core_db \<Rightarrow> bool" where
  "conserved t k \<equiv> \<lambda>c. wf_core c \<and> stock_of_sku t c + held_of_sku t c = k"

lemma conserved_balanced: "keeps (mysql_ledger.balanced t k) m \<longleftrightarrow> keeps (\<lambda>w. conserved t k (core w)) m"
  by (simp add: mysql_ledger.balanced_def [abs_def])

lemma conserved_flow:
  "keeps (\<lambda>w. conserved t k (core w)) (ConfirmSeckillOrder (wired E T) msg)"
  "keeps (\<lambda>w. conserved t k (core w)) (CancelTimeoutOrder (orderCancelService E) n)"
  "keeps (\<lambda>w. conserved t k (core w)) (HandlePayCallback E (wired E T) q)"
  using app.confirm_balanced app.cancel_balanced [where E = E] app.callback_balanced
  by (simp_all add: mysql_ledger.balanced_def [abs_def])

lemma conserved_ledger: "ledger_part c' = ledger_part c \<Longrightarrow> conserved t k c \<Longrightarrow> conserved t k c'"
  by (simp add: ledger_part_def wf_core_def stock_of_sku_def held_of_sku_def)

lemma wf_ledger: "ledger_part c' = ledger_part c \<Longrightarrow> wf_core c \<Longrightarrow> wf_core c'"
  by (simp add: ledger_part_def wf_core_def)

interpretation stock: ledger_invariant "conserved t k" E T for t k E T
  by unfold_locales (rule conserved_ledger, assumption+, (rule conserved_flow)+)

lemma keeps_wf_flow:
  fixes m :: "(world, 'a) state"
  assumes "\<And>t k. keeps (\<lambda>w. conserved t k (core w)) m"
  shows "keeps (\<lambda>w. wf_core (core w)) m"
proof (rule keepsI)
  fix w :: world assume "wf_core (core w)"
  then show "wf_core (core (snd (run_state m w)))"
    using keepsD [OF assms [of 0 "stock_of_sku 0 (core w) + held_of_sku 0 (core w)"], of w] by blast
qed

interpretation keyed: ledger_invariant wf_core E T for E T
  by unfold_locales (rule wf_ledger, assumption+, (rule keeps_wf_flow conserved_flow)+)

text \<open>What a product update does to the ledger: new columns of stock rows, the same keys.\<close>

lemma exec_skus_keys:
  assumes "\<And>r r'. f r = Some r' \<Longrightarrow> sku_ID r' = sku_ID r"
  shows "keeps (\<lambda>w. wf_core (core w)) (exec_on sku_table put_skus p f touch_sku)"
    and "same (\<lambda>w. orders (core w)) (exec_on sku_table put_skus p f touch_sku)"
proof -
  have id: "sku_ID (set_row f (touch_sku t) r) = sku_ID r" for t r
    by (rule set_row_id) (simp_all add: assms touch_sku_def)
  show "keeps (\<lambda>w. wf_core (core w)) (exec_on sku_table put_skus p f touch_sku)"
  proof (rule keepsI)
    fix w :: world assume wf: "wf_core (core w)"
    obtain r w' where run: "run_state (exec_on sku_table put_skus p f touch_sku) w = (r, w')" by fastforce
    from run have "wf_core (core w')"
      by (cases rule: exec_on_cases)
        (use wf in \<open>auto simp: sql_exec_Inr put_skus_def wf_core_def map_sql_update id\<close>)
    then show "wf_core (core (snd (run_state (exec_on sku_table put_skus p f touch_sku) w)))" using run by simp
  qed
qed (intro frame; simp add: put_skus_def)

lemma set_sku_keys: "set_sku req r = Some r' \<Longrightarrow> sku_ID r' = sku_ID r"
  by (auto simp: set_sku_def)

lemma quiet_products: "quiet (exec_on products put_products p f touch_product)"
  by (intro frame; simp add: put_products_def)

text \<open>The rule holds for any observer the second statement of the update respects.\<close>

lemma keeps_update_product:
  assumes quiet: "\<And>m :: unit io. quiet m \<Longrightarrow> keeps I m" "\<And>m :: nat io. quiet m \<Longrightarrow> keeps I m"
      "\<And>m :: SeckillProductDetail io. quiet m \<Longrightarrow> keeps I m"
    and skus: "\<And>p req. keeps I (exec_on sku_table put_skus p (set_sku req) touch_sku)"
  shows "keeps I (run_action E T (ChangeProduct q))"
proof -
  have repo: "keeps I (repo_UpdateSeckillProduct (uc_Repo (wired E T)) req)" for req
    unfolding wired_simps mysqlRepo_def SeckillRepo.select_convs mysqlRepo_UpdateSeckillProduct_def
    by (rule skus quiet(2) quiet_products inv_rules)+
  have "keeps I (UpdateSeckillProduct (wired E T) req)" for req
    unfolding UpdateSeckillProduct_def InvalidateProductCache_def
    by (rule repo inv_rules quiet quiet_warmup | (simp add: quiet_parts; fail))+
  then show ?thesis unfolding run_action.simps rpc_UpdateSeckillProduct_def by (intro inv_rules)
qed

lemma wf_update_product: "keeps (\<lambda>w. wf_core (core w)) (run_action E T (ChangeProduct q))"
  by (rule keeps_update_product)
    (simp_all add: keyed.keeps_quiet exec_skus_keys(1) [OF set_sku_keys])

theorem wf_history:
  assumes "history E T w as w'" and "wf_core (core w)"
  shows "wf_core (core w')"
  by (rule keyed.keeps_history [OF assms wf_update_product])

section \<open>The life of an order\<close>

text \<open>
  What can happen to the table of orders: a new pending row that clashes with none, or the row
  of a pending order moved on to \<open>Cancel\<close> or, by a callback only, to \<open>Paid\<close>.  What the
  first two keep is kept by every action but a callback; an invariant of the three is one of
  the whole system.
\<close>

definition order_terms :: "SeckillOrderRow \<Rightarrow> SeckillOrderRow" where
  "order_terms r = r\<lparr>orw_Status := 0, orw_PayTime := None, orw_UpdateTime := None\<rparr>"

definition moved_on :: "SeckillOrderRow \<Rightarrow> SeckillOrderRow \<Rightarrow> bool" where
  "moved_on r r' \<longleftrightarrow> order_terms r' = order_terms r \<and> orw_Status r' \<in> {1, 2}"

lemma set_status_terms:
  "order_terms (set_row (\<lambda>r. Some (set_status st now r)) (touch_order t) r) = order_terms r"
  by (subst set_row_total) (simp_all add: order_terms_def touch_order_def set_status_def Let_def)

lemma set_status_moves:
  assumes "st \<in> {OrderStatusPaid, OrderStatusCancel}"
  shows "moved_on r (set_row (\<lambda>r. Some (set_status st now r)) (touch_order t) r)"
  using assms by (auto simp: moved_on_def set_status_terms set_status_keys order_status_defs)

text \<open>The steps of the three transactions that leave the table of orders alone.\<close>

lemma orders_same:
  "same (\<lambda>w. orders (core w)) (repo_GetUserAddress (mysqlRepo E) i)"
  "same (\<lambda>w. orders (core w)) (repo_CreateOrderShipping (mysqlRepo E) n a)"
  "same (\<lambda>w. orders (core w)) (repo_DecreaseStock (mysqlRepo E) s q v)"
  "same (\<lambda>w. orders (core w)) (repo_GetOrderForUpdate (mysqlRepo E) n)"
  "same (\<lambda>w. orders (core w)) (repo_RestoreStock (mysqlRepo E) s q)"
  "same (\<lambda>w. orders (core w)) (repo_RestoreUserCoupon (mysqlRepo E) c)"
  "same (\<lambda>w. orders (core w)) (repo_GetPayInfoByPlatformNumber (mysqlRepo E) n)"
  "same (\<lambda>w. orders (core w)) (repo_UpdatePayInfoStatus (mysqlRepo E) n st pt)"
proof -
  show "same (\<lambda>w. orders (core w)) (repo_GetUserAddress (mysqlRepo E) i)"
    "same (\<lambda>w. orders (core w)) (repo_GetOrderForUpdate (mysqlRepo E) n)"
    "same (\<lambda>w. orders (core w)) (repo_GetPayInfoByPlatformNumber (mysqlRepo E) n)"
    "same (\<lambda>w. orders (core w)) (repo_UpdatePayInfoStatus (mysqlRepo E) n st pt)"
    by (simp_all add: mysqlRepo_def core_reads core_pay_writes same_comp [where f = core])
  show "same (\<lambda>w. orders (core w)) (repo_CreateOrderShipping (mysqlRepo E) n a)"
    by (simp add: mysqlRepo_def mysqlRepo_CreateOrderShipping_def) (intro frame; simp add: put_shippings_def)
  show "same (\<lambda>w. orders (core w)) (repo_DecreaseStock (mysqlRepo E) s q v)"
    by (simp add: mysqlRepo_def mysqlRepo_DecreaseStock_def) (intro frame; simp add: put_skus_def)
  show "same (\<lambda>w. orders (core w)) (repo_RestoreStock (mysqlRepo E) s q)"
    by (simp add: mysqlRepo_def mysqlRepo_RestoreStock_def) (intro frame; simp add: put_skus_def)
  show "same (\<lambda>w. orders (core w)) (repo_RestoreUserCoupon (mysqlRepo E) c)"
    by (simp add: mysqlRepo_def mysqlRepo_RestoreUserCoupon_def) (intro frame; simp add: put_user_coupons_def)
qed

locale order_rows =
  fixes P :: "SeckillOrderRow list \<Rightarrow> bool"
  assumes adds: "P rows \<Longrightarrow> \<not> sql_clash order_clash r rows \<Longrightarrow> orw_Status r = 0 \<Longrightarrow> P (rows @ [r])"
    and cancels: "P rows \<Longrightarrow> (\<And>r. moved_on r (g r) \<and> orw_Status (g r) = 2) \<Longrightarrow>
      P (sql_update (\<lambda>r. orw_OrderNo r = n \<and> orw_Status r = 0) g rows)"
begin

lemma keeps_rows: "same (\<lambda>w. orders (core w)) m \<Longrightarrow> keeps (\<lambda>w. P (orders (core w))) m"
  by (metis keepsI same_snd)

lemma keeps_quiet: "quiet m \<Longrightarrow> keeps (\<lambda>w. P (orders (core w))) m"
  by (rule keeps_rows) (auto simp: same_def ledger_part_def)

lemma keeps_tx: "keeps (\<lambda>w. P (orders (core w))) fn \<Longrightarrow> keeps (\<lambda>w. P (orders (core w))) (ExecTx fn)"
  by (rule keeps_core_tx) (rule yields_keeps)

lemma keeps_create: "keeps (\<lambda>w. P (orders (core w))) (mysqlRepo_CreateOrder ord)"
proof -
  have "keeps (\<lambda>w. P (orders (core w))) (insert_on order_table put_orders order_clash (order_row ord))"
  proof (rule keepsI)
    fix w :: world assume P: "P (orders (core w))"
    obtain r w' where run: "run_state (insert_on order_table put_orders order_clash (order_row ord)) w = (r, w')"
      by fastforce
    from run have "P (orders (core w'))"
      by (cases rule: insert_on_cases)
        (simp_all add: P put_orders_def adds [OF P] order_row_def)
    then show "P (orders (core (snd (run_state (insert_on order_table put_orders order_clash (order_row ord)) w))))"
      using run by simp
  qed
  then show ?thesis unfolding mysqlRepo_CreateOrder_def by (intro inv_rules)
qed

lemma keeps_status:
  assumes "\<And>rows g. P rows \<Longrightarrow> (\<And>r. moved_on r (g r) \<and> orw_Status (g r) = u32_of st) \<Longrightarrow>
      P (sql_update (\<lambda>r. orw_OrderNo r = n \<and> orw_Status r = 0) g rows)"
    and st: "st \<in> {OrderStatusPaid, OrderStatusCancel}"
  shows "keeps (\<lambda>w. P (orders (core w))) (mysqlRepo_UpdateOrderStatus n OrderStatusPending st)"
proof -
  let ?m = "\<lambda>now. exec_on order_table put_orders (\<lambda>row. orw_OrderNo row = n \<and> orw_Status row = u32_of OrderStatusPending)
       (\<lambda>r. Some (set_status st now r)) touch_order"
  have exec: "keeps (\<lambda>w. P (orders (core w))) (?m now)" for now
  proof (rule keepsI)
    fix w :: world assume P: "P (orders (core w))"
    obtain r w' where run: "run_state (?m now) w = (r, w')" by fastforce
    from run have "P (orders (core w'))"
      by (cases rule: exec_on_cases)
        (auto simp: P sql_exec_Inr put_orders_def OrderStatusPending_def intro!: assms(1) [OF P] set_status_moves [OF st] set_status_keys(7) conjI)
    then show "P (orders (core (snd (run_state (?m now) w))))" using run by simp
  qed
  show ?thesis unfolding mysqlRepo_UpdateOrderStatus_def by (intro inv_rules exec keeps_rows [OF same_Now])
qed

lemma keeps_confirm: "keeps (\<lambda>w. P (orders (core w))) (ConfirmSeckillOrder (wired E T) msg)"
proof -
  have new: "keeps (\<lambda>w. P (orders (core w))) (repo_CreateOrder (mysqlRepo E) ord)" for ord
    by (simp add: mysqlRepo_def keeps_create)
  have body: "keeps (\<lambda>w. P (orders (core w))) (confirm_body (mysqlRepo E) msg)"
    unfolding confirm_body_def by (intro inv_rules new keeps_rows orders_same)
  have rest: "quiet (cache_DeletePendingReservation (redisRepo E) k)" "quiet (delay_Add delayQueue n d)" for k n d
    by (simp_all add: quiet_parts)
  show ?thesis
    unfolding ConfirmSeckillOrder_def wired_simps by (intro inv_rules keeps_tx body keeps_quiet rest)
qed

lemma keeps_cancel: "keeps (\<lambda>w. P (orders (core w))) (CancelTimeoutOrder (orderCancelService E) k)"
proof -
  have upd: "keeps (\<lambda>w. P (orders (core w))) (repo_UpdateOrderStatus (mysqlRepo E) n OrderStatusPending OrderStatusCancel)" for n
    by (simp add: mysqlRepo_def, rule keeps_status) (rule cancels, simp_all add: order_status_defs)
  have body: "keeps (\<lambda>w. P (orders (core w))) (cancel_body (orderCancelService E) k)"
    unfolding cancel_body_def orderCancelService_def OrderCancelService.select_convs
    by (intro inv_rules upd keeps_rows orders_same)
  have rest: "quiet (cache_RollbackStock (redisRepo E) a s q)" "quiet (cache_RemoveUserBuy (redisRepo E) a s u)" for a s q u
    by (simp_all add: quiet_parts)
  show ?thesis
    unfolding CancelTimeoutOrder_def orderCancelService_def OrderCancelService.select_convs
    by (intro inv_rules keeps_tx body [unfolded orderCancelService_def] keeps_quiet rest)
qed

end

locale order_invariant = order_rows +
  assumes pays: "P rows \<Longrightarrow> (\<And>r. moved_on r (g r) \<and> orw_Status (g r) = 1) \<Longrightarrow>
      P (sql_update (\<lambda>r. orw_OrderNo r = n \<and> orw_Status r = 0) g rows)"
begin

lemma keeps_callback: "keeps (\<lambda>w. P (orders (core w))) (HandlePayCallback E (wired E T) q)"
proof -
  have upd: "keeps (\<lambda>w. P (orders (core w))) (repo_UpdateOrderStatus (mysqlRepo E) n OrderStatusPending OrderStatusPaid)" for n
    by (simp add: mysqlRepo_def, rule keeps_status) (rule pays, simp_all add: order_status_defs)
  have body: "keeps (\<lambda>w. P (orders (core w))) (callback_body (mysqlRepo E) q)"
    unfolding callback_body_def Let_def by (intro inv_rules upd keeps_rows orders_same)
  show ?thesis unfolding HandlePayCallback_def wired_simps by (intro inv_rules keeps_tx body)
qed

end

text \<open>Such an invariant is one of the ledger, so of every history.\<close>

sublocale order_rows \<subseteq> others: ledger_rows "\<lambda>c. P (orders c)" E T for E T
proof unfold_locales
  show "P (orders c')" if "ledger_part c' = ledger_part c" and "P (orders c)" for c c'
    using that by (simp add: ledger_part_def)
qed (rule keeps_confirm keeps_cancel)+

sublocale order_invariant \<subseteq> system: ledger_invariant "\<lambda>c. P (orders c)" E T for E T
  by unfold_locales (rule keeps_callback)

context order_rows
begin

lemma keeps_product: "keeps (\<lambda>w. P (orders (core w))) (run_action E T (ChangeProduct q))"
  by (rule keeps_update_product) (simp_all add: keeps_quiet keeps_rows exec_skus_keys(2) [OF set_sku_keys])

end

context order_invariant
begin

lemma all_history: "history E T w as w' \<Longrightarrow> P (orders (core w)) \<Longrightarrow> P (orders (core w'))"
  by (rule system.keeps_history [OF _ _ keeps_product])

end

text \<open>The status of an order is one of the three of the code.\<close>

definition known_statuses :: "SeckillOrderRow list \<Rightarrow> bool" where
  "known_statuses rows \<longleftrightarrow> (\<forall>r \<in> set rows. orw_Status r \<in> {0, 1, 2})"

interpretation statuses: order_invariant known_statuses
  by unfold_locales (auto simp: known_statuses_def sql_update_def moved_on_def)

text \<open>
  \<open>later r r'\<close>: the row \<open>r\<close> as it can be at a later time; \<open>grown base rows\<close>: every row of
  \<open>base\<close> is still there, at its place, as it can be later.
\<close>

definition later :: "SeckillOrderRow \<Rightarrow> SeckillOrderRow \<Rightarrow> bool" where
  "later r r' \<longleftrightarrow> r' = r \<or> orw_Status r = 0 \<and> moved_on r r'"

definition grown :: "SeckillOrderRow list \<Rightarrow> SeckillOrderRow list \<Rightarrow> bool" where
  "grown base rows \<longleftrightarrow> list_all2 later base (take (length base) rows)"

lemma grown_refl: "grown base base"
  by (simp add: grown_def later_def list.rel_refl)

lemma grown_nth: "grown base rows \<Longrightarrow> i < length base \<Longrightarrow> i < length rows \<and> later (base ! i) (rows ! i)"
  by (auto simp: grown_def list_all2_conv_all_nth min_def split: if_splits)

lemma later_move: "later r r' \<Longrightarrow> orw_Status r' = 0 \<Longrightarrow> moved_on r' r'' \<Longrightarrow> later r r''"
  by (auto simp: later_def moved_on_def)

lemma grown_add: "grown base rows \<Longrightarrow> grown base (rows @ [r])"
proof -
  assume g: "grown base rows"
  then have "length base \<le> length rows" unfolding grown_def by (auto dest: list_all2_lengthD)
  then show "grown base (rows @ [r])" using g by (simp add: grown_def)
qed

lemma grown_move:
  assumes g: "grown base rows" and m: "\<And>r. moved_on r (g r)"
  shows "grown base (sql_update (\<lambda>r. orw_OrderNo r = n \<and> orw_Status r = 0) g rows)"
proof -
  let ?p = "\<lambda>r. orw_OrderNo r = n \<and> orw_Status r = 0"
  have step: "later r (if ?p r' then g r' else r')" if "later r r'" for r r'
    using later_move [OF that _ m] that by simp
  have "list_all2 later base (map (\<lambda>r. if ?p r then g r else r) (take (length base) rows))"
    unfolding list.rel_map by (rule list_all2_mono [OF g [unfolded grown_def] step])
  then show ?thesis by (simp add: grown_def sql_update_def take_map)
qed

interpretation growth: order_invariant "grown base" for base
  by unfold_locales (simp_all add: grown_add grown_move)

text \<open>Without a callback no order becomes paid.\<close>

definition paid_within :: "SeckillOrderRow list \<Rightarrow> SeckillOrderRow list \<Rightarrow> bool" where
  "paid_within base rows \<longleftrightarrow>
     (\<forall>i < length rows. orw_Status (rows ! i) = 1 \<longrightarrow> i < length base \<and> orw_Status (base ! i) = 1)"

interpretation unpaid: order_rows "paid_within base" for base
  by unfold_locales (auto simp: paid_within_def nth_append sql_update_def)

end
