(* ===== verification/Evaluation.thy ===== *)
theory Evaluation
  imports System
begin

text \<open>
  Rules that run an operation of the model on a concrete world whose calls are all answered,
  for the concrete instances of the theorems.
\<close>

lemma run_commit: "replies w = [] \<Longrightarrow> run_state (commit_tx snap) w = (Inr (), w)"
  by (simp add: commit_tx_def)

lemma run_ExecTx:
  "replies w = [] \<Longrightarrow> run_state (ExecTx fn) w = (case run_state fn w of
       (Inl e, w1) \<Rightarrow> (Inl e, w1\<lparr>core := core w\<rparr>)
     | (Inr x, w1) \<Rightarrow> (case run_state (commit_tx (core w)) w1 of
           (Inl e, w2) \<Rightarrow> (Inl e, w2) | (Inr _, w2) \<Rightarrow> (Inr x, w2)))"
  by (simp add: ExecTx_def begin_tx_def query_def run_call_quiet split: prod.split sum.split)

lemma E0_simps [simp]:
  "format_time E0 t = show_int (unix t)" "parse_time E0 s = map_option (\<lambda>i. i * second) (parse_int s)"
  "add_date E0 y m d t = t + (y * 365 + m * 30 + d) * 24 * hour" "md5_hex E0 s = s" "snowflake E0 n = int n"
  "uuid E0 n = dec n" "rand_below E0 n k = 0" "trace_id E0 = ''t''" "trace_headers E0 = []"
  "bloom_fp E0 a b = False" "scan_plan E0 ks = [ks]" "text_of E0 v = []" "fl E0 r = r"
  by (simp_all add: E0_def)

lemmas sql_run = first_on_def find_on_def count_on_def insert_on_def exec_on_def query_def sql_first_def
  sql_clash_def sql_exec_def sql_update_def set_row_def put_defs current_timestamp_def

lemmas run_rules = run_bindE run_on_error run_call_quiet run_ExecTx run_commit sql_run

lemmas sample = w0_def core0_def sku0_def activity0_def address0_def product0_def msg0_def zeroMessage_def

lemmas confirm_run = ConfirmSeckillOrder_def confirm_body_def mysqlRepo_GetUserAddress_def
  mysqlRepo_CreateOrder_def mysqlRepo_CreateOrderShipping_def mysqlRepo_DecreaseStock_def order_of_def
  order_row_def shipping_row_def shift_stock_def add_u32_def touch_sku_def

lemmas cancel_run = CancelTimeoutOrder_def cancel_body_def orderCancelService_def mysqlRepo_GetOrderForUpdate_def
  mysqlRepo_UpdateOrderStatus_def mysqlRepo_RestoreStock_def mysqlRepo_RestoreUserCoupon_def order_info_def
  zeroOrderInfo_def quantity_of_def coupon_of_def nonzero_def set_status_def touch_order_def order_status_defs
  shift_stock_def add_u32_def touch_sku_def

end
