(* ===== verification/Order_Safety.thy ===== *)
theory Order_Safety
  imports Evaluation
begin

text \<open>
  The order ledger of the deployment: what histories keep, and what one confirmation and one
  cancellation do to the tables on every path.
\<close>

section \<open>Histories\<close>

definition order0 :: ConsumerMessage where
  "order0 = \<lparr>cm_Topic = ''order'', cm_Partition = 0, cm_Offset = 4, cm_Value = order_value msg0, cm_Headers = []\<rparr>"

lemma wf_core0: "wf_core (core w0)"
  by (simp add: wf_core_def sample)

lemma stock_w0: "stock_of_sku 7 (core w0) = 10" "held_of_sku 7 (core w0) = 0" "orders (core w0) = []"
  by (simp_all add: sample stock_of_sku_def sql_first_def held_of_sku_def)

text \<open>C1: whatever the service does (submissions, confirmations, retries, payments, callbacks, cancellations,
  compensation, with calls refused or answers lost anywhere), short of an administrator rewriting a
  product's stock, the stock left of a SKU plus the quantity its pending and paid orders hold stays
  the same.\<close>

theorem stock_conserved:
  assumes "history E T w as w'" and "wf_core (core w)" and "\<forall>q. ChangeProduct q \<notin> set as"
  shows "stock_of_sku s (core w') + held_of_sku s (core w') = stock_of_sku s (core w) + held_of_sku s (core w)"
  using stock.keeps_history [OF assms(1), of s "stock_of_sku s (core w) + held_of_sku s (core w)"] assms(2,3) by blast

theorem stock_conserved_witness:
  "\<exists>w'. history E0 topics0 w0 [ConsumeOrder order0, TimePasses 900, CancelTask ''n1''] w' \<and>
     stock_of_sku 7 (core w') + held_of_sku 7 (core w') = 10"
proof -
  obtain w' where h: "history E0 topics0 w0 [ConsumeOrder order0, TimePasses 900, CancelTask ''n1''] w'"
    using history_total by blast
  then show ?thesis using stock_conserved [OF h wf_core0, of 7] by (auto simp: stock_w0)
qed

text \<open>C2: in every history, product updates included, an order row never disappears and never changes
  its user, SKU, quantity or amounts; only its status moves, and only from pending to paid or from
  pending to cancelled.\<close>

theorem orders_move_forward:
  assumes "history E T w as w'" and "i < length (orders (core w))"
  shows "i < length (orders (core w')) \<and>
     order_terms (orders (core w') ! i) = order_terms (orders (core w) ! i) \<and>
     (orders (core w') ! i = orders (core w) ! i \<or>
      orw_Status (orders (core w) ! i) = 0 \<and> orw_Status (orders (core w') ! i) \<in> {1, 2})"
  using grown_nth [OF growth.all_history [OF assms(1) grown_refl] assms(2)]
  by (auto simp: later_def moved_on_def)

definition order_row0 :: SeckillOrderRow where
  "order_row0 = order_row (order_of msg0) 1 second"

definition world1 :: world where
  "world1 = w0\<lparr>core := core0\<lparr>orders := [order_row0]\<rparr>\<rparr>"

theorem orders_move_forward_witness:
  "\<exists>w'. history E0 topics0 world1 [CancelTask ''n1'', ConsumeOrder order0] w' \<and>
     orw_OrderNo (orders (core w') ! 0) = ''n1''"
proof -
  obtain w' where h: "history E0 topics0 world1 [CancelTask ''n1'', ConsumeOrder order0] w'"
    using history_total by blast
  have "orw_OrderNo (order_terms r) = orw_OrderNo r" for r by (simp add: order_terms_def)
  then show ?thesis using orders_move_forward [OF h, of 0] h
    by (simp add: world1_def order_row0_def order_row_def order_of_def sample) (metis SeckillOrderRow.select_convs(2))
qed

text \<open>C3: from tables whose keys are unique, no history ever leaves two orders of one user in one activity,
  nor two orders with one order number or one request.\<close>

theorem one_order_per_user:
  assumes "history E T w as w'" and "wf_core (core w)"
    and "i < length (orders (core w'))" and "j < length (orders (core w'))" and "i \<noteq> j"
  shows "(orw_UserID (orders (core w') ! i), orw_ActivityID (orders (core w') ! i)) \<noteq>
      (orw_UserID (orders (core w') ! j), orw_ActivityID (orders (core w') ! j)) \<and>
    orw_OrderNo (orders (core w') ! i) \<noteq> orw_OrderNo (orders (core w') ! j) \<and>
    orw_RequestID (orders (core w') ! i) \<noteq> orw_RequestID (orders (core w') ! j)"
  using wf_history [OF assms(1,2)] assms(3-5) by (auto simp: wf_core_def distinct_conv_nth)

definition world2 :: world where
  "world2 = w0\<lparr>core := core0\<lparr>orders := [order_row0,
     order_row0\<lparr>orw_ID := 2, orw_OrderNo := ''n2'', orw_RequestID := ''r2'', orw_UserID := 22\<rparr>]\<rparr>\<rparr>"

lemma wf_world2: "wf_core (core world2)"
  by (simp add: wf_core_def world2_def order_row0_def order_row_def order_of_def sample)

theorem one_order_per_user_witness:
  "\<exists>w'. history E0 topics0 world2 [ConsumeOrder order0, CancelTask ''n2''] w' \<and>
     orw_OrderNo (orders (core w') ! 0) \<noteq> orw_OrderNo (orders (core w') ! 1)"
proof -
  obtain w' where h: "history E0 topics0 world2 [ConsumeOrder order0, CancelTask ''n2''] w'"
    using history_total by blast
  have len: "1 < length (orders (core w'))"
    using grown_nth [OF growth.all_history [OF h grown_refl], of 1] by (simp add: world2_def core0_def)
  then have "0 < length (orders (core w'))" by linarith
  then show ?thesis using one_order_per_user [OF h wf_world2 _ len, of 0] h by (intro exI [of _ w']) simp
qed

section \<open>One confirmation\<close>

lemma CreateOrder_run:
  assumes "run_state (mysqlRepo_CreateOrder ord) w = (Inr n, w')"
  obtains i where "core w' = (core w)\<lparr>orders := orders (core w) @ [order_row ord i (current_timestamp w)]\<rparr>"
    and "\<not> sql_clash order_clash (order_row ord i (current_timestamp w)) (orders (core w))"
    and "clock w' = clock w" and "n = ord_OrderNo ord"
proof -
  obtain i where "run_state (insert_on order_table put_orders order_clash (order_row ord)) w = (Inr i, w')"
    and n: "n = ord_OrderNo ord"
    using assms by (auto simp: mysqlRepo_CreateOrder_def split: prod.splits sum.splits if_splits)
  then show ?thesis by (elim insert_on_Inr) (auto simp: put_orders_def intro: that)
qed

lemma CreateOrderShipping_run:
  assumes "run_state (mysqlRepo_CreateOrderShipping n a) w = (Inr x, w')"
  obtains i where "core w' = (core w)\<lparr>shippings := shippings (core w) @ [shipping_row n a i (current_timestamp w)]\<rparr>"
    and "clock w' = clock w"
  using assms unfolding mysqlRepo_CreateOrderShipping_def
  by (auto elim!: bindE_Inr insert_on_Inr simp: put_shippings_def)

lemma GetUserAddress_run:
  assumes "run_state (mysqlRepo_GetUserAddress i) w = (Inr a, w')"
  obtains r where "r \<in> set (addresses w)" "uad_ID r = i" "uad_IsDelete r = 0"
    "addr_ReceiverName a = uad_ReceiverName r" "addr_DetailAddress a = uad_DetailAddress r"
    and "core w' = core w" "clock w' = clock w"
  using assms unfolding mysqlRepo_GetUserAddress_def
  by (auto elim!: bindE_Inr first_on_Inr simp: on_error_Inr dest!: sql_first_Some)

lemma shift_stock_enough:
  "shift_stock (- uint q) r = Some r' \<Longrightarrow> uint q \<le> uint (sku_AvailableStock r)"
  by (auto simp: shift_stock_def add_u32_def split: if_splits option.splits)

lemma DecreaseStock_run:
  assumes "run_state (mysqlRepo_DecreaseStock s q v) w = (Inr (), w')" and "wf_core (core w)"
  shows "core w' = (core w)\<lparr>skus := skus (core w')\<rparr>" and "uint q \<le> stock_of_sku s (core w)"
proof -
  let ?p = "\<lambda>r. sku_ID r = s \<and> q \<le> sku_AvailableStock r"
  obtain n where run: "run_state (exec_on sku_table put_skus ?p (shift_stock (- uint q)) touch_sku) w = (Inr n, w')"
    and n: "n \<noteq> 0"
    using assms(1) unfolding mysqlRepo_DecreaseStock_def by (elim bindE_Inr) (auto split: if_splits)
  obtain rs tab where ex: "sql_exec ?p (shift_stock (- uint q)) (touch_sku (current_timestamp w)) (skus (core w)) = Inr (tab, n)"
    and w': "w' = put_skus tab (w\<lparr>replies := rs\<rparr>)"
    using run by (rule exec_on_Inr) simp
  show "core w' = (core w)\<lparr>skus := skus (core w')\<rparr>" by (simp add: w' put_skus_def)
  obtain r where r: "r \<in> set (skus (core w))" "?p r" using affected_row [OF ex n] by metis
  then have "sql_first (\<lambda>x. sku_ID x = s) (skus (core w)) = Some r"
    using find_distinct [of sku_ID "skus (core w)" r] assms(2) by (simp add: wf_core_def)
  then show "uint q \<le> stock_of_sku s (core w)" using r by (simp add: stock_of_sku_def word_le_def)
qed

text \<open>
  The tables after a confirmation: the new order, its shipping address as it was on the account,
  and the stock.
\<close>

definition confirmed_tables :: "SeckillOrderMessage \<Rightarrow> world \<Rightarrow> core_db \<Rightarrow> bool" where
  "confirmed_tables msg w c \<longleftrightarrow>
     (\<exists>i j a u. u \<in> set (addresses w) \<and> uad_ID u = msg_AddressID msg \<and> uad_IsDelete u = 0 \<and>
        addr_ReceiverName a = uad_ReceiverName u \<and> addr_DetailAddress a = uad_DetailAddress u \<and>
        orders c = orders (core w) @ [order_row (order_of msg) i (current_timestamp w)] \<and>
        shippings c = shippings (core w) @ [shipping_row (msg_OrderNo msg) a j (current_timestamp w)]) \<and>
     (\<forall>s. stock_of_sku s c = stock_of_sku s (core w) -
        (if s = msg_SkuID msg then uint (u32_of (msg_Quantity msg)) else 0)) \<and>
     uint (u32_of (msg_Quantity msg)) \<le> stock_of_sku (msg_SkuID msg) (core w) \<and>
     activities c = activities (core w) \<and> coupons c = coupons (core w) \<and> user_coupons c = user_coupons (core w)"

lemma confirmed_replies: "confirmed_tables msg (w\<lparr>replies := rs\<rparr>) c = confirmed_tables msg w c"
  by (simp add: confirmed_tables_def current_timestamp_def)

lemma confirm_body_mysql:
  "confirm_body (mysqlRepo E) msg =
     bindE (mysqlRepo_GetUserAddress (msg_AddressID msg)) (\<lambda>a.
     bindE (mysqlRepo_CreateOrder (order_of msg)) (\<lambda>orderNo.
       if orderNo \<noteq> msg_OrderNo msg then return (Inl ErrOrderExists)
       else bindE (mysqlRepo_CreateOrderShipping orderNo a) (\<lambda>_.
         mysqlRepo_DecreaseStock (msg_SkuID msg) (u32_of (msg_Quantity msg)) (msg_Version msg))))"
  by (simp add: confirm_body_def mysqlRepo_def cong: if_cong)

lemma confirm_body_run:
  assumes run: "run_state (confirm_body (mysqlRepo E) msg) w = (Inr x, w')" and wf: "wf_core (core w)"
  shows "confirmed_tables msg w (core w')"
proof -
  obtain a w1 where a: "run_state (mysqlRepo_GetUserAddress (msg_AddressID msg)) w = (Inr a, w1)"
    and run1: "run_state (bindE (mysqlRepo_CreateOrder (order_of msg)) (\<lambda>orderNo.
       if orderNo \<noteq> msg_OrderNo msg then return (Inl ErrOrderExists)
       else bindE (mysqlRepo_CreateOrderShipping orderNo a) (\<lambda>_.
         mysqlRepo_DecreaseStock (msg_SkuID msg) (u32_of (msg_Quantity msg)) (msg_Version msg)))) w1 = (Inr x, w')"
    using run unfolding confirm_body_mysql by (rule bindE_Inr)
  from run1 obtain n w2 where n: "run_state (mysqlRepo_CreateOrder (order_of msg)) w1 = (Inr n, w2)"
    and n_eq: "n = msg_OrderNo msg"
    and run2: "run_state (bindE (mysqlRepo_CreateOrderShipping n a) (\<lambda>_.
         mysqlRepo_DecreaseStock (msg_SkuID msg) (u32_of (msg_Quantity msg)) (msg_Version msg))) w2 = (Inr x, w')"
    by (rule bindE_Inr) (auto split: if_splits)
  from run2 obtain y w3 where sh: "run_state (mysqlRepo_CreateOrderShipping n a) w2 = (Inr y, w3)"
    and dec: "run_state (mysqlRepo_DecreaseStock (msg_SkuID msg) (u32_of (msg_Quantity msg)) (msg_Version msg)) w3 = (Inr x, w')"
    by (rule bindE_Inr)
  have core1: "core w1 = core w" "clock w1 = clock w" using GetUserAddress_run [OF a] by metis+
  have wf1: "wf_core (core w1)" using wf core1 by simp
  have wf2: "wf_core (core w2)" and st2: "stock_of_sku t (core w2) = stock_of_sku t (core w)" for t
    using CreateOrder_effect [OF wf1 n] core1 by auto
  have wf3: "wf_core (core w3)" and st3: "stock_of_sku t (core w3) = stock_of_sku t (core w)" for t
    using CreateOrderShipping_effect [OF wf2 sh] st2 by auto
  obtain i where o: "core w2 = (core w)\<lparr>orders := orders (core w) @ [order_row (order_of msg) i (current_timestamp w)]\<rparr>"
    "clock w2 = clock w"
    using CreateOrder_run [OF n] core1 by (metis current_timestamp_def)
  obtain j where s: "core w3 = (core w2)\<lparr>shippings := shippings (core w2) @ [shipping_row n a j (current_timestamp w)]\<rparr>"
    using CreateOrderShipping_run [OF sh] o(2) by (metis current_timestamp_def)
  have d: "core w' = (core w3)\<lparr>skus := skus (core w')\<rparr>"
    and enough: "uint (u32_of (msg_Quantity msg)) \<le> stock_of_sku (msg_SkuID msg) (core w)"
    using DecreaseStock_run [OF _ wf3] dec st3 by auto
  have stock: "stock_of_sku t (core w') = stock_of_sku t (core w) -
      (if t = msg_SkuID msg then uint (u32_of (msg_Quantity msg)) else 0)" for t
    using DecreaseStock_effect [OF wf3] dec st3 by auto
  have tabs: "orders (core w') = orders (core w) @ [order_row (order_of msg) i (current_timestamp w)]"
    "shippings (core w') = shippings (core w) @ [shipping_row (msg_OrderNo msg) a j (current_timestamp w)]"
    "activities (core w') = activities (core w)" "coupons (core w') = coupons (core w)"
    "user_coupons (core w') = user_coupons (core w)"
    by (subst d, simp add: s o n_eq)+
  show ?thesis
    using GetUserAddress_run [OF a] stock enough tabs unfolding confirmed_tables_def by metis
qed

lemma core_rest:
  "same core (cache_DeletePendingReservation (redisRepo E) k)" "same core (delay_Add delayQueue n d)"
  "same core (cache_RollbackStock (redisRepo E) a s q)" "same core (cache_RemoveUserBuy (redisRepo E) a s u)"
  by (simp_all add: same_db_part(1) redis_reservations.db_DeletePending redis_reservations.db_RollbackStock
      redis_reservations.db_RemoveUserBuy app.delay_core [unfolded wired_simps])

text \<open>C4: a confirmation is all or nothing.  Either the core tables are as they were, and an error is
  reported, or there is exactly one new order with the message's terms and its shipping row, and the SKU
  has lost exactly the quantity, which it had; the second case is the only one reported as success.\<close>

theorem confirm_all_or_nothing:
  assumes wf: "wf_core (core w)" and run: "run_state (ConfirmSeckillOrder (wired E T) msg) w = (r, w')"
  shows "core w' = core w \<and> r \<noteq> Inr () \<or> confirmed_tables msg w (core w')"
proof -
  let ?tx = "ExecTx (confirm_body (mysqlRepo E) msg)"
  obtain q w1 where tx: "run_state ?tx w = (q, w1)" by fastforce
  have "core w1 = core w \<and> q \<noteq> Inr () \<or> confirmed_tables msg w (core w1)"
    using tx
  proof (cases rule: ExecTx_cases)
    case (commit_lost rs x w2 d rs')
    then show ?thesis using confirm_body_run [OF commit_lost(1)] wf by (simp add: confirmed_replies)
  next
    case (finished rs x w2 rs')
    then show ?thesis using confirm_body_run [OF finished(1)] wf by (simp add: confirmed_replies)
  qed auto
  moreover have "core w' = core w1 \<and> (r = Inr () \<longrightarrow> q = Inr ())"
  proof (cases q)
    case (Inl e)
    then show ?thesis using run tx by (auto simp: ConfirmSeckillOrder_def run_bindE)
  next
    case (Inr x)
    let ?rest = "State_Monad.bind (cache_DeletePendingReservation (redisRepo E) (msg_RequestID msg))
        (\<lambda>_. State_Monad.bind (delay_Add delayQueue (msg_OrderNo msg) (OrderTimeoutMinutes * minute))
           (\<lambda>_. return (Inr () :: error + unit)))"
    have "same core ?rest" by (intro same_bind core_rest same_return)
    moreover have "run_state ?rest w1 = (r, w')"
      using run tx Inr by (simp only: ConfirmSeckillOrder_def wired_simps run_bindE prod.case sum.case)
    ultimately show ?thesis using Inr by (auto dest: sameD)
  qed
  ultimately show ?thesis by auto
qed

lemma confirm0: "fst (run_state (ConfirmSeckillOrder (wired E0 topics0) msg0) w0) = Inr ()"
  by (simp add: confirm_run mysqlRepo_def redisRepo_def delayQueue_def run_rules sample split: prod.split)

theorem confirm_all_or_nothing_witness:
  "confirmed_tables msg0 w0 (core (snd (run_state (ConfirmSeckillOrder (wired E0 topics0) msg0) w0)))"
  using confirm_all_or_nothing [OF wf_core0 surjective_pairing, of E0 topics0 msg0]
    confirm0 by simp

section \<open>One cancellation\<close>

text \<open>
  The tables after the pending order \<open>row\<close> is cancelled: of the orders only its row changes, and only in
  status; of the SKUs only its own, which has its quantity back and the next version; of the
  coupons only the one it had used, which is unused again.
\<close>

definition restored_coupon :: "u64 \<Rightarrow> UserCouponRow \<Rightarrow> UserCouponRow \<Rightarrow> bool" where
  "restored_coupon i u u' \<longleftrightarrow>
     (if ucr_ID u = i \<and> ucr_Status u = UserCouponStatusUsed
      then \<exists>t. u' = u\<lparr>ucr_Status := UserCouponStatusUnused, ucr_UsedTime := None, ucr_UpdateTime := t\<rparr>
      else u' = u)"

definition restocked :: "u64 \<Rightarrow> u32 \<Rightarrow> SeckillSkuRow \<Rightarrow> SeckillSkuRow \<Rightarrow> bool" where
  "restocked i q r r' \<longleftrightarrow>
     (if sku_ID r = i
      then \<exists>t. r' = r\<lparr>sku_AvailableStock := sku_AvailableStock r + q, sku_Version := sku_Version r + 1, sku_UpdateTime := t\<rparr>
      else r' = r)"

definition cancelled_tables :: "SeckillOrderRow \<Rightarrow> core_db \<Rightarrow> core_db \<Rightarrow> bool" where
  "cancelled_tables row c c' \<longleftrightarrow>
     list_all2 (\<lambda>r r'. if orw_OrderNo r = orw_OrderNo row then order_terms r' = order_terms r \<and> orw_Status r' = 2
        else r' = r) (orders c) (orders c') \<and>
     (\<forall>s. stock_of_sku s c' = stock_of_sku s c + (if s = orw_SkuID row then quantity_of row else 0)) \<and>
     list_all2 (restocked (orw_SkuID row) (u32_of (quantity_of row))) (skus c) (skus c') \<and>
     (if coupon_of row = 0 then user_coupons c' = user_coupons c
      else list_all2 (restored_coupon (coupon_of row)) (user_coupons c) (user_coupons c')) \<and>
     shippings c' = shippings c \<and> activities c' = activities c \<and> coupons c' = coupons c"

lemma GetOrderForUpdate_run:
  assumes "run_state (mysqlRepo_GetOrderForUpdate E n) w = (Inr oi, w')"
  obtains row rs where "sql_first (\<lambda>r. orw_OrderNo r = n) (orders (core w)) = Some row"
    and "oi = (order_info E row)\<lparr>oi_CouponDiscount := 0\<rparr>" and "w' = w\<lparr>replies := rs\<rparr>"
  using assms unfolding mysqlRepo_GetOrderForUpdate_def
  by (auto elim!: bindE_Inr first_on_Inr simp: on_error_Inr)

lemma cancel_status:
  assumes "run_state (mysqlRepo_UpdateOrderStatus n 0 2) w = (Inr (), w')" and wf: "wf_core (core w)"
    and row: "sql_first (\<lambda>r. orw_OrderNo r = n) (orders (core w)) = Some row" and "orw_Status row = 0"
  shows "core w' = (core w)\<lparr>orders := orders (core w')\<rparr>"
    and "list_all2 (\<lambda>r r'. if orw_OrderNo r = n then order_terms r' = order_terms r \<and> orw_Status r' = 2 else r' = r)
       (orders (core w)) (orders (core w'))"
    and "keyspace w' = keyspace w"
proof -
  let ?p = "\<lambda>r. orw_OrderNo r = n \<and> orw_Status r = u32_of 0"
  let ?g = "set_row (\<lambda>r. Some (set_status 2 (clock w) r)) (touch_order (current_timestamp w))"
  obtain rs where w': "w' = put_orders (sql_update ?p ?g (orders (core w))) (w\<lparr>replies := rs\<rparr>)"
    using assms(1) by (rule UpdateOrderStatus_run)
  show "core w' = (core w)\<lparr>orders := orders (core w')\<rparr>" "keyspace w' = keyspace w" by (simp_all add: w' put_orders_def)
  have only: "orw_Status r = 0" if "r \<in> set (orders (core w))" "orw_OrderNo r = n" for r
    using find_distinct [of orw_OrderNo "orders (core w)" r] that wf row assms(4) by (simp add: wf_core_def)
  show "list_all2 (\<lambda>r r'. if orw_OrderNo r = n then order_terms r' = order_terms r \<and> orw_Status r' = 2 else r' = r)
       (orders (core w)) (orders (core w'))"
    unfolding w' put_orders_def sql_update_def
    by (auto simp: list.rel_map set_status_terms set_status_keys only intro!: list.rel_refl_strong)
qed

lemma restore_row:
  "ucr_Status r = UserCouponStatusUsed \<Longrightarrow>
     set_row (\<lambda>r. Some (r\<lparr>ucr_Status := UserCouponStatusUnused, ucr_UsedTime := None\<rparr>)) (touch_user_coupon t) r =
     r\<lparr>ucr_Status := UserCouponStatusUnused, ucr_UsedTime := None, ucr_UpdateTime := Some t\<rparr>"
  by (cases r) (auto simp: set_row_def touch_user_coupon_def UserCouponStatusUnused_def UserCouponStatusUsed_def)

lemma RestoreUserCoupon_run:
  assumes "run_state (mysqlRepo_RestoreUserCoupon i) w = (Inr (), w')"
  shows "core w' = (core w)\<lparr>user_coupons := user_coupons (core w')\<rparr>"
    and "list_all2 (restored_coupon i) (user_coupons (core w)) (user_coupons (core w'))"
    and "keyspace w' = keyspace w"
  using assms unfolding mysqlRepo_RestoreUserCoupon_def
  by (auto elim!: bindE_Inr exec_on_Inr simp: put_user_coupons_def sql_exec_Inr sql_update_def list.rel_map
      restored_coupon_def restore_row
      intro!: list.rel_refl_strong exI [of _ "Some (current_timestamp w)"])

lemma RestoreStock_run:
  assumes "run_state (mysqlRepo_RestoreStock s q) w = (Inr (), w')"
  shows "core w' = (core w)\<lparr>skus := skus (core w')\<rparr>" and "keyspace w' = keyspace w"
  using assms unfolding mysqlRepo_RestoreStock_def
  by (auto elim!: bindE_Inr exec_on_Inr simp: put_skus_def split: if_splits)

lemma restock_row:
  assumes "shift_stock (uint q) r \<noteq> None"
  shows "set_row (shift_stock (uint q)) (touch_sku t) r =
     r\<lparr>sku_AvailableStock := sku_AvailableStock r + q, sku_Version := sku_Version r + 1, sku_UpdateTime := Some t\<rparr>"
  using assms
  by (cases r) (auto simp: set_row_def shift_stock_def add_u32_def touch_sku_def wi_hom_syms split: if_splits option.splits)

lemma RestoreStock_rows:
  "run_state (mysqlRepo_RestoreStock s q) w = (Inr (), w') \<Longrightarrow> list_all2 (restocked s q) (skus (core w)) (skus (core w'))"
  unfolding mysqlRepo_RestoreStock_def
  by (auto elim!: bindE_Inr exec_on_Inr simp: put_skus_def sql_exec_Inr sql_update_def list.rel_map restocked_def restock_row
      split: if_splits intro!: list.rel_refl_strong exI [of _ "Some (current_timestamp w)"])

text \<open>The calls of a transaction body that succeeds.\<close>

lemma cancel_body_steps:
  assumes "run_state (cancel_body (orderCancelService E) n) w = (Inr oi, w')"
  obtains w1 where "run_state (mysqlRepo_GetOrderForUpdate E n) w = (Inr oi, w1)"
    and "oi_Status oi \<noteq> OrderStatusPending \<Longrightarrow> w' = w1"
    and "oi_Status oi = OrderStatusPending \<Longrightarrow> \<exists>w2 w3.
       run_state (mysqlRepo_UpdateOrderStatus n OrderStatusPending OrderStatusCancel) w1 = (Inr (), w2) \<and>
       run_state (mysqlRepo_RestoreStock (oi_SkuID oi) (u32_of (oi_Quantity oi))) w2 = (Inr (), w3) \<and>
       run_state (if oi_CouponID oi > 0 then mysqlRepo_RestoreUserCoupon (oi_CouponID oi) else return (Inr ())) w3 = (Inr (), w')"
proof -
  have "\<exists>w1. run_state (mysqlRepo_GetOrderForUpdate E n) w = (Inr oi, w1) \<and>
    (if oi_Status oi \<noteq> OrderStatusPending then w' = w1 else \<exists>w2 w3.
       run_state (mysqlRepo_UpdateOrderStatus n OrderStatusPending OrderStatusCancel) w1 = (Inr (), w2) \<and>
       run_state (mysqlRepo_RestoreStock (oi_SkuID oi) (u32_of (oi_Quantity oi))) w2 = (Inr (), w3) \<and>
       run_state (if oi_CouponID oi > 0 then mysqlRepo_RestoreUserCoupon (oi_CouponID oi) else return (Inr ())) w3 = (Inr (), w'))"
    using assms unfolding cancel_body_def orderCancelService_def OrderCancelService.select_convs
    by (rule bindE_Inr) (auto simp: on_error_Inr mysqlRepo_def elim!: bindE_Inr split: if_splits)
  then obtain w1 where w1: "run_state (mysqlRepo_GetOrderForUpdate E n) w = (Inr oi, w1)"
    "if oi_Status oi \<noteq> OrderStatusPending then w' = w1 else \<exists>w2 w3.
       run_state (mysqlRepo_UpdateOrderStatus n OrderStatusPending OrderStatusCancel) w1 = (Inr (), w2) \<and>
       run_state (mysqlRepo_RestoreStock (oi_SkuID oi) (u32_of (oi_Quantity oi))) w2 = (Inr (), w3) \<and>
       run_state (if oi_CouponID oi > 0 then mysqlRepo_RestoreUserCoupon (oi_CouponID oi) else return (Inr ())) w3 = (Inr (), w')"
    by blast
  show ?thesis by (rule that [OF w1(1)]) (use w1(2) in \<open>simp_all only: if_True if_False not_True_eq_False not_False_eq_True\<close>)
qed

lemma sint_status: "sint (orw_Status r) = OrderStatusPending \<longleftrightarrow> orw_Status r = 0"
  by (simp add: OrderStatusPending_def signed_eq_0_iff)

lemma cancel_pending:
  assumes wf: "wf_core (core w)" and row: "sql_first (\<lambda>r. orw_OrderNo r = n) (orders (core w)) = Some row"
    and pending: "orw_Status row = 0" and upd: "run_state (mysqlRepo_UpdateOrderStatus n 0 2) w = (Inr (), w2)"
    and res: "run_state (mysqlRepo_RestoreStock (orw_SkuID row) (u32_of (quantity_of row))) w2 = (Inr (), w3)"
    and cpn: "run_state (if coupon_of row > 0 then mysqlRepo_RestoreUserCoupon (coupon_of row) else return (Inr ())) w3 = (Inr (), w')"
  shows "cancelled_tables row (core w) (core w') \<and> keyspace w' = keyspace w"
proof -
  note u = cancel_status [OF upd wf row pending] and r = RestoreStock_run [OF res]
  have n: "orw_OrderNo row = n" using sql_first_Some [OF row] by simp
  have wf2: "wf_core (core w2)" "stock_of_sku t (core w2) = stock_of_sku t (core w)" for t
    using UpdateOrderStatus_keys [OF wf upd] by auto
  have q: "uint (u32_of (quantity_of row)) = quantity_of row"
    using quantity_range [of row] by (simp add: uint_word_of_int)
  have st: "stock_of_sku t (core w3) = stock_of_sku t (core w) + (if t = orw_SkuID row then quantity_of row else 0)" for t
    using RestoreStock_effect [OF wf2(1) res] wf2(2) unfolding q by simp
  have c: "core w' = (core w3)\<lparr>user_coupons := user_coupons (core w')\<rparr>" "keyspace w' = keyspace w3"
    "if coupon_of row = 0 then user_coupons (core w') = user_coupons (core w3)
     else list_all2 (restored_coupon (coupon_of row)) (user_coupons (core w3)) (user_coupons (core w'))"
    using cpn RestoreUserCoupon_run [of "coupon_of row" w3 w'] by (auto simp: word_neq_0_conv split: if_splits)
  have tabs: "orders (core w') = orders (core w2)" "shippings (core w') = shippings (core w)"
    "activities (core w') = activities (core w)" "coupons (core w') = coupons (core w)"
    by (subst c(1), simp, subst r(1), simp, (subst u(1), simp)?)+
  have "skus (core w') = skus (core w3)" by (subst c(1)) simp
  have uc: "user_coupons (core w3) = user_coupons (core w)" by (subst r(1), simp, subst u(1), simp)
  moreover have "skus (core w2) = skus (core w)" by (subst u(1)) simp
  ultimately have "list_all2 (restocked (orw_SkuID row) (u32_of (quantity_of row))) (skus (core w)) (skus (core w'))"
    using RestoreStock_rows [OF res] \<open>skus (core w') = skus (core w3)\<close> by simp
  then show ?thesis
    using u(2,3) r(2) c(2) c(3) [unfolded uc] st tabs n \<open>skus (core w') = skus (core w3)\<close>
    by (simp add: cancelled_tables_def stock_of_sku_def)
qed

lemma cancel_body_run:
  assumes run: "run_state (cancel_body (orderCancelService E) n) w = (Inr oi, w')" and wf: "wf_core (core w)"
  obtains row where "sql_first (\<lambda>r. orw_OrderNo r = n) (orders (core w)) = Some row"
    and "oi = (order_info E row)\<lparr>oi_CouponDiscount := 0\<rparr>" and "keyspace w' = keyspace w"
    and "if orw_Status row = 0 then cancelled_tables row (core w) (core w') else core w' = core w"
  using run
proof (rule cancel_body_steps)
  fix w1 assume get: "run_state (mysqlRepo_GetOrderForUpdate E n) w = (Inr oi, w1)"
    and keep: "oi_Status oi \<noteq> OrderStatusPending \<Longrightarrow> w' = w1"
    and move: "oi_Status oi = OrderStatusPending \<Longrightarrow> \<exists>w2 w3.
       run_state (mysqlRepo_UpdateOrderStatus n OrderStatusPending OrderStatusCancel) w1 = (Inr (), w2) \<and>
       run_state (mysqlRepo_RestoreStock (oi_SkuID oi) (u32_of (oi_Quantity oi))) w2 = (Inr (), w3) \<and>
       run_state (if oi_CouponID oi > 0 then mysqlRepo_RestoreUserCoupon (oi_CouponID oi) else return (Inr ())) w3 = (Inr (), w')"
  obtain row rs where row: "sql_first (\<lambda>r. orw_OrderNo r = n) (orders (core w)) = Some row"
    and oi: "oi = (order_info E row)\<lparr>oi_CouponDiscount := 0\<rparr>" and w1: "w1 = w\<lparr>replies := rs\<rparr>"
    using get by (rule GetOrderForUpdate_run)
  have st: "oi_Status oi = OrderStatusPending \<longleftrightarrow> orw_Status row = 0"
    by (simp add: oi order_info_def sint_status)
  have f: "oi_SkuID oi = orw_SkuID row" "oi_Quantity oi = quantity_of row" "oi_CouponID oi = coupon_of row"
    by (simp_all add: oi order_info_def)
  show ?thesis
  proof (cases "orw_Status row = 0")
    case False
    then show ?thesis using that [OF row oi] keep st w1 by simp
  next
    case True
    then obtain w2 w3 where steps: "run_state (mysqlRepo_UpdateOrderStatus n 0 2) w1 = (Inr (), w2)"
      "run_state (mysqlRepo_RestoreStock (orw_SkuID row) (u32_of (quantity_of row))) w2 = (Inr (), w3)"
      "run_state (if coupon_of row > 0 then mysqlRepo_RestoreUserCoupon (coupon_of row) else return (Inr ())) w3 = (Inr (), w')"
      using move [unfolded f order_status_defs] st by (auto simp: order_status_defs)
    have "cancelled_tables row (core w1) (core w') \<and> keyspace w' = keyspace w1"
      by (rule cancel_pending [OF _ _ True steps]) (use wf row w1 in simp_all)
    then show ?thesis using that [OF row oi] True w1 by simp
  qed
qed

text \<open>C8: a cancellation is all or nothing on the core tables: they are untouched, or the order was pending
  and now is cancelled, its quantity is back on its SKU and its coupon unused again, and nothing else
  changed but the version of that SKU and the times of these rows.  When it reports success the order is no longer pending.\<close>

theorem cancel_all_or_nothing:
  assumes wf: "wf_core (core w)" and run: "run_state (CancelTimeoutOrder (orderCancelService E) n) w = (r, w')"
  shows "(\<exists>row. sql_first (\<lambda>r. orw_OrderNo r = n) (orders (core w)) = Some row \<and> orw_Status row = 0 \<and>
       cancelled_tables row (core w) (core w')) \<or>
     core w' = core w \<and> (r = Inr () \<longrightarrow>
       (\<exists>row. sql_first (\<lambda>r. orw_OrderNo r = n) (orders (core w)) = Some row \<and> orw_Status row \<noteq> 0))"
proof -
  let ?tx = "ExecTx (cancel_body (orderCancelService E) n)"
  let ?row = "sql_first (\<lambda>r. orw_OrderNo r = n) (orders (core w))"
  let ?done = "\<lambda>c q. (\<exists>row. ?row = Some row \<and> orw_Status row = 0 \<and> cancelled_tables row (core w) c) \<or>
     c = core w \<and> (q \<longrightarrow> (\<exists>row. ?row = Some row \<and> orw_Status row \<noteq> 0))"
  obtain q w1 where tx: "run_state ?tx w = (q, w1)" by fastforce
  have body: "?done (core w2) True" if "run_state (cancel_body (orderCancelService E) n) (w\<lparr>replies := rs\<rparr>) = (Inr oi, w2)"
    for rs oi w2
    by (rule cancel_body_run [OF that]) (use wf in \<open>auto split: if_splits\<close>)
  have 1: "?done (core w1) (\<exists>oi. q = Inr oi)"
    using tx by (cases rule: ExecTx_cases) (auto dest: body)
  have 2: "core w' = core w1 \<and> (r = Inr () \<longrightarrow> (\<exists>oi. q = Inr oi))"
  proof (cases q)
    case (Inl e)
    then show ?thesis using run tx by (auto simp: CancelTimeoutOrder_def run_bindE)
  next
    case (Inr oi)
    let ?rest = "if oi_Status oi \<noteq> OrderStatusPending then return (Inr () :: error + unit)
     else do {
       _ \<leftarrow> cache_RollbackStock (redisRepo E) (oi_ActivityID oi) (oi_SkuID oi) (oi_Quantity oi);
       _ \<leftarrow> cache_RemoveUserBuy (redisRepo E) (oi_ActivityID oi) (oi_SkuID oi) (oi_UserID oi);
       return (Inr ()) }"
    have "same core ?rest" by (intro same_if same_bind core_rest same_return)
    moreover have "run_state ?rest w1 = (r, w')"
      using run tx Inr by (simp only: CancelTimeoutOrder_def orderCancelService_def OrderCancelService.select_convs
        run_bindE prod.case sum.case)
    ultimately show ?thesis using Inr by (auto dest: sameD)
  qed
  show ?thesis using 1 2 by (cases "r = Inr ()") auto
qed

lemma wf_world1: "wf_core (core world1)"
  by (simp add: wf_core_def world1_def sample)

lemma cancel0: "fst (run_state (CancelTimeoutOrder (orderCancelService E0) ''n1'') world1) = Inr ()"
  by (simp add: cancel_run mysqlRepo_def redisRepo_def run_rules sample world1_def order_row0_def order_row_def
      order_of_def confirm_order_amount_def confirm_final_amount_def split: prod.split)

theorem cancel_all_or_nothing_witness:
  "\<exists>row. cancelled_tables row (core world1) (core (snd (run_state (CancelTimeoutOrder (orderCancelService E0) ''n1'') world1)))"
proof -
  have "sql_first (\<lambda>r. orw_OrderNo r = ''n1'') (orders (core world1)) = Some order_row0" "orw_Status order_row0 = 0"
    by (simp_all add: world1_def sql_first_def order_row0_def order_row_def order_of_def msg0_def)
  then show ?thesis
    using cancel_all_or_nothing [where n = "''n1''" and E = E0, OF wf_world1 surjective_pairing] cancel0 by auto
qed

text \<open>C11: cancelling an order that is paid or already cancelled changes neither the database nor Redis, whatever
  fails: a second run of the cancellation, or one that loses against a payment, gives no stock back.\<close>

theorem cancel_finished_order:
  assumes "wf_core (core w)" and "sql_first (\<lambda>r. orw_OrderNo r = n) (orders (core w)) = Some row"
    and "orw_Status row \<noteq> 0" and run: "run_state (CancelTimeoutOrder (orderCancelService E) n) w = (r, w')"
  shows "core w' = core w \<and> keyspace w' = keyspace w"
proof -
  let ?tx = "ExecTx (cancel_body (orderCancelService E) n)"
  have "same keyspace (cancel_body (orderCancelService E) n)"
    unfolding cancel_body_def orderCancelService_def OrderCancelService.select_convs
    by (intro frame; simp add: mysqlRepo_def mysqlRepo_GetOrderForUpdate_def mysqlRepo_UpdateOrderStatus_def
        mysqlRepo_RestoreStock_def mysqlRepo_RestoreUserCoupon_def; intro frame; simp add: put_defs)
  then have keys: "same keyspace ?tx" by (rule same_ExecTx) simp_all
  obtain q w1 where tx: "run_state ?tx w = (q, w1)" by fastforce
  have body: "core w2 = core w \<and> oi_Status oi \<noteq> OrderStatusPending"
    if "run_state (cancel_body (orderCancelService E) n) (w\<lparr>replies := rs\<rparr>) = (Inr oi, w2)" for rs oi w2
    by (rule cancel_body_run [OF that]) (use assms(1-3) in \<open>auto simp: order_info_def sint_status\<close>)
  have 1: "core w1 = core w \<and> (\<forall>oi. q = Inr oi \<longrightarrow> oi_Status oi \<noteq> OrderStatusPending)"
    using tx by (cases rule: ExecTx_cases) (auto dest: body)
  have "w' = w1"
  proof (cases q)
    case (Inl e)
    then show ?thesis using run tx by (auto simp: CancelTimeoutOrder_def run_bindE)
  next
    case (Inr oi)
    then show ?thesis using run tx 1 by (auto simp: CancelTimeoutOrder_def run_bindE)
  qed
  then show ?thesis using 1 sameD [OF keys tx] by simp
qed

definition paid_world :: world where
  "paid_world = world1\<lparr>core := core0\<lparr>orders := [order_row0\<lparr>orw_Status := 1\<rparr>]\<rparr>\<rparr>"

theorem cancel_finished_order_witness:
  "keyspace (snd (run_state (CancelTimeoutOrder (orderCancelService E0) ''n1'') paid_world)) = []"
proof -
  have "wf_core (core paid_world)" by (simp add: wf_core_def paid_world_def sample)
  moreover have "sql_first (\<lambda>r. orw_OrderNo r = ''n1'') (orders (core paid_world)) = Some (order_row0\<lparr>orw_Status := 1\<rparr>)"
    by (simp add: paid_world_def sql_first_def order_row0_def order_row_def order_of_def msg0_def)
  ultimately show ?thesis
    using cancel_finished_order [where w = paid_world and n = "''n1''" and E = E0, OF _ _ _ surjective_pairing]
    by (simp add: paid_world_def world1_def w0_def)
qed

end
