(* ===== verification/Payment_Safety.thy ===== *)
theory Payment_Safety
  imports Order_Safety
begin

text \<open>
  Payments: what it takes for an order to become paid, what a callback does on each branch, and
  where the two databases part.
\<close>

section \<open>Signatures\<close>

text \<open>C12: a callback whose signature is not the one computed from its own fields changes nothing at all, and
  the caller is told so (as an internal error, not as a refused permission).\<close>

theorem forged_callback_changes_nothing:
  assumes "pq_Sign q \<noteq> buildPayCallbackSign E (callback_request q)"
  shows "run_state (rpc_PayCallback E uc q) w = (Inl (Status Internal ''invalid payment callback sign''), w)"
  using assms
  by (simp add: rpc_PayCallback_def HandlePayCallback_def verifyPayCallbackSign_def run_rpc_of callback_request_def
      mapPayCallbackError_def)

definition callback0 :: PayCallbackPb where
  "callback0 = \<lparr>pq_OrderNo = ''n1'', pq_PlatformNumber = ''P7'', pq_PayAmount = 200, pq_PlatformStatus = ''SUCCESS'',
     pq_PayTime = 60, pq_Sign = ''forged''\<rparr>"

theorem forged_callback_changes_nothing_witness:
  "snd (run_state (rpc_PayCallback E0 (wired E0 topics0) callback0) world1) = world1"
  by (subst forged_callback_changes_nothing)
    (simp_all add: callback0_def callback_request_def buildPayCallbackSign_def mockPaySecret_def)

section \<open>What it takes for an order to become paid\<close>

lemma GetPayInfo_run:
  assumes "run_state (mysqlRepo_GetPayInfoByPlatformNumber n) w = (Inr p, w')"
  obtains r rs where "sql_first (\<lambda>r. pir_PlatformNumber r = n) (pay_infos w) = Some r" and "p = pay_info r"
    and "w' = w\<lparr>replies := rs\<rparr>"
  using assms unfolding mysqlRepo_GetPayInfoByPlatformNumber_def
  by (auto elim!: bindE_Inr first_on_Inr simp: on_error_Inr)

text \<open>The rows a status update to \<open>Paid\<close> moves.\<close>

definition pays :: "string \<Rightarrow> SeckillOrderRow list \<Rightarrow> SeckillOrderRow list \<Rightarrow> bool" where
  "pays n rows rows' \<longleftrightarrow> (\<exists>g. (\<forall>r. moved_on r (g r) \<and> orw_Status (g r) = 1) \<and>
     rows' = sql_update (\<lambda>r. orw_OrderNo r = n \<and> orw_Status r = 0) g rows)"

lemma UpdateOrderStatus_pays:
  assumes "run_state (mysqlRepo_UpdateOrderStatus n 0 1) w = (Inr (), w')"
  shows "pays n (orders (core w)) (orders (core w'))"
  using assms
  by (rule UpdateOrderStatus_run)
    (auto simp: pays_def put_orders_def set_status_keys order_status_defs intro!: exI set_status_moves)

text \<open>The answer to the amount check, and what a settled order needs.\<close>

definition matching_payment :: "PayCallbackRequest \<Rightarrow> PayInfoRow \<Rightarrow> bool" where
  "matching_payment req r \<longleftrightarrow> pir_PlatformNumber r = pcr_PlatformNumber req \<and> pir_OrderNo r = pcr_OrderNo req \<and>
     pir_PayAmount r = pcr_PayAmount req \<and> pir_PlatformStatus r \<noteq> PayStatusSuccess \<and>
     pir_PlatformStatus r \<noteq> PayStatusSuccessButOrderCanceled"

lemma callback_body_orders:
  assumes run: "run_state (callback_body (mysqlRepo E) req) w = (Inr res, w')"
  shows "orders (core w') = orders (core w) \<or>
     pcr_PlatformStatus req = PayStatusSuccess \<and> (\<exists>r \<in> set (pay_infos w). matching_payment req r) \<and>
     pays (pcr_OrderNo req) (orders (core w)) (orders (core w'))"
proof -
  have eqs: "repo_GetPayInfoByPlatformNumber (mysqlRepo E) = mysqlRepo_GetPayInfoByPlatformNumber"
    "repo_GetOrderForUpdate (mysqlRepo E) = mysqlRepo_GetOrderForUpdate E"
    "repo_UpdatePayInfoStatus (mysqlRepo E) = mysqlRepo_UpdatePayInfoStatus"
    "repo_UpdateOrderStatus (mysqlRepo E) = mysqlRepo_UpdateOrderStatus" by (simp_all add: mysqlRepo_def)
  have upd: "core w2 = core w1" if "run_state (mysqlRepo_UpdatePayInfoStatus n s t) w1 = (x, w2)" for n s t w1 x w2
    by (rule sameD [OF core_pay_writes(2) that])
  have got: "core w2 = core w1" if "run_state (mysqlRepo_GetOrderForUpdate E n) w1 = (x, w2)" for n w1 x w2
    by (rule sameD [OF core_reads(1) that])
  obtain p w1 where p: "run_state (mysqlRepo_GetPayInfoByPlatformNumber (pcr_PlatformNumber req)) w = (Inr p, w1)"
    using run unfolding callback_body_def eqs by (rule bindE_Inr)
  then obtain r rs where r: "sql_first (\<lambda>r. pir_PlatformNumber r = pcr_PlatformNumber req) (pay_infos w) = Some r"
    and p_eq: "p = pay_info r" and w1: "w1 = w\<lparr>replies := rs\<rparr>" by (rule GetPayInfo_run)
  show ?thesis
  proof (cases "matching_payment req r")
    case False
    then show ?thesis
      using run p sql_first_Some [OF r] unfolding callback_body_def eqs
      by (auto simp: run_bindE matching_payment_def p_eq pay_info_def w1 split: if_splits)
  next
    case True
    then have "\<exists>r \<in> set (pay_infos w). matching_payment req r" using sql_first_Some [OF r] by blast
    moreover have "orders (core w') = orders (core w) \<or>
      pcr_PlatformStatus req = PayStatusSuccess \<and> pays (pcr_OrderNo req) (orders (core w)) (orders (core w'))"
      using run p True unfolding callback_body_def eqs matching_payment_def Let_def
      by (auto simp: p_eq pay_info_def w1 order_status_defs elim!: bindE_Inr split: if_splits dest!: upd got UpdateOrderStatus_pays)
    ultimately show ?thesis by blast
  qed
qed

lemma HandlePayCallback_orders:
  assumes run: "run_state (HandlePayCallback E (wired E T) req) w = (r, w')"
  shows "orders (core w') = orders (core w) \<or>
     buildPayCallbackSign E req = pcr_Sign req \<and> pcr_PlatformStatus req = PayStatusSuccess \<and>
     (\<exists>r \<in> set (pay_infos w). matching_payment req r) \<and> pays (pcr_OrderNo req) (orders (core w)) (orders (core w'))"
proof (cases "verifyPayCallbackSign E req")
  case (Some e)
  then show ?thesis using run by (simp add: HandlePayCallback_def)
next
  case None
  then have "run_state (ExecTx (callback_body (mysqlRepo E) req)) w = (r, w')"
    using run by (simp add: HandlePayCallback_def)
  then show ?thesis using None
    by (cases rule: ExecTx_cases) (auto simp: verifyPayCallbackSign_def split: if_splits dest!: callback_body_orders)
qed

text \<open>C13: the only way an order becomes paid is a payment callback that carries a valid signature and the
  platform status SUCCESS and for which the payment database holds an unsettled payment of that platform
  number, that order and exactly that amount; nothing else the service does marks an order paid.\<close>

theorem paid_only_by_callback:
  assumes run: "run_state (run_action E T a) w = ((), w')"
    and now: "i < length (orders (core w'))" "orw_Status (orders (core w') ! i) = 1"
    and before: "i < length (orders (core w))" "orw_Status (orders (core w) ! i) \<noteq> 1"
  shows "\<exists>q. a = PaymentCallback q \<and> pq_Sign q = buildPayCallbackSign E (callback_request q) \<and>
     pq_PlatformStatus q = PayStatusSuccess \<and> orw_OrderNo (orders (core w') ! i) = pq_OrderNo q \<and>
     (\<exists>r \<in> set (pay_infos w). matching_payment (callback_request q) r)"
proof (cases "\<exists>q. a = PaymentCallback q")
  case False
  have "keeps (\<lambda>w'. paid_within (orders (core w)) (orders (core w'))) (run_action E T a)"
    by (cases "\<exists>q. a = ChangeProduct q") (use False in \<open>auto intro: unpaid.keeps_product unpaid.others.keeps_others\<close>)
  then have "paid_within (orders (core w)) (orders (core w'))"
    using keepsD [of _ _ w] run by (fastforce simp: paid_within_def)
  then show ?thesis using now before by (auto simp: paid_within_def)
next
  case True
  then obtain q where a: "a = PaymentCallback q" by blast
  then obtain r where "run_state (HandlePayCallback E (wired E T) (callback_request q)) w = (r, w')"
    using run by (auto simp: ignore_def rpc_PayCallback_def run_rpc_of split: prod.splits)
  from HandlePayCallback_orders [OF this] show ?thesis
  proof
    assume "orders (core w') = orders (core w)"
    then show ?thesis using now before by simp
  next
    assume paid: "buildPayCallbackSign E (callback_request q) = pcr_Sign (callback_request q) \<and>
      pcr_PlatformStatus (callback_request q) = PayStatusSuccess \<and>
      (\<exists>r \<in> set (pay_infos w). matching_payment (callback_request q) r) \<and>
      pays (pcr_OrderNo (callback_request q)) (orders (core w)) (orders (core w'))"
    then obtain g where "orw_OrderNo (order_terms (orders (core w') ! i)) = orw_OrderNo (order_terms (orders (core w) ! i))"
      "orw_OrderNo (orders (core w) ! i) = pq_OrderNo q"
      using now before by (auto simp: pays_def sql_update_def moved_on_def callback_request_def split: if_splits)
    moreover have "pcr_Sign (callback_request q) = pq_Sign q" "pcr_PlatformStatus (callback_request q) = pq_PlatformStatus q"
      by (simp_all add: callback_request_def)
    ultimately show ?thesis using paid a by (auto simp: order_terms_def)
  qed
qed

definition payment0 :: PayInfoRow where
  "payment0 = \<lparr>pir_ID = 1, pir_OrderNo = ''n1'', pir_UserID = 21, pir_PayPlatform = 1, pir_PlatformNumber = ''P7'',
     pir_PlatformStatus = ''CREATED'', pir_PayAmount = 200, pir_PayTime = None, pir_CreateTime = None,
     pir_UpdateTime = None\<rparr>"

definition pay_world :: world where
  "pay_world = world1\<lparr>pay_infos := [payment0]\<rparr>"

definition callback1 :: PayCallbackPb where
  "callback1 = callback0\<lparr>pq_Sign := buildPayCallbackSign E0 (callback_request callback0)\<rparr>"

lemma request1:
  "verifyPayCallbackSign E0 (callback_request callback1) = None"
  "pcr_OrderNo (callback_request callback1) = ''n1''" "pcr_PlatformNumber (callback_request callback1) = ''P7''"
  "pcr_PayAmount (callback_request callback1) = 200" "pcr_PlatformStatus (callback_request callback1) = ''SUCCESS''"
  "pcr_PayTime (callback_request callback1) = 60"
  by (simp_all add: callback1_def callback0_def callback_request_def buildPayCallbackSign_def verifyPayCallbackSign_def)

lemmas callback_run = run_action.simps ignore_def rpc_PayCallback_def run_rpc_of HandlePayCallback_def
  callback_body_def mysqlRepo_GetPayInfoByPlatformNumber_def mysqlRepo_GetOrderForUpdate_def
  mysqlRepo_UpdateOrderStatus_def mysqlRepo_UpdatePayInfoStatus_def pay_info_def order_info_def quantity_of_def
  coupon_of_def zeroOrderInfo_def pay_status_defs order_status_defs set_status_def set_pay_def touch_order_def
  touch_pay_def

lemmas pay_sample = pay_world_def world1_def payment0_def order_row0_def order_row_def order_of_def sample

lemma paid1:
  "map orw_Status (orders (core (snd (run_state (run_action E0 topics0 (PaymentCallback callback1)) pay_world)))) = [1]"
  by (simp add: callback_run mysqlRepo_def run_rules request1 pay_sample Let_def)

theorem paid_only_by_callback_witness:
  "\<exists>r \<in> set (pay_infos pay_world). matching_payment (callback_request callback1) r"
proof -
  let ?w = "snd (run_state (run_action E0 topics0 (PaymentCallback callback1)) pay_world)"
  have st: "map orw_Status (orders (core ?w)) = [1]" by (rule paid1)
  then have "0 < length (orders (core ?w))" "orw_Status (orders (core ?w) ! 0) = 1" by (cases "orders (core ?w)"; simp)+
  moreover have "0 < length (orders (core pay_world))" "orw_Status (orders (core pay_world) ! 0) \<noteq> 1"
    by (simp_all add: pay_sample)
  moreover have "run_state (run_action E0 topics0 (PaymentCallback callback1)) pay_world = ((), ?w)" by (simp add: prod_eq_iff)
  ultimately show ?thesis using paid_only_by_callback [of E0 topics0 "PaymentCallback callback1" pay_world ?w 0] by auto
qed

section \<open>A settled payment\<close>

text \<open>C14: once a payment is settled (paid, or paid for a cancelled order) every further callback for it, signed or
  not and whatever it says, leaves the order, the payment and Redis as they are.\<close>

theorem settled_payment_is_final:
  assumes r: "sql_first (\<lambda>r. pir_PlatformNumber r = pcr_PlatformNumber req) (pay_infos w) = Some r"
    and settled: "pir_PlatformStatus r \<in> {PayStatusSuccess, PayStatusSuccessButOrderCanceled}"
    and run: "run_state (HandlePayCallback E (wired E T) req) w = (x, w')"
  shows "core w' = core w \<and> pay_infos w' = pay_infos w \<and> keyspace w' = keyspace w"
proof (cases "verifyPayCallbackSign E req")
  case (Some e)
  then show ?thesis using run by (simp add: HandlePayCallback_def)
next
  case None
  have body: "\<exists>rs'. w2 = w\<lparr>replies := rs'\<rparr>"
    if "run_state (callback_body (mysqlRepo E) req) (w\<lparr>replies := rs\<rparr>) = (q, w2)" for rs q w2
    using that unfolding callback_body_def
  proof (cases rule: bindE_cases)
    case (err e)
    then show ?thesis
      by (auto simp: mysqlRepo_def mysqlRepo_GetPayInfoByPlatformNumber_def run_bindE run_on_error
          split: prod.splits sum.splits elim!: first_on_run)
  next
    case (ok p w1)
    then have "run_state (mysqlRepo_GetPayInfoByPlatformNumber (pcr_PlatformNumber req)) (w\<lparr>replies := rs\<rparr>) = (Inr p, w1)"
      by (simp add: mysqlRepo_def)
    then show ?thesis using ok(2) r settled by (elim GetPayInfo_run) (auto simp: pay_info_def split: if_splits)
  qed
  have "run_state (ExecTx (callback_body (mysqlRepo E) req)) w = (x, w')"
    using run None by (simp add: HandlePayCallback_def)
  then show ?thesis by (cases rule: ExecTx_cases) (auto dest!: body)
qed

definition settled_world :: world where
  "settled_world = pay_world\<lparr>pay_infos := [payment0\<lparr>pir_PlatformStatus := ''SUCCESS''\<rparr>]\<rparr>"

theorem settled_payment_is_final_witness:
  "pay_infos (snd (run_state (HandlePayCallback E0 (wired E0 topics0) (callback_request callback1)) settled_world))
     = pay_infos settled_world"
proof -
  have "sql_first (\<lambda>r. pir_PlatformNumber r = pcr_PlatformNumber (callback_request callback1)) (pay_infos settled_world)
      = Some (payment0\<lparr>pir_PlatformStatus := ''SUCCESS''\<rparr>)"
    by (simp add: settled_world_def request1 sql_first_def payment0_def)
  from settled_payment_is_final [OF this _ surjective_pairing] show ?thesis by (simp add: pay_status_defs)
qed

section \<open>The outcome of a callback\<close>

lemma run_call_answered:
  "replies w = Answered # rs \<Longrightarrow> run_state (call f) w = f (w\<lparr>replies := rs\<rparr>)"
  "replies w = Refused d # rs \<Longrightarrow> run_state (call f) w = (Inl (Driver d), w\<lparr>replies := rs\<rparr>)"
  by (simp_all add: call_def)

text \<open>The next call is answered: there is no failure left, or the next entry says so.\<close>

definition next_answered :: "world \<Rightarrow> world \<Rightarrow> bool" where
  "next_answered w v \<longleftrightarrow> replies w = [] \<and> v = w \<or> (\<exists>rs. replies w = Answered # rs \<and> v = w\<lparr>replies := rs\<rparr>)"

lemma next_answered_quiet: "replies w = [] \<Longrightarrow> next_answered w w"
  by (simp add: next_answered_def)

lemma next_answered_put: "next_answered w v \<Longrightarrow> next_answered (put_orders t w) (put_orders t v)"
  by (auto simp: next_answered_def put_orders_def)

lemma run_call_next: "next_answered w v \<Longrightarrow> run_state (call f) w = f v"
  by (auto simp: next_answered_def run_call_quiet run_call_answered)

lemma next_tables:
  "next_answered w v \<Longrightarrow> pay_infos v = pay_infos w" "next_answered w v \<Longrightarrow> core v = core w" "next_answered w v \<Longrightarrow> clock v = clock w"
  by (auto simp: next_answered_def)

lemma run_exec_total:
  assumes "next_answered w v"
  shows "run_state (exec_on table put p (\<lambda>r. Some (f r)) touch) w =
     (Inr (length (filter (\<lambda>r. p r \<and> f r \<noteq> r) (table v))),
      put (sql_update p (set_row (\<lambda>r. Some (f r)) (touch (current_timestamp v))) (table v)) v)"
  by (simp add: exec_on_def run_call_next [OF assms] sql_exec_def list_ex_iff)

lemma run_first:
  assumes "next_answered w v" and "sql_first p (table v) = Some r"
  shows "run_state (first_on table p) w = (Inr r, v)"
  using assms by (simp add: first_on_def query_def run_call_next)

lemma changed_rows:
  assumes "sql_first p t = Some r" and "f r \<noteq> r"
  shows "length (filter (\<lambda>r. p r \<and> f r \<noteq> r) t) \<noteq> 0"
  using sql_first_Some [OF assms(1)] assms(2) by (auto simp: filter_empty_conv)

text \<open>The status a payment gets for an order in a given status.\<close>

definition settlement :: "SeckillOrderRow \<Rightarrow> string" where
  "settlement row = (if orw_Status row = 2 then PayStatusSuccessButOrderCanceled else PayStatusSuccess)"

lemma set_pay_fields:
  defines "g \<equiv> \<lambda>st t ts. set_row (\<lambda>r. Some (set_pay st t r)) (touch_pay ts)"
  shows "pir_PlatformNumber (g st t ts r) = pir_PlatformNumber r" "pir_PlatformStatus (g st t ts r) = st"
    "pir_PayAmount (g st t ts r) = pir_PayAmount r" "pir_OrderNo (g st t ts r) = pir_OrderNo r"
  unfolding g_def by (subst set_row_total; simp add: touch_pay_def set_pay_def Let_def split: option.split)+

lemma first_after:
  "sql_first (\<lambda>x. pir_PlatformNumber x = a) (sql_update p (set_row (\<lambda>r. Some (set_pay st t r)) (touch_pay ts)) ps) =
     map_option (\<lambda>r. if p r then set_row (\<lambda>r. Some (set_pay st t r)) (touch_pay ts) r else r)
       (sql_first (\<lambda>x. pir_PlatformNumber x = a) ps)"
  "sql_first (\<lambda>x. orw_OrderNo x = a) (sql_update q (set_row (\<lambda>r. Some (set_status n now r)) (touch_order ts)) os) =
     map_option (\<lambda>r. if q r then set_row (\<lambda>r. Some (set_status n now r)) (touch_order ts) r else r)
       (sql_first (\<lambda>x. orw_OrderNo x = a) os)"
  by (rule first_update [where k = pir_PlatformNumber]; simp add: set_pay_fields)
    (rule first_update [where k = orw_OrderNo]; simp add: set_status_keys)

lemma run_pay_update:
  assumes "next_answered w v" and r: "sql_first (\<lambda>r. pir_PlatformNumber r = n) (pay_infos v) = Some r"
    and "pir_PlatformStatus r \<noteq> st"
  obtains t' where "run_state (mysqlRepo_UpdatePayInfoStatus n st (Some t)) w = (Inr (), put_pay_infos t' v)"
    and "\<exists>r'. sql_first (\<lambda>r. pir_PlatformNumber r = n) t' = Some r' \<and> pir_PlatformStatus r' = st \<and>
      pir_PayAmount r' = pir_PayAmount r \<and> pir_OrderNo r' = pir_OrderNo r"
proof -
  have "pir_PlatformStatus (set_pay st (Some t) r) = st" by (simp add: set_pay_def Let_def)
  then have "set_pay st (Some t) r \<noteq> r" using assms(3) by auto
  from changed_rows [where p = "\<lambda>r. pir_PlatformNumber r = n" and f = "set_pay st (Some t)", OF r this] show ?thesis
    by (intro that, simp add: mysqlRepo_UpdatePayInfoStatus_def run_bindE run_exec_total [OF assms(1)])
      (simp add: first_after r set_pay_fields sql_first_Some [OF r])
qed

lemma run_order_pay:
  assumes "next_answered w v" and row: "sql_first (\<lambda>r. orw_OrderNo r = n) (orders (core v)) = Some row"
    and "orw_Status row = 0"
  obtains t' where "run_state (mysqlRepo_UpdateOrderStatus n 0 1) w = (Inr (), put_orders t' v)"
    and "\<exists>row'. sql_first (\<lambda>r. orw_OrderNo r = n) t' = Some row' \<and> orw_Status row' = 1 \<and> order_terms row' = order_terms row"
proof -
  have row': "sql_first (\<lambda>r. orw_OrderNo r = n \<and> orw_Status r = 0) (orders (core v)) \<noteq> None"
    using sql_first_Some [OF row] assms(3) by (auto simp: sql_first_None)
  have change: "set_status 1 t r \<noteq> r" if "orw_Status r = 0" for t r
  proof -
    have "orw_Status (set_status 1 t r) = 1" by (simp add: set_status_def Let_def)
    then show ?thesis using that by fastforce
  qed
  have n: "length (filter (\<lambda>r. (orw_OrderNo r = n \<and> orw_Status r = 0) \<and> set_status 1 (clock w) r \<noteq> r) (orders (core v))) \<noteq> 0"
    using sql_first_Some [OF row] assms(3) change by (auto simp: filter_empty_conv)
  show ?thesis
    by (rule that, use n in \<open>simp add: mysqlRepo_UpdateOrderStatus_def run_bindE run_exec_total [OF assms(1)]\<close>)
      (use sql_first_Some [OF row] assms(3) in \<open>simp add: first_after row set_status_keys set_status_terms\<close>)
qed

text \<open>What a successful callback leaves of the payment and of the order.\<close>

definition settled_for :: "PayCallbackRequest \<Rightarrow> PayInfoRow \<Rightarrow> SeckillOrderRow \<Rightarrow> world \<Rightarrow> bool" where
  "settled_for req r row w' \<longleftrightarrow>
     (\<exists>r'. sql_first (\<lambda>r. pir_PlatformNumber r = pcr_PlatformNumber req) (pay_infos w') = Some r' \<and>
        pir_PlatformStatus r' = settlement row \<and> pir_PayAmount r' = pir_PayAmount r \<and> pir_OrderNo r' = pir_OrderNo r) \<and>
     (\<exists>row'. sql_first (\<lambda>r. orw_OrderNo r = pcr_OrderNo req) (orders (core w')) = Some row' \<and>
        orw_Status row' = (if orw_Status row = 0 then 1 else orw_Status row) \<and> order_terms row' = order_terms row)"

lemma callback_reads:
  assumes "next_answered w v" and "sql_first (\<lambda>r. pir_PlatformNumber r = pcr_PlatformNumber req) (pay_infos v) = Some r"
    and "sql_first (\<lambda>r. orw_OrderNo r = pcr_OrderNo req) (orders (core v)) = Some row"
  shows "run_state (mysqlRepo_GetPayInfoByPlatformNumber (pcr_PlatformNumber req)) w = (Inr (pay_info r), v)"
    and "run_state (mysqlRepo_GetOrderForUpdate E (pcr_OrderNo req)) w = (Inr ((order_info E row)\<lparr>oi_CouponDiscount := 0\<rparr>), v)"
  by (simp_all add: mysqlRepo_GetPayInfoByPlatformNumber_def mysqlRepo_GetOrderForUpdate_def run_bindE run_on_error
      run_first [where table = pay_infos, OF assms(1,2)] run_first [where table = order_table, OF assms(1,3)])

lemma callback_pays:
  assumes calls: "next_answered w v1" "next_answered v1 v2" "next_answered v2 v3" "next_answered v3 v4"
    and success: "pcr_PlatformStatus req = PayStatusSuccess"
    and r: "sql_first (\<lambda>r. pir_PlatformNumber r = pcr_PlatformNumber req) (pay_infos w) = Some r"
    and match: "matching_payment req r"
    and row: "sql_first (\<lambda>r. orw_OrderNo r = pcr_OrderNo req) (orders (core w)) = Some row" and st: "orw_Status row = 0"
  obtains t1 t2 where "run_state (callback_body (mysqlRepo E) req) w =
      (Inr (callback_result ''payment success''), put_pay_infos t2 (put_orders t1 v4))"
    and "settled_for req r row (put_pay_infos t2 (put_orders t1 v4))"
proof -
  note tables = next_tables [OF calls(1)] next_tables [OF calls(2)] next_tables [OF calls(3)] next_tables [OF calls(4)]
  obtain t1 where o: "run_state (mysqlRepo_UpdateOrderStatus (pcr_OrderNo req) 0 1) v2 = (Inr (), put_orders t1 v3)"
    and o': "\<exists>row'. sql_first (\<lambda>r. orw_OrderNo r = pcr_OrderNo req) t1 = Some row' \<and> orw_Status row' = 1 \<and>
      order_terms row' = order_terms row"
    using run_order_pay [OF calls(3) _ st] row tables by metis
  have un: "pir_PlatformStatus r \<noteq> PayStatusSuccess" using match by (auto simp: matching_payment_def)
  have p: "pay_infos (put_orders t1 v4) = pay_infos w" using tables by (simp add: put_orders_def)
  obtain t2 where u: "run_state (mysqlRepo_UpdatePayInfoStatus (pcr_PlatformNumber req) PayStatusSuccess
        (Some (pcr_PayTime req * second))) (put_orders t1 v3) = (Inr (), put_pay_infos t2 (put_orders t1 v4))"
    and u': "\<exists>r'. sql_first (\<lambda>r. pir_PlatformNumber r = pcr_PlatformNumber req) t2 = Some r' \<and>
      pir_PlatformStatus r' = PayStatusSuccess \<and> pir_PayAmount r' = pir_PayAmount r \<and> pir_OrderNo r' = pir_OrderNo r"
    using run_pay_update [OF next_answered_put [OF calls(4)] r [folded p] un] by metis
  have reads: "run_state (mysqlRepo_GetPayInfoByPlatformNumber (pcr_PlatformNumber req)) w = (Inr (pay_info r), v1)"
    "run_state (mysqlRepo_GetOrderForUpdate E (pcr_OrderNo req)) v1 = (Inr ((order_info E row)\<lparr>oi_CouponDiscount := 0\<rparr>), v2)"
    using callback_reads(1) [OF calls(1), of req r row] callback_reads(2) [OF calls(2), of req r row E] r row tables by simp_all
  show ?thesis
  proof (rule that)
    show "run_state (callback_body (mysqlRepo E) req) w =
        (Inr (callback_result ''payment success''), put_pay_infos t2 (put_orders t1 v4))"
      using match st reads o u success
      by (simp add: callback_body_def mysqlRepo_def run_bindE pay_info_def order_info_def matching_payment_def
          order_status_defs Let_def)
    show "settled_for req r row (put_pay_infos t2 (put_orders t1 v4))"
      using o' u' st by (simp add: settled_for_def put_orders_def put_pay_infos_def settlement_def)
  qed
qed

lemma callback_settles:
  assumes quiet: "replies w = []" and success: "pcr_PlatformStatus req = PayStatusSuccess"
    and r: "sql_first (\<lambda>r. pir_PlatformNumber r = pcr_PlatformNumber req) (pay_infos w) = Some r"
    and match: "matching_payment req r"
    and row: "sql_first (\<lambda>r. orw_OrderNo r = pcr_OrderNo req) (orders (core w)) = Some row" and st: "orw_Status row \<in> {1, 2}"
  obtains res w' where "run_state (callback_body (mysqlRepo E) req) w = (Inr res, w')" and "pcs_Success res"
    and "replies w' = []" and "settled_for req r row w'"
proof -
  have s: "sint (orw_Status row) = (if orw_Status row = 1 then 1 else 2)" using st by auto
  have un: "pir_PlatformStatus r \<noteq> settlement row" using match by (auto simp: matching_payment_def settlement_def)
  obtain t2 where u: "run_state (mysqlRepo_UpdatePayInfoStatus (pcr_PlatformNumber req) (settlement row)
        (Some (pcr_PayTime req * second))) w = (Inr (), put_pay_infos t2 w)"
    and u': "\<exists>r'. sql_first (\<lambda>r. pir_PlatformNumber r = pcr_PlatformNumber req) t2 = Some r' \<and>
      pir_PlatformStatus r' = settlement row \<and> pir_PayAmount r' = pir_PayAmount r \<and> pir_OrderNo r' = pir_OrderNo r"
    using run_pay_update [OF next_answered_quiet [OF quiet] r un] by metis
  have "\<exists>res. run_state (callback_body (mysqlRepo E) req) w = (Inr res, put_pay_infos t2 w) \<and> pcs_Success res"
    using match st callback_reads [OF next_answered_quiet [OF quiet] r row] u success s
    by (auto simp: callback_body_def mysqlRepo_def run_bindE pay_info_def order_info_def matching_payment_def
        order_status_defs settlement_def callback_result_def Let_def split: if_splits)
  moreover have "settled_for req r row (put_pay_infos t2 w)" "replies (put_pay_infos t2 w) = []"
    using u' row st quiet by (auto simp: settled_for_def put_pay_infos_def)
  ultimately show ?thesis using that by blast
qed

text \<open>C15: when every call is answered, a signed SUCCESS callback for an unsettled payment of the right order and
  amount succeeds; a pending order is paid by it, a paid or cancelled one keeps its status; and the
  payment is settled as paid or, for a cancelled order, as paid but to be refunded.\<close>

theorem callback_outcome:
  assumes quiet: "replies w = []" and sign: "pcr_Sign req = buildPayCallbackSign E req"
    and success: "pcr_PlatformStatus req = PayStatusSuccess"
    and r: "sql_first (\<lambda>r. pir_PlatformNumber r = pcr_PlatformNumber req) (pay_infos w) = Some r"
    and match: "matching_payment req r"
    and row: "sql_first (\<lambda>r. orw_OrderNo r = pcr_OrderNo req) (orders (core w)) = Some row"
    and st: "orw_Status row \<in> {0, 1, 2}"
  shows "\<exists>res w' r' row'. run_state (HandlePayCallback E (wired E T) req) w = (Inr res, w') \<and> pcs_Success res \<and>
     sql_first (\<lambda>r. pir_PlatformNumber r = pcr_PlatformNumber req) (pay_infos w') = Some r' \<and>
     pir_PlatformStatus r' = settlement row \<and> pir_PayAmount r' = pir_PayAmount r \<and>
     sql_first (\<lambda>r. orw_OrderNo r = pcr_OrderNo req) (orders (core w')) = Some row' \<and>
     orw_Status row' = (if orw_Status row = 0 then 1 else orw_Status row) \<and> order_terms row' = order_terms row"
proof -
  obtain res w' where body: "run_state (callback_body (mysqlRepo E) req) w = (Inr res, w')" "pcs_Success res"
    and w': "replies w' = []" "settled_for req r row w'"
  proof (cases "orw_Status row = 0")
    case True
    have q: "next_answered w w" by (rule next_answered_quiet [OF quiet])
    obtain t1 t2 where w1: "run_state (callback_body (mysqlRepo E) req) w =
        (Inr (callback_result ''payment success''), put_pay_infos t2 (put_orders t1 w))"
      "settled_for req r row (put_pay_infos t2 (put_orders t1 w))" using callback_pays [OF q q q q success r match row True, of E] .
    show ?thesis by (rule that [OF w1(1) _ _ w1(2)]) (simp_all add: callback_result_def put_pay_infos_def put_orders_def quiet)
  next
    case False
    then have "orw_Status row \<in> {1, 2}" using st by simp
    from callback_settles [OF quiet success r match row this, of E] that show ?thesis .
  qed
  have "run_state (HandlePayCallback E (wired E T) req) w = (Inr res, w')"
    using sign body(1) w'(1) by (simp add: HandlePayCallback_def verifyPayCallbackSign_def run_ExecTx [OF quiet] run_commit)
  then show ?thesis using body(2) w'(2) unfolding settled_for_def by blast
qed

lemma callback1_facts:
  "pcr_Sign (callback_request callback1) = buildPayCallbackSign E0 (callback_request callback1)"
  "pcr_PlatformStatus (callback_request callback1) = PayStatusSuccess"
  "sql_first (\<lambda>r. pir_PlatformNumber r = pcr_PlatformNumber (callback_request callback1)) (pay_infos pay_world) = Some payment0"
  "matching_payment (callback_request callback1) payment0"
  "sql_first (\<lambda>r. orw_OrderNo r = pcr_OrderNo (callback_request callback1)) (orders (core pay_world)) = Some order_row0"
  "orw_Status order_row0 = 0" "replies pay_world = []"
  using request1 by (simp_all add: matching_payment_def pay_sample sql_first_def pay_status_defs verifyPayCallbackSign_def
      split: if_splits)

theorem callback_outcome_witness:
  "\<exists>res w'. run_state (HandlePayCallback E0 (wired E0 topics0) (callback_request callback1)) pay_world = (Inr res, w') \<and>
     pcs_Success res"
proof -
  have "orw_Status order_row0 \<in> {0, 1, 2}" by (simp add: callback1_facts)
  from callback_outcome [OF callback1_facts(7,1-5) this] show ?thesis by blast
qed

section \<open>Creating a payment\<close>

lemma CreatePayInfo_existing:
  assumes "p0 \<in> set (pay_infos w)" and "pir_OrderNo p0 = pay_OrderNo p"
    and run: "run_state (mysqlRepo_CreatePayInfo p) w = (r, w')"
  shows "pay_infos w' = pay_infos w \<and> core w' = core w \<and> r \<noteq> Inr ()"
proof -
  obtain q where ins: "run_state (insert_on pay_infos put_pay_infos pay_clash (pay_row p)) w = (q, w')"
    and q: "r = Inr () \<Longrightarrow> \<exists>i. q = Inr i"
    using run by (auto simp: mysqlRepo_CreatePayInfo_def split: prod.splits sum.splits if_splits)
  have clash: "sql_clash pay_clash (pay_row p i t) (pay_infos w)" for i t
    using assms(1,2) by (auto simp: sql_clash_def list_ex_iff pay_clash_def pay_row_def intro!: bexI [of _ p0])
  show ?thesis using ins by (rule insert_on_cases) (use q clash in auto)
qed

lemma idgen_run:
  assumes "run_state (idgen_NextString (uc_IDGen (wired E T))) w = (r, w')"
  shows "pay_infos w' = pay_infos w \<and> core w' = core w"
  using assms by (auto simp: NewIDGenerator_def snowflake_NextString_def snowflake_NextID_def split: if_splits)

text \<open>C16: asking to pay an order that already has a payment creates no second one: a request that succeeds is
  answered with the platform number of the payment that exists, and the payments stay as they are.\<close>

theorem one_payment_per_order:
  assumes p0: "sql_first (\<lambda>r. pir_OrderNo r = por_OrderNo req) (pay_infos w) = Some p0"
    and run: "run_state (PaySeckillOrder E (wired E T) req) w = (Inr res, w')"
  shows "pos_PlatformNumber res = pir_PlatformNumber p0 \<and> pay_infos w' = pay_infos w \<and> core w' = core w"
proof -
  have body: "pos_PlatformNumber res = pir_PlatformNumber p0 \<and> pay_infos w2 = pay_infos w \<and> core w2 = core w"
    if run2: "run_state (pay_body E (wired E T) req) (w\<lparr>replies := rs\<rparr>) = (Inr res, w2)" for rs w2
  proof -
    obtain oi w3 where g: "run_state (mysqlRepo_GetOrderForUpdate E (por_OrderNo req)) (w\<lparr>replies := rs\<rparr>) = (Inr oi, w3)"
      using run2 unfolding pay_body_def by (rule bindE_Inr) (simp add: mysqlRepo_def)
    obtain rs3 where w3: "w3 = w\<lparr>replies := rs3\<rparr>" by (rule GetOrderForUpdate_run [OF g]) simp
    obtain i w4 where i: "run_state (idgen_NextString (uc_IDGen (wired E T))) w3 = (i, w4)" by fastforce
    have w4: "pay_infos w4 = pay_infos w" "core w4 = core w" using idgen_run [OF i] w3 by simp_all
    let ?p = "\<lparr>pay_OrderNo = por_OrderNo req, pay_UserID = por_UserID req, pay_PayPlatform = por_PayPlatform req,
       pay_PlatformNumber = ''P'' @ i, pay_PlatformStatus = PayStatusCreated, pay_PayAmount = oi_FinalAmount oi, pay_PayTime = None\<rparr>"
    obtain c w5 where c: "run_state (mysqlRepo_CreatePayInfo ?p) w4 = (c, w5)" by fastforce
    have w5: "pay_infos w5 = pay_infos w" "core w5 = core w" "c \<noteq> Inr ()"
      using CreatePayInfo_existing [OF _ _ c, of p0] sql_first_Some [OF p0] w4 by simp_all
    then obtain e where e: "c = Inl e" by (cases c) auto
    show ?thesis
      using run2 g i c w3 w5 p0 unfolding pay_body_def e
      by (auto simp: run_bindE mysqlRepo_def mysqlRepo_GetPayInfoByOrderNo_def on_error_Inr Let_def pay_result_def
          pay_info_def split: if_splits prod.splits sum.splits elim!: bindE_Inr first_on_Inr)
  qed
  have "run_state (ExecTx (pay_body E (wired E T) req)) w = (Inr res, w')" using run by (simp add: PaySeckillOrder_def)
  then show ?thesis by (cases rule: ExecTx_cases) (auto dest!: body)
qed

definition pay_request0 :: PayOrderRequest where
  "pay_request0 = \<lparr>por_OrderNo = ''n1'', por_UserID = 21, por_PayPlatform = 1\<rparr>"

lemma pay0: "\<exists>res w'. run_state (PaySeckillOrder E0 (wired E0 topics0) pay_request0) pay_world = (Inr res, w')"
  by (simp add: PaySeckillOrder_def pay_body_def mysqlRepo_def mysqlRepo_CreatePayInfo_def
      mysqlRepo_GetPayInfoByOrderNo_def callback_run run_rules pay_sample pay_request0_def isOrderTimeout_def time_text_def
      unix_def second_def in_int64_def OrderTimeoutMinutes_def minute_def NewIDGenerator_def snowflake_NextString_def
      snowflake_NextID_def pay_clash_def pay_row_def Let_def)

theorem one_payment_per_order_witness:
  "\<exists>res w'. run_state (PaySeckillOrder E0 (wired E0 topics0) pay_request0) pay_world = (Inr res, w') \<and>
     pos_PlatformNumber res = ''P7''"
proof -
  have "sql_first (\<lambda>r. pir_OrderNo r = por_OrderNo pay_request0) (pay_infos pay_world) = Some payment0"
    by (simp add: pay_request0_def pay_world_def sql_first_def payment0_def)
  from one_payment_per_order [OF this] pay0 show ?thesis by (fastforce simp: payment0_def)
qed

section \<open>Where the two databases part\<close>

lemma commit_refused:
  "replies w = Refused d # rs \<Longrightarrow> run_state (commit_tx c) w = (Inl (Driver d), w\<lparr>replies := rs, core := c\<rparr>)"
  by (simp add: commit_tx_def)

lemma duplicate_callback:
  assumes "replies w = []" and sign: "pcr_Sign req = buildPayCallbackSign E req"
    and r: "sql_first (\<lambda>r. pir_PlatformNumber r = pcr_PlatformNumber req) (pay_infos w) = Some r"
    and "pir_OrderNo r = pcr_OrderNo req" "pir_PayAmount r = pcr_PayAmount req" "pir_PlatformStatus r = PayStatusSuccess"
  shows "run_state (HandlePayCallback E (wired E T) req) w = (Inr (callback_result ''duplicate callback ignored''), w)"
proof -
  note q = next_answered_quiet [OF assms(1)]
  have "run_state (mysqlRepo_GetPayInfoByPlatformNumber (pcr_PlatformNumber req)) w = (Inr (pay_info r), w)"
    by (simp add: mysqlRepo_GetPayInfoByPlatformNumber_def run_bindE run_on_error run_first [where table = pay_infos, OF q r])
  then have "run_state (callback_body (mysqlRepo E) req) w = (Inr (callback_result ''duplicate callback ignored''), w)"
    using assms(4-6) by (simp add: callback_body_def run_bindE mysqlRepo_def pay_info_def)
  then show ?thesis
    using sign assms(1) by (simp add: HandlePayCallback_def verifyPayCallbackSign_def run_ExecTx [OF assms(1)] run_commit)
qed

text \<open>C17: the payment row is written outside the order's transaction.  Take any signed SUCCESS callback for an
  unsettled payment of a pending order, whose calls are answered up to the commit, which is
  refused.  The caller gets the refusal as an error and the core database is as before, so the order is still pending,
  but the payment stands as SUCCESS; and when the platform repeats the callback, with every call answered,
  it is acknowledged as a duplicate, and nothing changes: the order is never paid by it.\<close>

theorem refused_commit_strands_payment:
  assumes sign: "pcr_Sign req = buildPayCallbackSign E req" and success: "pcr_PlatformStatus req = PayStatusSuccess"
    and r: "sql_first (\<lambda>r. pir_PlatformNumber r = pcr_PlatformNumber req) (pay_infos w) = Some r"
    and match: "matching_payment req r"
    and row: "sql_first (\<lambda>r. orw_OrderNo r = pcr_OrderNo req) (orders (core w)) = Some row" and st: "orw_Status row = 0"
    and refused: "replies w = [Answered, Answered, Answered, Answered, Answered, Refused d] @ rs"
  shows "\<exists>ps r'. run_state (HandlePayCallback E (wired E T) req) w = (Inl (Driver d), w\<lparr>replies := rs, pay_infos := ps\<rparr>) \<and>
     sql_first (\<lambda>r. pir_PlatformNumber r = pcr_PlatformNumber req) ps = Some r' \<and> pir_PlatformStatus r' = PayStatusSuccess \<and>
     (let w' = w\<lparr>replies := [], pay_infos := ps\<rparr>
      in run_state (HandlePayCallback E (wired E T) req) w' = (Inr (callback_result ''duplicate callback ignored''), w'))"
proof -
  let ?v = "\<lambda>n. w\<lparr>replies := replicate n Answered @ Refused d # rs\<rparr>"
  have calls: "next_answered (?v 4) (?v 3)" "next_answered (?v 3) (?v 2)" "next_answered (?v 2) (?v 1)" "next_answered (?v 1) (?v 0)"
    by (simp_all add: next_answered_def numeral_eq_Suc)
  obtain t1 t2 where body: "run_state (callback_body (mysqlRepo E) req) (?v 4) =
      (Inr (callback_result ''payment success''), put_pay_infos t2 (put_orders t1 (?v 0)))"
    and s: "settled_for req r row (put_pay_infos t2 (put_orders t1 (?v 0)))"
    by (rule callback_pays [OF calls success _ match _ st]) (use r row in simp_all)
  have "run_state (HandlePayCallback E (wired E T) req) w = (Inl (Driver d), w\<lparr>replies := rs, pay_infos := t2\<rparr>)"
    using sign refused body
    by (simp add: HandlePayCallback_def verifyPayCallbackSign_def wired_simps ExecTx_def begin_tx_def query_def run_call_answered
        commit_refused put_pay_infos_def put_orders_def numeral_eq_Suc)
  moreover obtain r' where r': "sql_first (\<lambda>r. pir_PlatformNumber r = pcr_PlatformNumber req) t2 = Some r'"
      "pir_PlatformStatus r' = PayStatusSuccess" "pir_PayAmount r' = pir_PayAmount r" "pir_OrderNo r' = pir_OrderNo r"
    using s st by (auto simp: settled_for_def settlement_def put_pay_infos_def)
  ultimately show ?thesis using match
    by (intro exI [of _ t2] exI [of _ r']) (simp add: duplicate_callback [OF _ sign] matching_payment_def Let_def)
qed

definition connection_reset :: driver_error where
  "connection_reset = NetError ''read: connection reset by peer'' False"

text \<open>The begin, the two reads and the two updates are answered; the commit is refused.\<close>

definition refused_commit :: world where
  "refused_commit = pay_world\<lparr>replies := [Answered, Answered, Answered, Answered, Answered, Refused connection_reset]\<rparr>"

abbreviation callback1_on :: "world \<Rightarrow> (error + PayCallbackResult) \<times> world" where
  "callback1_on w \<equiv> run_state (HandlePayCallback E0 (wired E0 topics0) (callback_request callback1)) w"

theorem refused_commit_strands_payment_witness:
  "\<exists>ps. callback1_on refused_commit = (Inl (Driver connection_reset), pay_world\<lparr>pay_infos := ps\<rparr>) \<and>
     callback1_on (pay_world\<lparr>pay_infos := ps\<rparr>) = (Inr (callback_result ''duplicate callback ignored''), pay_world\<lparr>pay_infos := ps\<rparr>) \<and>
     map orw_Status (orders (core pay_world)) = [0]"
proof -
  let ?req = "callback_request callback1"
  have 3: "sql_first (\<lambda>r. pir_PlatformNumber r = pcr_PlatformNumber ?req) (pay_infos refused_commit) = Some payment0"
    and 5: "sql_first (\<lambda>r. orw_OrderNo r = pcr_OrderNo ?req) (orders (core refused_commit)) = Some order_row0"
    and 7: "replies refused_commit = [Answered, Answered, Answered, Answered, Answered, Refused connection_reset] @ []"
    using callback1_facts(3,5) by (simp_all add: refused_commit_def)
  have w: "refused_commit\<lparr>replies := [], pay_infos := ps\<rparr> = pay_world\<lparr>pay_infos := ps\<rparr>" for ps
    by (simp add: refused_commit_def pay_sample)
  have "map orw_Status (orders (core pay_world)) = [0]" by (simp add: pay_sample)
  then show ?thesis
    using refused_commit_strands_payment [OF callback1_facts(1,2) 3 callback1_facts(4) 5 callback1_facts(6) 7, of topics0]
    unfolding w Let_def by (elim exE conjE) (intro exI conjI; assumption)
qed

end
