(* ===== verification/Reservation_Safety.thy ===== *)
theory Reservation_Safety
  imports Payment_Safety
begin

text \<open>
  The Redis reservation under concurrency.  Redis runs one script or command at a time, so any
  number of concurrent requests is some sequence of these commands; a \<open>session\<close> is such a
  sequence, on any SKUs, with replies lost or commands refused as the world's reply list says.
\<close>

section \<open>Sessions\<close>

datatype cache_op =
    Reserve u64 u64 u64 int
  | GiveBack u64 u64 int
  | Unmark u64 u64 u64
  | Elapse nat

text \<open>One command, and whether its caller was told that it reserved.\<close>

fun cache_step :: "cache_op \<Rightarrow> world \<Rightarrow> bool \<times> world" where
  "cache_step (Reserve a s u q) w = (case run_state (redisRepo_DeductStock a s u q) w of (r, w') \<Rightarrow> (r = Inr 1, w'))"
| "cache_step (GiveBack a s q) w = (case run_state (redisRepo_RollbackStock a s q) w of (r, w') \<Rightarrow> (False, w'))"
| "cache_step (Unmark a s u) w = (case run_state (redisRepo_RemoveUserBuy a s u) w of (r, w') \<Rightarrow> (False, w'))"
| "cache_step (Elapse d) w = (False, snd (run_state (Sleep (int d)) w))"

fun session :: "cache_op list \<Rightarrow> world \<Rightarrow> (cache_op \<times> bool) list \<times> world" where
  "session [] w = ([], w)"
| "session (c # cs) w = (case cache_step c w of (ok, w1) \<Rightarrow> (case session cs w1 of (entries, w') \<Rightarrow> ((c, ok) # entries, w')))"

text \<open>The quantity a log entry sold of a SKU, and the quantity a command may have given back.\<close>

fun sold_entry :: "u64 \<Rightarrow> u64 \<Rightarrow> cache_op \<times> bool \<Rightarrow> int" where
  "sold_entry a s (Reserve b t u q, ok) = (if ok \<and> b = a \<and> t = s then q else 0)"
| "sold_entry a s (c, ok) = 0"

fun returned :: "u64 \<Rightarrow> u64 \<Rightarrow> cache_op \<Rightarrow> int" where
  "returned a s (GiveBack b t q) = (if b = a \<and> t = s then q else 0)"
| "returned a s c = 0"

fun proper :: "cache_op \<Rightarrow> bool" where
  "proper (Reserve a s u q) = (0 \<le> q)"
| "proper (GiveBack a s q) = (0 \<le> q)"
| "proper c = True"

definition sold :: "u64 \<Rightarrow> u64 \<Rightarrow> (cache_op \<times> bool) list \<Rightarrow> int" where
  "sold a s entries = sum_list (map (sold_entry a s) entries)"

definition given_back :: "u64 \<Rightarrow> u64 \<Rightarrow> cache_op list \<Rightarrow> int" where
  "given_back a s cs = sum_list (map (returned a s) cs)"

section \<open>The stock key\<close>

text \<open>\<open>SetStock\<close> writes the stock without an expiry.\<close>

definition stock_is :: "u64 \<Rightarrow> u64 \<Rightarrow> int \<Rightarrow> world \<Rightarrow> bool" where
  "stock_is a s n w \<longleftrightarrow> map_of (keyspace w) (stock_key a s) = Some (RStr (SInt n), None)"

lemma key_rput [simp]: "map_of (keyspace (rput k' v e w)) k = (if k = k' then Some (v, e) else map_of (keyspace w) k)"
  by (simp add: rput_def update_conv')

lemma key_rdel [simp]: "map_of (keyspace (rdel k' w)) k = (if k = k' then None else map_of (keyspace w) k)"
  by (simp add: rdel_def delete_conv')

lemma stock_is_lookup: "stock_is a s n w \<Longrightarrow> rlookup (stock_key a s) w = Some (RStr (SInt n))"
  by (simp add: stock_is_def rlookup_def)

lemma key_rset [simp]:
  "map_of (keyspace (rset k' v w)) k = (if k = k' then Some (v, rexpiry k' w) else map_of (keyspace w) k)"
  by (simp add: rset_def)

lemma stock_expiry: "stock_is a s n w \<Longrightarrow> rexpiry (stock_key a s) w = None"
  by (simp add: stock_is_def rexpiry_def)

lemma stock_is_replies [simp]: "stock_is a s n (w\<lparr>replies := rs\<rparr>) = stock_is a s n w"
  by (simp add: stock_is_def)

text \<open>The script takes the quantity from its own SKU when it answers 1, and otherwise nothing.\<close>

lemma deduct_stock_step:
  assumes "stock_is a s n w" and "deduct_script (stock_key b t) (buy_key b t u) q 900 w = (r, w')"
  shows "stock_is a s (if r = Inr 1 \<and> b = a \<and> t = s then n - q else n) w' \<and> (r = Inr 1 \<and> b = a \<and> t = s \<longrightarrow> q \<le> n)"
  using assms(2)
proof (cases rule: deduct_script_cases [where uk = "buy_key b t u" and sk = "stock_key b t" and q = q and t = 900 and w = w])
  case (reserved m)
  have "b = a \<and> t = s \<longrightarrow> m = n" using reserved(2) stock_is_lookup [OF assms(1)] by auto
  then show ?thesis using reserved assms by (auto simp: stock_is_def stock_expiry)
qed (use assms in auto)

lemma incr_stock_step:
  assumes "stock_is a s n w" and "run_state (rdb_IncrBy (stock_key b t) q) w = (r, w')"
  shows "\<exists>m \<in> {n, n + (if b = a \<and> t = s then q else 0)}. stock_is a s m w'"
proof -
  let ?f = "\<lambda>w. case redis_num (stock_key b t) w of
       Inl e \<Rightarrow> (Inl e, w)
     | Inr n \<Rightarrow> if in_int64 (n + q) then (Inr (n + q), rset (stock_key b t) (RStr (SInt (n + q))) w)
               else (Inl (Driver (ServerError ''ERR increment or decrement would overflow'')), w)"
  have f: "\<exists>m \<in> {n, n + (if b = a \<and> t = s then q else 0)}. stock_is a s m (snd (?f w0))" if "stock_is a s n w0" for w0
  proof (cases "b = a \<and> t = s")
    case True
    then have "redis_num (stock_key b t) w0 = Inr n" using stock_is_lookup [OF that] by (simp add: redis_num_def)
    then show ?thesis using that True by (auto simp: stock_is_def stock_expiry [OF that])
  next
    case False
    then show ?thesis using that by (auto simp: stock_is_def split: sum.split)
  qed
  have run: "run_state (call ?f) w = (r, w')" using assms(2) by (simp add: rdb_IncrBy_def)
  have base: "stock_is a s n (w\<lparr>replies := rs\<rparr>)" for rs using assms(1) by simp
  from run show ?thesis
  proof (cases rule: call_cases)
    case (answered rs)
    then show ?thesis using f [OF base [of rs]] by (metis (no_types, lifting) snd_conv)
  next
    case (refused d rs)
    then show ?thesis using base by auto
  next
    case (lost d rs)
    then show ?thesis using f [OF base [of rs]] by simp
  qed
qed

lemma key_same:
  "k \<notin> set ks \<Longrightarrow> same (\<lambda>w. map_of (keyspace w) k) (del_keys ks)"
  "same (\<lambda>w. map_of (keyspace w) k) (Sleep d)"
proof -
  have "map_of (keyspace (fold rdel ks w)) k = map_of (keyspace w) k" if "k \<notin> set ks" for w ks
    using that by (induction ks arbitrary: w) auto
  then show "same (\<lambda>w. map_of (keyspace w) k) (del_keys ks)" if "k \<notin> set ks"
    unfolding del_keys_def rdb_Del_def using that by (intro frame; simp)
qed (intro frame; simp)

lemma stock_is_same: "same (\<lambda>w. map_of (keyspace w) (stock_key a s)) m \<Longrightarrow> run_state m w = (r, w') \<Longrightarrow>
    stock_is a s n w' = stock_is a s n w"
  unfolding stock_is_def by (drule (1) sameD) simp

lemma cache_step_stock:
  assumes st: "stock_is a s n w" and n: "0 \<le> n" and "proper c" and step: "cache_step c w = (ok, w')"
  shows "\<exists>m \<ge> 0. stock_is a s m w' \<and> m + sold_entry a s (c, ok) \<le> n + returned a s c"
proof (cases c)
  case (Reserve b t u q)
  obtain r where run: "run_state (call (deduct_script (stock_key b t) (buy_key b t u) q 900)) w = (r, w')"
    and ok: "ok \<longleftrightarrow> r = Inr 1"
    using step Reserve by (auto simp: redisRepo_DeductStock_def split: prod.splits)
  have st': "stock_is a s n (w\<lparr>replies := rs\<rparr>)" for rs using st by simp
  have q: "0 \<le> q" using assms(3) Reserve by simp
  from run show ?thesis
  proof (cases rule: call_cases)
    case (answered rs)
    then show ?thesis using deduct_stock_step [OF st' answered [symmetric]] n q ok Reserve
      by (cases "r = Inr 1 \<and> b = a \<and> t = s") (auto intro: exI [of _ "n - q"])
  next
    case (refused d rs)
    then show ?thesis using st' n ok Reserve by auto
  next
    case (lost d rs)
    obtain r' where run': "deduct_script (stock_key b t) (buy_key b t u) q 900 (w\<lparr>replies := rs\<rparr>) = (r', w')"
      using lost by (metis prod.collapse)
    show ?thesis using deduct_stock_step [OF st' run'] n q ok lost(1) Reserve
      by (cases "r' = Inr 1 \<and> b = a \<and> t = s") (auto intro: exI [of _ "n - q"])
  qed
next
  case (GiveBack b t q)
  then obtain r where run: "run_state (rdb_IncrBy (stock_key b t) q) w = (r, w')" and "\<not> ok" and "0 \<le> q"
    using step assms(3) by (auto simp: redisRepo_RollbackStock_def split: prod.splits sum.splits)
  then show ?thesis using incr_stock_step [OF st run] n GiveBack by (auto intro: exI [of _ "n + q"])
next
  case (Unmark b t u)
  then obtain r where run: "run_state (del_keys [buy_key b t u]) w = (r, w')" and "\<not> ok"
    using step by (auto simp: redisRepo_RemoveUserBuy_def split: prod.splits)
  then show ?thesis using stock_is_same [OF key_same(1) run, of a s n] st n Unmark by auto
next
  case (Elapse d)
  then show ?thesis using step st n by (auto simp: stock_is_def)
qed

lemma session_Cons:
  assumes "session (c # cs) w = (entries, w')"
  obtains ok w1 rest where "cache_step c w = (ok, w1)" and "session cs w1 = (rest, w')" and "entries = (c, ok) # rest"
  using assms by (auto split: prod.splits)

text \<open>C5: no oversell.  Whatever concurrent reservations, roll-backs, lost replies and delays there are, on this
  SKU and others, the Redis stock of a SKU never goes below zero, and the quantities that callers were
  told they had reserved never exceed what the stock was plus what was given back.\<close>

theorem no_oversell:
  assumes "stock_is a s n w" and "0 \<le> n" and "\<forall>c \<in> set cs. proper c" and "session cs w = (entries, w')"
  shows "\<exists>m \<ge> 0. stock_is a s m w' \<and> m + sold a s entries \<le> n + given_back a s cs"
  using assms
proof (induction cs arbitrary: w n entries)
  case Nil
  then show ?case by (auto simp: sold_def given_back_def)
next
  case (Cons c cs)
  obtain ok w1 rest where step: "cache_step c w = (ok, w1)" and rest: "session cs w1 = (rest, w')"
    and entries: "entries = (c, ok) # rest" using Cons.prems(4) by (rule session_Cons)
  obtain k where k: "0 \<le> k" "stock_is a s k w1" "k + sold_entry a s (c, ok) \<le> n + returned a s c"
    using cache_step_stock [OF Cons.prems(1,2) _ step] Cons.prems(3) by auto
  obtain m where "0 \<le> m" "stock_is a s m w'" "m + sold a s rest \<le> k + given_back a s cs"
    using Cons.IH [OF k(2,1) _ rest] Cons.prems(3) by auto
  then show ?case using k by (auto simp: entries sold_def given_back_def)
qed

definition cache_world :: world where
  "cache_world = w0\<lparr>keyspace := [(stock_key 3 7, RStr (SInt 2), None)]\<rparr>"

theorem no_oversell_witness:
  "\<exists>m \<ge> 0. stock_is 3 7 m (snd (session [Reserve 3 7 21 1, Reserve 3 7 22 1, Reserve 3 7 23 1, GiveBack 3 7 1] cache_world))"
proof -
  have "stock_is 3 7 2 cache_world" by (simp add: stock_is_def cache_world_def)
  from no_oversell [OF this, of "[Reserve 3 7 21 1, Reserve 3 7 22 1, Reserve 3 7 23 1, GiveBack 3 7 1]"] show ?thesis
    by (metis (no_types, lifting) eq_snd_iff list.set(1) list.set(2) empty_iff insert_iff proper.simps(1,2) zero_le_numeral zero_le_one)
qed

section \<open>One reservation per user\<close>

definition marked_until :: "u64 \<Rightarrow> u64 \<Rightarrow> u64 \<Rightarrow> Time \<Rightarrow> world \<Rightarrow> bool" where
  "marked_until a s u t w \<longleftrightarrow> (\<exists>v. map_of (keyspace w) (buy_key a s u) = Some (v, Some t))"

fun elapsed :: "cache_op \<Rightarrow> Time" where
  "elapsed (Elapse d) = int d"
| "elapsed c = 0"

fun grants :: "u64 \<Rightarrow> u64 \<Rightarrow> u64 \<Rightarrow> cache_op \<times> bool \<Rightarrow> bool" where
  "grants a s u (Reserve b t v q, ok) = (ok \<and> b = a \<and> t = s \<and> v = u)"
| "grants a s u (c, ok) = False"

lemma elapsed_nonneg: "0 \<le> elapsed c"
  by (cases c) simp_all

lemma cache_step_clock: "cache_step c w = (ok, w') \<Longrightarrow> clock w' = clock w + elapsed c"
proof (cases c)
  case (Reserve a s u q)
  have "same clock (redisRepo_DeductStock a s u q)" by (intro frame) simp
  moreover assume "cache_step c w = (ok, w')"
  ultimately show ?thesis using Reserve by (auto split: prod.splits dest: sameD)
next
  case (GiveBack a s q)
  have "same clock (redisRepo_RollbackStock a s q)" by (intro frame) simp
  moreover assume "cache_step c w = (ok, w')"
  ultimately show ?thesis using GiveBack by (auto split: prod.splits dest: sameD)
next
  case (Unmark a s u)
  have "same clock (redisRepo_RemoveUserBuy a s u)" by (intro frame) simp
  moreover assume "cache_step c w = (ok, w')"
  ultimately show ?thesis using Unmark by (auto split: prod.splits dest: sameD)
qed auto

lemma key_deduct:
  assumes "k \<noteq> stock_key b t" and "k \<noteq> buy_key b t v"
  shows "same (\<lambda>w. map_of (keyspace w) k) (redisRepo_DeductStock b t v q)"
  unfolding redisRepo_DeductStock_def deduct_script_def
  by (rule same_call) (use assms in \<open>simp_all split: option.split rval.split sval.split\<close>)

lemma key_incr: "k \<noteq> stock_key b t \<Longrightarrow> same (\<lambda>w. map_of (keyspace w) k) (redisRepo_RollbackStock b t q)"
  unfolding redisRepo_RollbackStock_def rdb_IncrBy_def by (intro frame) (simp_all split: sum.split)

lemma marked_same: "same (\<lambda>w. map_of (keyspace w) (buy_key a s u)) m \<Longrightarrow> run_state m w = (r, w') \<Longrightarrow>
    marked_until a s u t w' = marked_until a s u t w"
  unfolding marked_until_def by (drule (1) sameD) simp

text \<open>While a mark stands, no reservation of its user is granted and the mark stays.\<close>

lemma deduct_marked:
  assumes "rexists uk w"
  shows "run_state (call (deduct_script sk uk q t)) w = (r, w') \<Longrightarrow> r \<noteq> Inr 1 \<and> keyspace w' = keyspace w"
proof -
  have d: "deduct_script sk uk q t (w\<lparr>replies := rs\<rparr>) = (Inr (- 1), w\<lparr>replies := rs\<rparr>)" for rs
    using assms by (simp add: deduct_script_def)
  assume "run_state (call (deduct_script sk uk q t)) w = (r, w')"
  then show ?thesis by (cases rule: call_cases) (auto simp: d)
qed

lemma cache_step_marked:
  assumes mark: "marked_until a s u t w" and live: "clock w < t" and "c \<noteq> Unmark a s u"
    and step: "cache_step c w = (ok, w')"
  shows "marked_until a s u t w' \<and> \<not> grants a s u (c, ok)"
proof (cases c)
  case (Reserve b r v q)
  show ?thesis
  proof (cases "b = a \<and> r = s \<and> v = u")
    case True
    have "rexists (buy_key a s u) w" using mark live by (auto simp: marked_until_def rexists_def rlookup_def)
    then show ?thesis using step Reserve True mark
      by (auto simp: redisRepo_DeductStock_def marked_until_def split: prod.splits dest!: deduct_marked)
  next
    case False
    have "same (\<lambda>w. map_of (keyspace w) (buy_key a s u)) (redisRepo_DeductStock b r v q)"
      by (rule key_deduct) (use False in auto)
    then show ?thesis using step Reserve False mark by (auto split: prod.splits dest: marked_same)
  qed
next
  case (GiveBack b r q)
  have "same (\<lambda>w. map_of (keyspace w) (buy_key a s u)) (redisRepo_RollbackStock b r q)" by (rule key_incr) simp
  then show ?thesis using step GiveBack mark by (auto split: prod.splits dest: marked_same)
next
  case (Unmark b r v)
  have "same (\<lambda>w. map_of (keyspace w) (buy_key a s u)) (redisRepo_RemoveUserBuy b r v)"
    unfolding redisRepo_RemoveUserBuy_def by (rule key_same) (use Unmark assms(3) in auto)
  then show ?thesis using step Unmark mark by (auto split: prod.splits dest: marked_same)
next
  case (Elapse d)
  then show ?thesis using step mark by (auto simp: marked_until_def)
qed

lemma session_marked:
  assumes "marked_until a s u t w" and "clock w + sum_list (map elapsed cs) < t" and "Unmark a s u \<notin> set cs"
    and "session cs w = (entries, w')"
  shows "filter (grants a s u) entries = []"
  using assms
proof (induction cs arbitrary: w entries)
  case (Cons c cs)
  obtain ok w1 rest where step: "cache_step c w = (ok, w1)" and rest: "session cs w1 = (rest, w')"
    and entries: "entries = (c, ok) # rest" using Cons.prems(4) by (rule session_Cons)
  have nn: "0 \<le> sum_list (map elapsed cs)" by (rule sum_list_nonneg) (auto simp: elapsed_nonneg)
  then have "clock w < t" using Cons.prems(2) elapsed_nonneg [of c] by simp
  then have m: "marked_until a s u t w1 \<and> \<not> grants a s u (c, ok)"
    using cache_step_marked [OF Cons.prems(1) _ _ step] Cons.prems(3) by auto
  have "filter (grants a s u) rest = []"
    by (rule Cons.IH [OF _ _ _ rest]) (use m Cons.prems(2,3) cache_step_clock [OF step] in simp_all)
  then show ?case using m entries by simp
qed simp

text \<open>C6: within the fifteen minutes of a mark, and without a roll-back that removes it, at most one of any number
  of concurrent reservations of one user for one SKU is granted.\<close>

theorem one_reservation_per_user:
  assumes "Unmark a s u \<notin> set cs" and "sum_list (map elapsed cs) < 900 * second" and "session cs w = (entries, w')"
  shows "length (filter (grants a s u) entries) \<le> 1"
  using assms
proof (induction cs arbitrary: w entries)
  case (Cons c cs)
  obtain ok w1 rest where step: "cache_step c w = (ok, w1)" and rest: "session cs w1 = (rest, w')"
    and entries: "entries = (c, ok) # rest" using Cons.prems(3) by (rule session_Cons)
  show ?case
  proof (cases "grants a s u (c, ok)")
    case True
    then obtain q where c: "c = Reserve a s u q" and ok by (cases c) auto
    then have "run_state (redisRepo_DeductStock a s u q) w = (Inr 1, w1)" using step by (auto split: prod.splits)
    then obtain rs where "deduct_script (stock_key a s) (buy_key a s u) q 900 (w\<lparr>replies := rs\<rparr>) = (Inr 1, w1)"
      unfolding redisRepo_DeductStock_def by (rule call_Inr)
    then have "marked_until a s u (clock w + 900 * second) w1"
      by (cases rule: deduct_script_cases [where uk = "buy_key a s u" and sk = "stock_key a s" and q = q and t = 900
          and w = "w\<lparr>replies := rs\<rparr>"]) (auto simp: marked_until_def)
    then have "filter (grants a s u) rest = []"
      by (rule session_marked [OF _ _ _ rest]) (use Cons.prems(1,2) cache_step_clock [OF step] c in simp_all)
    then show ?thesis using entries by simp
  next
    case False
    then show ?thesis using Cons.IH [OF _ _ rest] Cons.prems(1,2) elapsed_nonneg [of c] entries by simp
  qed
qed simp

theorem one_reservation_per_user_witness:
  "length (filter (grants 3 7 21) (fst (session [Reserve 3 7 21 1, Reserve 3 7 21 1, Elapse 5] cache_world))) \<le> 1"
  by (rule one_reservation_per_user [OF _ _ surjective_pairing]) (simp_all add: second_def)

end
