(* ===== verification/Submission_Safety.thy ===== *)
theory Submission_Safety
  imports Reservation_Safety
begin

text \<open>
  \<open>CreateSeckillOrder\<close> as a whole: what a submission that is accepted has done, what one that
  fails to send has undone, and the arithmetic of its amounts.
\<close>

section \<open>Amounts\<close>

text \<open>C19: for a cash coupon, and for a discount coupon of at most 100 percent on an amount whose
  hundredfold is a 64-bit number, the discount does not exceed the order's amount and the coupon's threshold is met.  A cash
  coupon takes its value or the whole amount, a discount coupon takes the rest of the percentage.\<close>

theorem coupon_discount_bounds:
  assumes "coupon_discount c amount = Inr d" and "ucp_Type c = 2 \<longrightarrow> ucp_Value c \<le> 100 \<and> uint amount * 100 < 2 ^ 64"
  shows "d \<le> amount \<and> ucp_MinAmount c \<le> amount \<and>
     uint d = (if ucp_Type c = 1 then min (uint amount) (uint (ucp_Value c))
               else uint amount * (100 - uint (ucp_Value c)) div 100)"
proof (cases "ucp_Type c = 1")
  case True
  then show ?thesis using assms(1)
    by (auto simp: coupon_discount_def word_less_def word_le_def split: if_splits)
next
  case False
  then have ty: "ucp_Type c = 2" and min: "ucp_MinAmount c \<le> amount"
    and d: "d = amount * (100 - ucp_Value c) div 100"
    using assms(1) by (auto simp: coupon_discount_def split: if_splits)
  have v: "ucp_Value c \<le> 100" and a: "uint amount * 100 < 2 ^ 64" using assms(2) ty by auto
  have sub: "uint (100 - ucp_Value c) = 100 - uint (ucp_Value c)" using v by (simp add: uint_minus_simple_alt)
  have nn: "0 \<le> uint (ucp_Value c)" "0 \<le> uint amount" by simp_all
  have "uint amount * (100 - uint (ucp_Value c)) \<le> uint amount * 100"
    by (rule mult_left_mono) (use nn in simp_all)
  then have lt: "uint amount * (100 - uint (ucp_Value c)) < 2 ^ 64" using a by linarith
  have v': "uint (ucp_Value c) \<le> 100" using v by (simp add: word_le_def)
  have m: "uint (amount * (100 - ucp_Value c)) = uint amount * (100 - uint (ucp_Value c))"
  proof -
    have "uint amount * uint (100 - ucp_Value c) < 2 ^ LENGTH(64)" using lt sub by simp
    then show ?thesis unfolding uint_mult_lem by (simp add: sub)
  qed
  have ud: "uint d = uint amount * (100 - uint (ucp_Value c)) div 100"
    by (simp add: d uint_div m)
  have "uint amount * (100 - uint (ucp_Value c)) div 100 \<le> uint amount * 100 div 100"
    by (rule zdiv_mono1) (use \<open>uint amount * (100 - uint (ucp_Value c)) \<le> uint amount * 100\<close> in simp_all)
  then have "d \<le> amount" using ud by (simp add: word_le_def)
  then show ?thesis using ty min ud by simp
qed

definition coupon0 :: UserCoupon where
  "coupon0 = \<lparr>ucp_ID = 5, ucp_UserID = 21, ucp_CouponID = 2, ucp_Name = [], ucp_Type = 2, ucp_Value = 80, ucp_MinAmount = 100,
     ucp_Scene = [], ucp_SourceType = [], ucp_SourceID = [], ucp_IdempotencyKey = [], ucp_Status = 1,
     ucp_ReceivedTime = [], ucp_UsedTime = [], ucp_ExpireTime = [], ucp_Version = 0\<rparr>"

theorem coupon_discount_bounds_witness:
  "coupon_discount coupon0 1000 = Inr 200 \<and> (200 :: u64) \<le> 1000"
proof -
  have "coupon_discount coupon0 1000 = Inr 200" by (simp add: coupon_discount_def coupon0_def)
  with coupon_discount_bounds [OF this] show ?thesis by (simp add: coupon0_def)
qed

text \<open>Beyond a hundred percent the subtraction wraps: 101 percent off an amount of 1000 is a discount of more than
  10 to the 17.\<close>

lemma coupon_discount_wraps:
  "ucp_Type c = 2 \<Longrightarrow> ucp_Value c = 101 \<Longrightarrow> ucp_MinAmount c \<le> 1000 \<Longrightarrow> coupon_discount c 1000 = Inr 184467440737095506"
  by (auto simp: coupon_discount_def not_less [symmetric])

section \<open>A failed send\<close>

lemma give_back_same:
  assumes "k \<noteq> coupon_key c"
  shows "same (\<lambda>w. (map_of (keyspace w) k, clock w, kafka_log w)) (give_back_coupon (wired E T) c)"
proof -
  have "same (\<lambda>w. (map_of (keyspace w) k, clock w, kafka_log w)) (repo_RestoreUserCoupon (mysqlRepo E) c)"
    by (simp add: mysqlRepo_def mysqlRepo_RestoreUserCoupon_def) (intro frame; simp add: put_user_coupons_def)
  moreover have "same (\<lambda>w. (map_of (keyspace w) k, clock w, kafka_log w)) (cache_DeleteCoupon (redisRepo E) c)"
    by (simp add: redisRepo_def redisRepo_DeleteCoupon_def)
      (intro same_pair key_same neutral_del_keys redis_neutral_fields; simp add: assms)
  ultimately show ?thesis unfolding give_back_coupon_def wired_simps by (intro frame)
qed

lemma keys_differ:
  "stock_key a s \<noteq> coupon_key c" "buy_key a s u \<noteq> coupon_key c" "pendingReservationKey r \<noteq> coupon_key c"
  "stock_key a s \<noteq> pendingReservationKey r" "buy_key a s u \<noteq> pendingReservationKey r"
  by (simp_all add: key_defs)

lemma SendMessage_refused: "replies w = Refused d # rs \<Longrightarrow>
    run_state (Send E T msg) w = (Inl (Driver d), w\<lparr>replies := rs\<rparr>)"
  by (simp add: Send_def SendEvent_def SendMessage_def run_call_answered Let_def)

lemma del_run: "replies w = [] \<Longrightarrow> run_state (del_keys [k]) w = (Inr (), rdel k w)"
  by (simp add: del_keys_def rdb_Del_def run_call_quiet)

lemma incr_run:
  assumes "replies w = []" and "stock_is a s n w" and "in_int64 (n + q)"
  shows "run_state (redisRepo_RollbackStock a s q) w = (Inr (), rset (stock_key a s) (RStr (SInt (n + q))) w)"
  using assms stock_is_lookup [OF assms(2)]
  by (simp add: redisRepo_RollbackStock_def rdb_IncrBy_def run_call_quiet redis_num_def)

text \<open>C18: when Kafka refuses a submission's message and Redis answers, the submission fails with Kafka's error and
  the reservation is taken back as a whole: the stock is up by the quantity, the user's mark and the pending
  record are gone, and no message is in the log.\<close>

theorem failed_send_rolls_back:
  assumes "replies w = [Answered, Refused d]" and st: "stock_is (cor_ActivityID req) (cor_SkuID req) n w"
    and "in_int64 (n + cor_Quantity req)"
    and run: "run_state (send_order (wired E T) req msg) w = (r, w')"
  shows "r = Inl (Driver d) \<and> stock_is (cor_ActivityID req) (cor_SkuID req) (n + cor_Quantity req) w' \<and>
     \<not> bought (cor_ActivityID req) (cor_SkuID req) (cor_UserID req) w' \<and>
     rlookup (pendingReservationKey (msg_RequestID msg)) w' = None \<and> kafka_log w' = kafka_log w"
proof -
  let ?a = "cor_ActivityID req" and ?s = "cor_SkuID req" and ?u = "cor_UserID req" and ?q = "cor_Quantity req"
  let ?pk = "pendingReservationKey (msg_RequestID msg)"
  let ?p = "pending_of msg (unix (clock w))"
  define w1 where "w1 = rput ?pk (RStr (SJson (DPending ?p))) (Some (clock w + 1200 * second)) (w\<lparr>replies := []\<rparr>)"
  have rs: "replies (rput k v e w0) = replies w0" for k v e w0 by simp
  have pend: "run_state (redisRepo_SetPendingReservation ?p (20 * minute)) w =
      (Inr (), rput ?pk (RStr (SJson (DPending ?p))) (Some (clock w + 1200 * second)) (w\<lparr>replies := [Refused d]\<rparr>))"
    using assms(1) by (simp add: redisRepo_SetPendingReservation_def rdb_SetEX_def run_call_answered pending_of_def
        expire_seconds_def minute_def second_def)
  have send: "run_state (Send E T msg) (rput ?pk (RStr (SJson (DPending ?p))) (Some (clock w + 1200 * second)) (w\<lparr>replies := [Refused d]\<rparr>))
      = (Inl (Driver d), w1)"
    by (simp add: SendMessage_refused w1_def rput_def)
  define w2 where "w2 = rdel ?pk w1"
  define w3 where "w3 = rset (stock_key ?a ?s) (RStr (SInt (n + ?q))) w2"
  define w4 where "w4 = rdel (buy_key ?a ?s ?u) w3"
  have q: "replies w1 = []" "replies w2 = []" "replies w3 = []" by (simp_all add: w1_def w2_def w3_def)
  have st2: "stock_is ?a ?s n w2" using st by (simp add: w2_def w1_def stock_is_def keys_differ)
  have run4: "run_state (send_order (wired E T) req msg) w =
      (case run_state (give_back_coupon (wired E T) (cor_CouponID req)) w4 of (_, w5) \<Rightarrow> (Inl (Driver d), w5))"
    using pend send del_run [OF q(1)] incr_run [OF q(2) st2 assms(3)] del_run [OF q(3)]
    by (simp add: send_order_def redisRepo_def producer_def redisRepo_DeletePendingReservation_def
        redisRepo_RemoveUserBuy_def w2_def w3_def w4_def)
  then have r: "r = Inl (Driver d)" and gb: "run_state (give_back_coupon (wired E T) (cor_CouponID req)) w4 = ((), w')"
    using run by (auto split: prod.splits)
  have keep: "map_of (keyspace w') k = map_of (keyspace w4) k" "clock w' = clock w4" "kafka_log w' = kafka_log w4"
    if "k \<noteq> coupon_key (cor_CouponID req)" for k
    using sameD [OF give_back_same [OF that] gb] by simp_all
  have look: "rlookup k w' = rlookup k w4" if "k \<noteq> coupon_key (cor_CouponID req)" for k
    by (simp only: rlookup_def keep [OF that])
  have "stock_is ?a ?s (n + ?q) w'"
    using keep(1) [of "stock_key ?a ?s"] stock_expiry [OF st2] by (simp add: stock_is_def w4_def w3_def keys_differ)
  moreover have "\<not> bought ?a ?s ?u w'" using look [of "buy_key ?a ?s ?u"] by (simp add: bought_def rexists_def w4_def keys_differ)
  moreover have "rlookup ?pk w' = None" using look [of ?pk] keys_differ(4,5) [symmetric]
    by (simp add: w4_def w3_def w2_def keys_differ)
  moreover have "kafka_log w' = kafka_log w" using keep(3) [of ?pk] by (simp add: keys_differ w4_def w3_def w2_def w1_def)
  ultimately show ?thesis using r by simp
qed

definition submit0 :: CreateOrderRequest where
  "submit0 = \<lparr>cor_UserID = 21, cor_SkuID = 7, cor_ActivityID = 3, cor_ProductID = 5, cor_Quantity = 1, cor_CouponID = 0,
     cor_AddressID = 11, cor_ClientIP = [], cor_RequestID = ''r1''\<rparr>"

definition failing_world :: world where
  "failing_world = cache_world\<lparr>keyspace := [(stock_key 3 7, RStr (SInt 1), None), (buy_key 3 7 21, RStr (SInt 1), Some hour)],
     replies := [Answered, Refused connection_reset]\<rparr>"

theorem failed_send_rolls_back_witness:
  "stock_is 3 7 2 (snd (run_state (send_order (wired E0 topics0) submit0 msg0) failing_world)) \<and>
     bought 3 7 21 failing_world \<and> \<not> bought 3 7 21 (snd (run_state (send_order (wired E0 topics0) submit0 msg0) failing_world))"
proof -
  have 1: "replies failing_world = [Answered, Refused connection_reset]" by (simp add: failing_world_def)
  have 2: "stock_is (cor_ActivityID submit0) (cor_SkuID submit0) 1 failing_world"
    by (simp add: failing_world_def submit0_def stock_is_def)
  have 3: "in_int64 (1 + cor_Quantity submit0)" by (simp add: submit0_def in_int64_def)
  have "bought 3 7 21 failing_world"
    by (simp add: bought_def rexists_def rlookup_def failing_world_def cache_world_def w0_def second_def hour_def)
  then show ?thesis using failed_send_rolls_back [OF 1 2 3 surjective_pairing, of E0 topics0 msg0]
    by (simp add: submit0_def)
qed

section \<open>An accepted submission\<close>

abbreviation silent :: "(world, 'a) state \<Rightarrow> bool" where
  "silent m \<equiv> same kafka_log m"

lemma silent_repo:
  "silent (repo_GetCurrentActivity (mysqlRepo E))" "silent (repo_GetSeckillProductDetail (mysqlRepo E) p a)"
  "silent (repo_CheckUserBuyRecord (mysqlRepo E) u a)" "silent (repo_GetUserCouponForUse (mysqlRepo E) c u)"
  "silent (repo_UseUserCoupon (mysqlRepo E) c)" "silent (repo_RestoreUserCoupon (mysqlRepo E) c)"
  unfolding mysqlRepo_def SeckillRepo.select_convs mysqlRepo_GetCurrentActivity_def mysqlRepo_GetSeckillProductDetail_def
    mysqlRepo_CheckUserBuyRecord_def mysqlRepo_GetUserCouponForUse_def mysqlRepo_UseUserCoupon_def
    mysqlRepo_RestoreUserCoupon_def first_user_coupon_def preload_coupon_def Let_def
  by (intro frame; simp add: put_user_coupons_def)+

lemma silent_cache:
  "silent (rdb_Get k)" "silent (rdb_SetEX k v t)" "silent (redisRepo_GetProductDetail p c)"
  "silent (redisRepo_SetProductDetail E p c dt t)" "silent (redisRepo_BloomExists E c p)"
  "silent (redisRepo_DeductStock c s u n)" "silent (redisRepo_RollbackStock c s n)" "silent (redisRepo_CheckUserBuy c s u)"
  "silent (redisRepo_MarkUserBuy c s u ttl)" "silent (redisRepo_RemoveUserBuy c s u)"
  "silent (redisRepo_DeleteCoupon c)" "silent (redisRepo_SetPendingReservation r t)"
  "silent (redisRepo_DeletePendingReservation key)" "silent (redisRepo_AcquireLock key tok t)"
  "silent (redisRepo_ReleaseLock key tok)" "silent (NewString E)" "silent (CheckAndMark key t)"
  "silent (UserRateLimit E u m b d)" "silent (GlobalRateLimit E m b d)" "silent (ActivityRateLimit E c m b d)"
  "silent (Sleep d)"
  by (intro frame; simp)+

lemma silent_idgen: "silent (idgen_NextString (NewIDGenerator E))"
  unfolding NewIDGenerator_def snowflake_NextString_def snowflake_NextID_def IDGenerator.select_convs
  by (intro frame) simp

lemmas silent_parts = silent_repo silent_cache silent_idgen redisRepo_def rateLimiter_def idempotentChecker_def

lemma silent_detail: "silent (getProductDetailWithMutex E (wired E T) n p a)"
proof (induction n)
  case (Suc n)
  show ?case unfolding getProductDetailWithMutex.simps fillProductDetail_def
    by (intro frame Suc.IH; simp add: silent_parts)
qed (simp, intro frame)

lemma silent_activity: "silent (getActivityFromCacheWithMutex E (wired E T) n)"
proof (induction n)
  case (Suc n)
  show ?case unfolding getActivityFromCacheWithMutex.simps fillActivity_def repo_activity_def
    by (intro frame Suc.IH; simp add: silent_parts)
qed (simp, intro frame)

lemma silent_steps:
  "silent (create_guards E (wired E T) n req)" "silent (not_bought (wired E T) req)"
  "silent (applyCoupon (wired E T) c u amount)" "silent (reserve (wired E T) req)"
  "silent (give_back_coupon (wired E T) c)"
  unfolding create_guards_def not_bought_def applyCoupon_def reserve_def give_back_coupon_def
  by (intro frame silent_activity; simp add: silent_parts)+

text \<open>The request of a submission in the message it sends, and its answer in the message.\<close>

definition carries :: "CreateOrderRequest \<Rightarrow> SeckillOrderMessage \<Rightarrow> bool" where
  "carries req msg \<longleftrightarrow> msg_UserID msg = cor_UserID req \<and> msg_SkuID msg = cor_SkuID req \<and>
     msg_ActivityID msg = cor_ActivityID req \<and> msg_ProductID msg = cor_ProductID req \<and>
     msg_Quantity msg = cor_Quantity req \<and> msg_AddressID msg = cor_AddressID req \<and>
     msg_CouponID msg = cor_CouponID req \<and> msg_RequestID msg = cor_RequestID req \<and> msg_RetryCount msg = 0 \<and>
     msg_OrderAmount msg = msg_SeckillPrice msg * u64_of (cor_Quantity req) \<and>
     msg_FinalAmount msg + msg_CouponDiscount msg = msg_OrderAmount msg"

definition answers :: "SeckillOrderMessage \<Rightarrow> CreateOrderResult \<Rightarrow> bool" where
  "answers msg res \<longleftrightarrow> crs_OrderNo res = msg_OrderNo msg \<and> crs_OrderAmount res = msg_OrderAmount msg \<and>
     crs_CouponDiscount res = msg_CouponDiscount msg \<and> crs_FinalAmount res = msg_FinalAmount msg \<and>
     crs_SeckillPrice res = msg_SeckillPrice msg \<and> crs_Quantity res = msg_Quantity msg \<and> crs_Status res = OrderStatusPending"

lemma applyCoupon_amounts:
  assumes "run_state (applyCoupon uc c u amount) w = (Inr (final, discount), w')"
  shows "final + discount = amount"
  using assms by (auto simp: applyCoupon_def split: if_splits elim!: bindE_Inr)

text \<open>What keeps a mark: anything that leaves its key and the clock, and setting it again.\<close>

lemma bought_cong:
  "map_of (keyspace w') (buy_key a s u) = map_of (keyspace w) (buy_key a s u) \<Longrightarrow> clock w' = clock w \<Longrightarrow>
     bought a s u w' = bought a s u w"
  by (simp only: bought_def rexists_def rlookup_def)

lemma same_mark:
  assumes "same (\<lambda>w. (map_of (keyspace w) (buy_key a s u), clock w)) m" and "run_state m w = (r, w')"
  shows "bought a s u w' = bought a s u w"
  by (rule bought_cong) (use sameD [OF assms] in simp_all)

lemma mark_again:
  assumes "bought a s u w" and "run_state (redisRepo_MarkUserBuy a s u 3600) w = (r, w')"
  shows "bought a s u w'"
proof -
  let ?k = "buy_key a s u"
  have "run_state (call (\<lambda>w. (Inr (), rput ?k (RStr (SInt 1)) (Some (clock w + 3600 * second)) w))) w = (r, w')"
    using assms(2) by (simp add: redisRepo_MarkUserBuy_def rdb_SetEX_def expire_seconds_def second_def)
  then show ?thesis
    by (cases rule: call_cases) (use assms(1) in \<open>auto simp: bought_def\<close>)
qed

lemma send_order_accepted:
  assumes run: "run_state (send_order (wired E T) req msg) w = (Inr res, w')"
    and mark: "bought (cor_ActivityID req) (cor_SkuID req) (cor_UserID req) w" and "msg_Quantity msg = cor_Quantity req"
  shows "(\<exists>hs. kafka_log w' = kafka_log w @ [\<lparr>pm_Topic = tn_SeckillOrder T, pm_Key = msg_OrderNo msg,
       pm_Value = order_value (msg\<lparr>msg_TraceID := trace_id E\<rparr>), pm_Headers = hs\<rparr>]) \<and> answers msg res \<and>
     bought (cor_ActivityID req) (cor_SkuID req) (cor_UserID req) w'"
proof -
  let ?b = "\<lambda>w. (map_of (keyspace w) (buy_key (cor_ActivityID req) (cor_SkuID req) (cor_UserID req)), clock w)"
  obtain x w1 where p: "run_state (redisRepo_SetPendingReservation (pending_of msg (unix (clock w))) (20 * minute)) w = (x, w1)"
    by fastforce
  obtain y w2 where s: "run_state (Send E T msg) w1 = (y, w2)" by fastforce
  have y: "y = Inr ()" using run p s by (cases y) (auto simp: send_order_def redisRepo_def producer_def split: prod.splits)
  obtain z where m: "run_state (redisRepo_MarkUserBuy (cor_ActivityID req) (cor_SkuID req) (cor_UserID req) 3600) w2 = (z, w')"
    and res: "answers msg res"
    using run p s y assms(3) by (auto simp: send_order_def redisRepo_def producer_def answers_def split: prod.splits)
  obtain rs hs where w2: "w2 = w1\<lparr>replies := rs, kafka_log := kafka_log w1 @ [\<lparr>pm_Topic = tn_SeckillOrder T,
      pm_Key = msg_OrderNo msg, pm_Value = order_value (msg\<lparr>msg_TraceID := trace_id E\<rparr>), pm_Headers = hs\<rparr>]\<rparr>"
    using s y unfolding Send_def SendEvent_def SendMessage_def Let_def by (auto elim!: call_Inr)
  have "same ?b (redisRepo_SetPendingReservation (pending_of msg (unix (clock w))) (20 * minute))"
    unfolding redisRepo_SetPendingReservation_def rdb_SetEX_def
    by (rule same_call) (simp_all add: keys_differ(5) [symmetric] pending_of_def)
  then have b1: "bought (cor_ActivityID req) (cor_SkuID req) (cor_UserID req) w1" using same_mark [OF _ p] mark by blast
  have k1: "kafka_log w1 = kafka_log w" by (rule sameD [OF silent_cache(12) p])
  have k2: "kafka_log w' = kafka_log w2" by (rule sameD [OF silent_cache(9) m])
  have "bought (cor_ActivityID req) (cor_SkuID req) (cor_UserID req) w2"
    using b1 bought_cong [of w2 _ _ _ w1] by (simp add: w2)
  then have "bought (cor_ActivityID req) (cor_SkuID req) (cor_UserID req) w'" using mark_again m by blast
  then show ?thesis using k1 k2 w2 res by auto
qed

lemma reserve_marks:
  assumes "run_state (reserve (wired E T) req) w = (Inr (), w')"
  shows "bought (cor_ActivityID req) (cor_SkuID req) (cor_UserID req) w'"
proof -
  have "run_state (redisRepo_DeductStock (cor_ActivityID req) (cor_SkuID req) (cor_UserID req) (cor_Quantity req)) w = (Inr 1, w')"
    using assms by (auto simp: reserve_def redisRepo_def split: prod.splits sum.splits if_splits)
  then show ?thesis using DeductStock_1 by blast
qed

lemma idgen_frame: "same (\<lambda>w. (map_of (keyspace w) k, clock w)) (idgen_NextString (NewIDGenerator E))"
  unfolding NewIDGenerator_def snowflake_NextString_def snowflake_NextID_def IDGenerator.select_convs
  by (intro frame) simp

text \<open>The calls of a submission that is accepted.\<close>

lemma create_steps:
  assumes "run_state (CreateSeckillOrder E uc fuel req) w = (Inr res, w')"
  obtains info final discount w1 w2 w3 w4 w5 where
    "run_state (create_guards E uc fuel req) w = (Inr (), w1)"
    and "run_state (getProductDetailWithMutex E uc fuel (cor_ProductID req) (cor_ActivityID req)) w1 = (Inr info, w2)"
    and "cor_Quantity req \<le> pd_LimitNum info"
    and "run_state (not_bought uc req) w2 = (Inr (), w3)"
    and "run_state (applyCoupon uc (cor_CouponID req) (cor_UserID req) (pd_SeckillPrice info * u64_of (cor_Quantity req))) w3
      = (Inr (final, discount), w4)"
    and "run_state (reserve uc req) w4 = (Inr (), w5)"
    and "run_state (do {
         orderNo \<leftarrow> idgen_NextString (uc_IDGen uc);
         now \<leftarrow> Now;
         eventID \<leftarrow> idgen_NextString (uc_IDGen uc);
         send_order uc req (order_message E req info (pd_SeckillPrice info * u64_of (cor_Quantity req)) discount final
           now orderNo eventID) }) w5 = (Inr res, w')"
  using assms unfolding CreateSeckillOrder_def Let_def
  by (elim bindE_Inr) (auto elim!: bindE_Inr split: if_splits prod.splits)

text \<open>C7: a submission that is accepted has put exactly one message on the order topic, carrying the request and
  the order number of the answer; its amount is price times quantity and discount and final amount make up
  the amount; and the user is marked in Redis.\<close>

theorem accepted_submission:
  assumes "run_state (CreateSeckillOrder E (wired E T) fuel req) w = (Inr res, w')"
  shows "(\<exists>msg hs. carries req msg \<and> answers msg res \<and>
     kafka_log w' = kafka_log w @ [\<lparr>pm_Topic = tn_SeckillOrder T, pm_Key = msg_OrderNo msg,
       pm_Value = order_value msg, pm_Headers = hs\<rparr>]) \<and>
     bought (cor_ActivityID req) (cor_SkuID req) (cor_UserID req) w'"
proof -
  obtain info final discount w1 w2 w3 w4 w5 where g: "run_state (create_guards E (wired E T) fuel req) w = (Inr (), w1)"
    and i: "run_state (getProductDetailWithMutex E (wired E T) fuel (cor_ProductID req) (cor_ActivityID req)) w1 = (Inr info, w2)"
    and n: "run_state (not_bought (wired E T) req) w2 = (Inr (), w3)"
    and c: "run_state (applyCoupon (wired E T) (cor_CouponID req) (cor_UserID req)
       (pd_SeckillPrice info * u64_of (cor_Quantity req))) w3 = (Inr (final, discount), w4)"
    and v: "run_state (reserve (wired E T) req) w4 = (Inr (), w5)"
    and r3: "run_state (do {
         orderNo \<leftarrow> idgen_NextString (uc_IDGen (wired E T));
         now \<leftarrow> Now;
         eventID \<leftarrow> idgen_NextString (uc_IDGen (wired E T));
         send_order (wired E T) req (order_message E req info (pd_SeckillPrice info * u64_of (cor_Quantity req)) discount final
           now orderNo eventID) }) w5 = (Inr res, w')"
    using assms by (rule create_steps)
  let ?amount = "pd_SeckillPrice info * u64_of (cor_Quantity req)"
  obtain n1 w6 where id1: "run_state (idgen_NextString (NewIDGenerator E)) w5 = (n1, w6)" by fastforce
  obtain n2 w7 where id2: "run_state (idgen_NextString (NewIDGenerator E)) w6 = (n2, w7)" by fastforce
  let ?msg = "order_message E req info ?amount discount final (clock w6) n1 n2"
  have s: "run_state (send_order (wired E T) req ?msg) w7 = (Inr res, w')" using r3 id1 id2 by simp
  have "bought (cor_ActivityID req) (cor_SkuID req) (cor_UserID req) w7"
    using reserve_marks [OF v] same_mark [OF idgen_frame id1] same_mark [OF idgen_frame id2] by blast
  from send_order_accepted [OF s this] obtain hs where
    k: "kafka_log w' = kafka_log w7 @ [\<lparr>pm_Topic = tn_SeckillOrder T, pm_Key = msg_OrderNo ?msg,
       pm_Value = order_value (?msg\<lparr>msg_TraceID := trace_id E\<rparr>), pm_Headers = hs\<rparr>]"
    and a: "answers ?msg res" and b: "bought (cor_ActivityID req) (cor_SkuID req) (cor_UserID req) w'"
    by (auto simp: order_message_def)
  have "kafka_log w7 = kafka_log w"
    using sameD [OF silent_steps(1) g] sameD [OF silent_detail i] sameD [OF silent_steps(2) n] sameD [OF silent_steps(3) c]
      sameD [OF silent_steps(4) v] sameD [OF silent_idgen id1] sameD [OF silent_idgen id2] by simp
  moreover have "?msg\<lparr>msg_TraceID := trace_id E\<rparr> = ?msg" by (simp add: order_message_def)
  moreover have "carries req ?msg" using applyCoupon_amounts [OF c] by (simp add: carries_def order_message_def)
  ultimately show ?thesis using k a b by auto
qed

text \<open>A submission on a warm cache, step by step.\<close>

definition activity1 :: Activity where
  "activity1 = \<lparr>act_ID = 3, act_Title = ''sale'', act_Description = [], act_StartTime = [], act_EndTime = [],
     act_Status = 1, act_RemainingSeconds = 3600\<rparr>"

definition detail1 :: SeckillProductDetail where
  "detail1 = \<lparr>pd_ProductID = 5, pd_Name = ''phone'', pd_Subtitle = [], pd_MainImage = [], pd_Detail = [], pd_SkuID = 7,
     pd_SeckillPrice = 100, pd_MarketPrice = 200, pd_TotalStock = 10, pd_AvailableStock = 10, pd_LimitNum = 1,
     pd_ActivityID = 3, pd_ActivityTitle = ''sale'', pd_Description = [], pd_StartTime = [], pd_EndTime = [],
     pd_ActivityStatus = 1, pd_RemainingSeconds = 3600, pd_Version = 0\<rparr>"

definition submit_world :: world where
  "submit_world = w0\<lparr>keyspace := [(cacheKeyActivity, RStr (SJson (DActivity activity1)), None),
     (detail_key 5 3, RStr (SJson (DDetail detail1)), None), (bloomProductKey 3, RBloom [show_word (5::u64)], None),
     (stock_key 3 7, RStr (SInt 2), None)]\<rparr>"

lemma fresh_bucket:
  assumes "replies w = []" "rlookup key w = None" "1 \<le> capacity" "0 < ttl"
  shows "run_state (runBucket E0 key (rate, capacity, ttl)) w = (Inr True, rput key (RHash
     [(''tokens'', fix12 (capacity - 1)), (''last'', SInt (clock w div microsecond))]) (Some (clock w + ttl * second)) w)"
  using assms by (simp add: runBucket_def run_call_quiet tokenBucketScript_def hash_get_def hash_of_def refill_def Let_def)

lemma limits0:
  "bucketParams E0 10000 20000 second = (10000, 20000, 60)" "bucketParams E0 3 3 second = (3, 3, 60)"
  "bucketParams E0 8000 0 second = (8000, 8000, 60)"
  by (simp_all add: bucketParams_def seconds_of_def Let_def second_def)

lemmas key_words = global_limit_key_def user_limit_key_def activity_limit_key_def idempotent_key_def cacheKeyActivity_def key_defs


lemma submit0_simps [simp]:
  "cor_UserID submit0 = 21" "cor_SkuID submit0 = 7" "cor_ActivityID submit0 = 3" "cor_ProductID submit0 = 5"
  "cor_Quantity submit0 = 1" "cor_CouponID submit0 = 0" "cor_AddressID submit0 = 11" "cor_ClientIP submit0 = []"
  "cor_RequestID submit0 = ''r1''"
  by (simp_all add: submit0_def)


lemma keys_apart:
  "user_limit_key u \<noteq> global_limit_key" "activity_limit_key a \<noteq> global_limit_key" "activity_limit_key a \<noteq> user_limit_key u"
  "idempotent_key r \<noteq> global_limit_key" "idempotent_key r \<noteq> user_limit_key u" "activity_limit_key a \<noteq> idempotent_key r"
  "cacheKeyActivity \<noteq> global_limit_key" "cacheKeyActivity \<noteq> user_limit_key u" "cacheKeyActivity \<noteq> idempotent_key r"
  "cacheKeyActivity \<noteq> activity_limit_key a"
  "bloomProductKey a \<noteq> global_limit_key" "bloomProductKey a \<noteq> user_limit_key u" "bloomProductKey a \<noteq> idempotent_key r"
  "bloomProductKey a \<noteq> activity_limit_key b" "bloomProductKey a \<noteq> cacheKeyActivity"
  "detail_key p a \<noteq> global_limit_key" "detail_key p a \<noteq> user_limit_key u" "detail_key p a \<noteq> idempotent_key r"
  "detail_key p a \<noteq> activity_limit_key b" "detail_key p a \<noteq> cacheKeyActivity" "detail_key p a \<noteq> bloomProductKey b"
  "buy_key a k u \<noteq> global_limit_key" "buy_key a k u \<noteq> user_limit_key v" "buy_key a k u \<noteq> idempotent_key r"
  "buy_key a k u \<noteq> activity_limit_key b" "buy_key a k u \<noteq> cacheKeyActivity" "buy_key a k u \<noteq> bloomProductKey b"
  "stock_key a k \<noteq> global_limit_key" "stock_key a k \<noteq> user_limit_key v" "stock_key a k \<noteq> idempotent_key r"
  "stock_key a k \<noteq> activity_limit_key b" "stock_key a k \<noteq> cacheKeyActivity" "stock_key a k \<noteq> bloomProductKey b"
  by (simp_all add: key_words)

lemma submit_world_simps:
  "replies submit_world = []" "clock submit_world = second" "core submit_world = core0"
  "rlookup global_limit_key submit_world = None" "rlookup (user_limit_key u) submit_world = None"
  "rlookup (activity_limit_key a) submit_world = None" "rlookup (idempotent_key r) submit_world = None"
  "rlookup (buy_key a k u) submit_world = None" "rlookup cacheKeyActivity submit_world = Some (RStr (SJson (DActivity activity1)))"
  "rlookup (bloomProductKey 3) submit_world = Some (RBloom [show_word (5::u64)])"
  "rlookup (detail_key 5 3) submit_world = Some (RStr (SJson (DDetail detail1)))"
  "rlookup (stock_key 3 7) submit_world = Some (RStr (SInt 2))"
  by (simp_all add: submit_world_def rlookup_def sample keys_apart keys_apart [symmetric])

lemmas submit_run = wired_simps rateLimiter_def idempotentChecker_def UserRateLimit_def GlobalRateLimit_def
  ActivityRateLimit_def limits0 fresh_bucket CheckAndMark_def rdb_SetNX_def run_rules redisRepo_def rdb_Get_def
  cached_activity_def decode_activity_def redis_get_def rexists_def submit_world_simps keys_apart keys_apart [symmetric]

definition guarded_world :: world where
  "guarded_world = snd (run_state (create_guards E0 (wired E0 topics0) 1 submit0) submit_world)"

lemma submit_guards:
  "run_state (create_guards E0 (wired E0 topics0) 1 submit0) submit_world = (Inr (), guarded_world)"
  "replies guarded_world = []" "core guarded_world = core0" "clock guarded_world = second"
  "k \<notin> {global_limit_key, user_limit_key 21, activity_limit_key 3, idempotent_key ''r1''} \<Longrightarrow>
     rlookup k guarded_world = rlookup k submit_world"
  by (simp_all add: guarded_world_def create_guards_def submit_run activity1_def minute_def)

lemma submit_detail:
  "run_state (getProductDetailWithMutex E0 (wired E0 topics0) (Suc 0) 5 3) guarded_world = (Inr detail1, guarded_world)"
  by (simp add: submit_run submit_guards redisRepo_BloomExists_def cmd_BFEXISTS_def redisRepo_GetProductDetail_def decode_detail_def)

lemma submit_not_bought:
  "run_state (not_bought (wired E0 topics0) submit0) guarded_world = (Inr (), guarded_world)"
  by (simp add: not_bought_def submit_run submit_guards redisRepo_CheckUserBuy_def rdb_Exists_def
    mysqlRepo_def mysqlRepo_CheckUserBuyRecord_def core0_def)

lemma submit_accepted:
  "\<exists>res w'. run_state (CreateSeckillOrder E0 (wired E0 topics0) 1 submit0) submit_world = (Inr res, w')"
  by (simp add: CreateSeckillOrder_def run_rules submit_guards(1) [unfolded One_nat_def] submit_guards(2-4) submit_detail submit_not_bought detail1_def
    applyCoupon_def reserve_def submit_run submit_guards(5) redisRepo_DeductStock_def deduct_script_def in_int64_def
    NewIDGenerator_def snowflake_NextString_def snowflake_NextID_def order_message_def send_order_def
    producer_def Send_def SendEvent_def SendMessage_def
    redisRepo_SetPendingReservation_def redisRepo_MarkUserBuy_def rdb_SetEX_def expire_seconds_def split: prod.split del: getProductDetailWithMutex.simps)

theorem accepted_submission_witness:
  "\<exists>res w'. run_state (CreateSeckillOrder E0 (wired E0 topics0) 1 submit0) submit_world = (Inr res, w') \<and>
     bought 3 7 21 w' \<and> (\<exists>msg. carries submit0 msg \<and> answers msg res \<and> length (kafka_log w') = 1)"
proof -
  obtain res w' where "run_state (CreateSeckillOrder E0 (wired E0 topics0) 1 submit0) submit_world = (Inr res, w')"
    using submit_accepted by blast
  moreover have "kafka_log submit_world = []" by (simp add: submit_world_def w0_def)
  ultimately show ?thesis using accepted_submission [of E0 topics0 1 submit0 submit_world res w'] by auto
qed

end
