(* ===== verification/Message_Safety.thy ===== *)
theory Message_Safety
  imports Submission_Safety
begin

text \<open>
  The consumers: which error is tried again and when, what stands in the log when the position of
  a consumer moves behind a failed message, which messages the position passes over, and the way of a
  dead letter into its table.
\<close>

section \<open>The wait before a retry\<close>

lemma backoff_loop_closed: "0 \<le> d \<Longrightarrow> d \<le> MaxRetryDelay \<Longrightarrow> backoff_loop n d = min (d * 2 ^ n) MaxRetryDelay"
proof (induction n arbitrary: d)
  case (Suc n)
  have w: "wrap64 (d * 2) = d * 2" using Suc.prems by (simp add: MaxRetryDelay_def minute_def)
  show ?case
  proof (cases "MaxRetryDelay < d * 2")
    case True
    have "d * 2 * 1 \<le> d * 2 * 2 ^ n" by (rule mult_left_mono) (use Suc.prems in simp_all)
    then show ?thesis using True w by (simp add: mult.assoc min_def)
  next
    case False
    then show ?thesis using Suc.IH [of "d * 2"] Suc.prems w by (simp add: mult.assoc)
  qed
qed simp

lemma backoff_closed: "calculateBackoff n = min (RetryBaseDelay * 2 ^ nat (n - 1)) MaxRetryDelay"
  by (simp add: calculateBackoff_def backoff_loop_closed RetryBaseDelay_def MaxRetryDelay_def second_def minute_def)

lemma backoff_grows: "i \<le> j \<Longrightarrow> RetryBaseDelay * 2 ^ i \<le> RetryBaseDelay * 2 ^ (j::nat)"
  by (rule mult_left_mono) (simp_all add: RetryBaseDelay_def second_def power_increasing)

lemma backoff_bounds: "RetryBaseDelay \<le> calculateBackoff n \<and> calculateBackoff n \<le> MaxRetryDelay"
  using backoff_grows [of 0 "nat (n - 1)"]
  by (simp add: backoff_closed RetryBaseDelay_def MaxRetryDelay_def second_def minute_def)

text \<open>C31: the doubling loop computes ten seconds times two to the number of earlier retries, capped at ten
  minutes, without overflow for any count; so the wait grows with the count and stays between ten seconds
  and ten minutes.\<close>

theorem backoff_is_capped_doubling:
  "calculateBackoff n = min (RetryBaseDelay * 2 ^ nat (n - 1)) MaxRetryDelay \<and>
     RetryBaseDelay \<le> calculateBackoff n \<and> calculateBackoff n \<le> MaxRetryDelay \<and>
     calculateBackoff n \<le> calculateBackoff (n + 1)"
proof -
  have "RetryBaseDelay * 2 ^ nat (n - 1) \<le> RetryBaseDelay * 2 ^ nat (n + 1 - 1)" by (rule backoff_grows) simp
  then show ?thesis using backoff_closed backoff_bounds [of n] by (auto simp: backoff_closed [of "n + 1"] min_def)
qed

section \<open>No failed message disappears\<close>

text \<open>The record that stands in the log for a failed message.\<close>

definition dead_copy :: "env \<Rightarrow> TopicNames \<Rightarrow> ConsumerMessage \<Rightarrow> error \<Rightarrow> ProducerMessage \<Rightarrow> bool" where
  "dead_copy E T m e pm \<longleftrightarrow> pm_Topic pm = tn_SeckillDLQ T \<and> (\<exists>d. pm_Value pm = KDlq d \<and>
     dlm_Topic d = cm_Topic m \<and> dlm_Partition d = cm_Partition m \<and> dlm_Offset d = cm_Offset m \<and>
     (case decode_order (cm_Value m) of
        Inl pe \<Rightarrow> dlm_RawPayload d = raw_of E (cm_Value m) \<and> dlm_LastError d = err_text pe
      | Inr om \<Rightarrow> dlm_OriginalMsg d = om\<lparr>msg_TraceID := trace_id E\<rparr> \<and> dlm_LastError d = err_text e \<and>
          dlm_EventID d = msg_EventID om))"

definition retry_copy :: "env \<Rightarrow> TopicNames \<Rightarrow> ConsumerMessage \<Rightarrow> error \<Rightarrow> ProducerMessage \<Rightarrow> bool" where
  "retry_copy E T m e pm \<longleftrightarrow> pm_Topic pm = tn_SeckillRetry T \<and> getRetryCount m < MaxRetryCount \<and>
     classifyOrderError (Some e) = failureRetry \<and>
     (\<exists>om ts. decode_order (cm_Value m) = Inr om \<and> pm_Value pm = order_value
        (om\<lparr>msg_RetryCount := getRetryCount m + 1, msg_TraceID := trace_id E, msg_Timestamp := ts\<rparr>))"

lemma getRetryCount_nonneg: "0 \<le> getRetryCount m"
  by (simp add: getRetryCount_def split: option.split)

lemma SendMessage_Inr:
  "run_state (SendMessage pm) w = (Inr u, w') \<Longrightarrow> kafka_log w' = kafka_log w @ [pm] \<and> committed w' = committed w"
  by (auto simp: SendMessage_def elim!: call_Inr)

lemma SendMessage_Inl:
  "run_state (SendMessage pm) w = (r, w') \<Longrightarrow> committed w' = committed w"
  unfolding SendMessage_def by (cases rule: call_cases) auto

lemma commit_unless_True:
  assumes "run_state (commit_unless m k) w = ((True, e), w')"
  obtains x w1 where "run_state m w = (Inr x, w1)" and "run_state k w1 = ((True, e), w')"
  using assms by (auto simp: commit_unless_def split: prod.splits sum.splits)

text \<open>Neither the handling of a message nor the rollback of a reservation writes a record or commits an offset.\<close>

definition logs :: "world \<Rightarrow> ProducerMessage list \<times> (string \<times> int \<Rightarrow> int)" where
  "logs w = (kafka_log w, committed w)"

lemma logs_fields [simp]:
  "logs (w\<lparr>replies := rs\<rparr>) = logs w" "logs (w\<lparr>ticks := n\<rparr>) = logs w" "logs (w\<lparr>core := c\<rparr>) = logs w"
  "logs (w\<lparr>auto_id := n\<rparr>) = logs w" "logs (w\<lparr>clock := t\<rparr>) = logs w" "logs (w\<lparr>keyspace := k\<rparr>) = logs w"
  "logs (w\<lparr>pay_infos := ps\<rparr>) = logs w" "logs (w\<lparr>dead_letters := ds\<rparr>) = logs w"
  by (simp_all add: logs_def)

lemma logs_neutral [simp]: "redis_neutral logs"
  by (simp add: redis_neutral_def)

lemma logs_give_back: "same logs (give_back_coupon (wired E T) c)"
  unfolding give_back_coupon_def wired_simps mysqlRepo_def redisRepo_def SeckillRepo.select_convs CacheRepo.select_convs
    mysqlRepo_RestoreUserCoupon_def
  by (intro frame; simp add: put_defs)

lemma logs_rollback: "same logs (RollbackSeckillReservation (wired E T) om)"
  unfolding RollbackSeckillReservation_def wired_simps redisRepo_def CacheRepo.select_convs
  by (intro frame logs_give_back; simp)

lemma logs_confirm: "same logs (ConfirmSeckillOrder (wired E T) om)"
  unfolding ConfirmSeckillOrder_def confirm_body_def order_of_def wired_simps mysqlRepo_def SeckillRepo.select_convs
    redisRepo_def CacheRepo.select_convs delayQueue_def DelayQueue.select_convs mysqlRepo_CreateOrder_def
    mysqlRepo_CreateOrderShipping_def mysqlRepo_DecreaseStock_def mysqlRepo_GetUserAddress_def Let_def
  by (intro frame same_ExecTx neutral_queue; simp add: put_defs)

lemma logs_handle: "same logs (consumer_handle T (wired E T) m)"
  unfolding consumer_handle_def handleOrderTopic_def handleRetryTopic_def confirmed_def wait_or_done_def wired_simps
    idempotentChecker_def IdempotentChecker.select_convs
  by (intro frame logs_confirm; simp)

text \<open>A send that reports success has put its record in the log.\<close>

definition sent :: "ProducerMessage \<Rightarrow> world \<Rightarrow> world \<Rightarrow> bool" where
  "sent pm w w' \<longleftrightarrow> kafka_log w' = kafka_log w @ [pm] \<and> committed w' = committed w"

lemma SendMessage_sent:
  assumes "run_state (SendMessage pm) w = (r, w')"
  shows "committed w' = committed w \<and> (r = Inr () \<longrightarrow> sent pm w w')"
  using assms SendMessage_Inl SendMessage_Inr by (cases r) (auto simp: sent_def)

lemma SendToDLQ_sent:
  assumes "run_state (SendToDLQ E T om reason n (cm_Topic m) (cm_Partition m) (cm_Offset m)) w = (r, w')"
    and "decode_order (cm_Value m) = Inr om" and "reason = err_text e"
  shows "committed w' = committed w \<and> (r = Inr () \<longrightarrow> (\<exists>pm. dead_copy E T m e pm \<and> sent pm w w'))"
proof -
  obtain pm where "run_state (SendMessage pm) w = (r, w')" "dead_copy E T m e pm"
    using assms by (auto simp: SendToDLQ_def SendEvent_def Let_def dead_copy_def)
  then show ?thesis using SendMessage_sent by blast
qed

lemma SendToRetry_sent:
  assumes "run_state (SendToRetry E T om (getRetryCount m + 1) d) w = (r, w')"
    and "decode_order (cm_Value m) = Inr om" and "getRetryCount m < MaxRetryCount" and "classifyOrderError (Some e) = failureRetry"
  shows "committed w' = committed w \<and> (r = Inr () \<longrightarrow> (\<exists>pm. retry_copy E T m e pm \<and> sent pm w w'))"
proof -
  obtain pm where pm: "run_state (SendMessage pm) w = (r, w')" "pm_Topic pm = tn_SeckillRetry T" "pm_Value pm = order_value
      (om\<lparr>msg_RetryCount := getRetryCount m + 1, msg_TraceID := trace_id E, msg_Timestamp := unix (clock w)\<rparr>)"
    using assms(1) by (auto simp: SendToRetry_def SendEvent_def Let_def)
  then have "retry_copy E T m e pm" using assms(2-4) by (auto simp: retry_copy_def)
  with pm(1) have "run_state (SendMessage pm) w = (r, w')" "retry_copy E T m e pm" by simp_all
  then show ?thesis using SendMessage_sent by blast
qed

lemma SendParseFailure_sent:
  assumes "run_state (SendParseFailureToDLQ E T (cm_Value m) (cm_Topic m) (cm_Partition m) (cm_Offset m) (err_text pe) hs) w = (r, w')"
    and "decode_order (cm_Value m) = Inl pe"
  shows "committed w' = committed w \<and> (r = Inr () \<longrightarrow> (\<exists>pm. dead_copy E T m e pm \<and> sent pm w w'))"
proof -
  obtain pm where "run_state (SendMessage pm) w = (r, w')" "dead_copy E T m e pm"
    using assms by (auto simp: SendParseFailureToDLQ_def SendEvent_def Let_def dead_copy_def)
  then show ?thesis using SendMessage_sent by blast
qed

lemma commit_unless_cases:
  assumes "run_state (commit_unless m k) w = (b, w')"
  obtains (err) e where "run_state m w = (Inl e, w')" and "b = (False, Some e)"
  | (ok) w1 where "run_state m w = (Inr (), w1)" and "run_state k w1 = (b, w')"
  using assms by (auto simp: commit_unless_def split: prod.splits sum.splits)

definition accounted :: "env \<Rightarrow> TopicNames \<Rightarrow> ConsumerMessage \<Rightarrow> error \<Rightarrow> world \<Rightarrow> world \<Rightarrow> bool" where
  "accounted E T m e w w' \<longleftrightarrow> (\<exists>pm. kafka_log w' = kafka_log w @ [pm] \<and> (dead_copy E T m e pm \<or> retry_copy E T m e pm)) \<or>
     classifyOrderError (Some e) = failureDrop \<and> kafka_log w' = kafka_log w"

lemma final_failure_logs:
  assumes "run_state (handleFinalFailture (wired E T) (producer E T) m om e) w = ((b, x), w')"
    and om: "decode_order (cm_Value m) = Inr om"
  shows "committed w' = committed w \<and> (b \<longrightarrow> accounted E T m e w w')"
  using assms(1) unfolding handleFinalFailture_def producer_def MQProducer.select_convs
proof (cases rule: commit_unless_cases)
  case (err d)
  then show ?thesis using SendToDLQ_sent [OF _ om refl] by blast
next
  case (ok w1)
  have "logs w' = logs w1" using ok(2)
    by (cases rule: commit_unless_cases) (use sameD [OF logs_rollback] in auto)
  then show ?thesis using SendToDLQ_sent [OF ok(1) om refl] by (auto simp: logs_def accounted_def sent_def)
qed

lemma route_logs:
  assumes "run_state (routeFailure (wired E T) (producer E T) m e) w = ((b, x), w')"
  shows "committed w' = committed w \<and> (b \<longrightarrow> accounted E T m e w w')"
proof (cases "decode_order (cm_Value m)")
  case (Inl pe)
  have "run_state (commit_unless (SendParseFailureToDLQ E T (cm_Value m) (cm_Topic m) (cm_Partition m) (cm_Offset m)
      (err_text pe) (cm_Headers m)) (return (True, None))) w = ((b, x), w')"
    using assms Inl by (simp add: routeFailure_def producer_def)
  then show ?thesis
    by (cases rule: commit_unless_cases) (use SendParseFailure_sent [OF _ Inl, of E T _ w _ _ e] in \<open>auto simp: accounted_def sent_def\<close>)
next
  case om: (Inr om)
  show ?thesis
  proof (cases "classifyOrderError (Some e)")
    case failureRetry
    show ?thesis
    proof (cases "MaxRetryCount \<le> getRetryCount m")
      case True
      then show ?thesis using assms om failureRetry final_failure_logs [OF _ om] by (simp add: routeFailure_def)
    next
      case False
      then have n: "wrap64 (getRetryCount m + 1) = getRetryCount m + 1"
        using getRetryCount_nonneg [of m] by (simp add: MaxRetryCount_def)
      have "run_state (commit_unless (SendToRetry E T om (getRetryCount m + 1) (calculateBackoff (getRetryCount m + 1)))
          (return (True, None))) w = ((b, x), w')"
        using assms om failureRetry False n by (simp add: routeFailure_def producer_def)
      then show ?thesis
        by (cases rule: commit_unless_cases)
          (use SendToRetry_sent [OF _ om _ failureRetry, of E T _ w] False in \<open>auto simp: accounted_def sent_def\<close>)
    qed
  next
    case failureDLQ
    then show ?thesis using assms om final_failure_logs [OF _ om] by (simp add: routeFailure_def)
  next
    case failureDrop
    then show ?thesis using assms om by (simp add: routeFailure_def accounted_def)
  qed
qed

text \<open>A message has been dealt with: handled without error, or its error has been answered for.\<close>

definition taken_care :: "env \<Rightarrow> TopicNames \<Rightarrow> ConsumerMessage \<Rightarrow> world \<Rightarrow> world \<Rightarrow> bool" where
  "taken_care E T m w w' \<longleftrightarrow>
     fst (run_state (consumer_handle T (wired E T) m) w) = Inr () \<and> kafka_log w' = kafka_log w \<or>
     (\<exists>e. fst (run_state (consumer_handle T (wired E T) m) w) = Inl e \<and> accounted E T m e w w')"

abbreviation partition_of :: "ConsumerMessage \<Rightarrow> string \<times> int" where
  "partition_of m \<equiv> (cm_Topic m, cm_Partition m)"

lemma process_step:
  assumes run: "run_state (processMessage T (wired E T) (producer E T) m) w = ((), w')"
  shows "committed w' = committed w \<or> taken_care E T m w w' \<and> committed w' =
     (committed w)(partition_of m := max (committed w (partition_of m)) (cm_Offset m + 1))"
proof -
  obtain r w1 where h: "run_state (consumer_handle T (wired E T) m) w = (r, w1)" by fastforce
  have l: "logs w1 = logs w" by (rule sameD [OF logs_handle h])
  show ?thesis
  proof (cases r)
    case (Inr u)
    then show ?thesis using run h l by (auto simp: processMessage_def commit_offset_def logs_def taken_care_def)
  next
    case (Inl e)
    obtain b x w2 where f: "run_state (routeFailure (wired E T) (producer E T) m e) w1 = ((b, x), w2)"
      by (metis surj_pair)
    show ?thesis
    proof (cases "b \<and> \<not> errors_is e (Driver ContextCanceled)")
      case True
      then show ?thesis using run h l Inl f route_logs [OF f]
        by (auto simp: processMessage_def commit_offset_def logs_def accounted_def taken_care_def)
    next
      case False
      then show ?thesis using run h l Inl f route_logs [OF f] by (auto simp: processMessage_def logs_def split: if_splits)
    qed
  qed
qed

text \<open>The states between the messages of a claim.\<close>

definition claim_states :: "env \<Rightarrow> TopicNames \<Rightarrow> ConsumerMessage list \<Rightarrow> world list \<Rightarrow> bool" where
  "claim_states E T ms ws \<longleftrightarrow> length ws = Suc (length ms) \<and> (\<forall>i < length ms.
     run_state (processMessage T (wired E T) (producer E T) (ms ! i)) (ws ! i) = ((), ws ! Suc i))"

lemma claim_run:
  "run_state (ConsumeClaim T (wired E T) (producer E T) ms) w = ((), w') \<Longrightarrow>
     \<exists>ws. claim_states E T ms ws \<and> ws ! 0 = w \<and> ws ! length ms = w'"
proof (induction ms arbitrary: w)
  case Nil
  then show ?case by (intro exI [of _ "[w]"]) (simp add: ConsumeClaim_def claim_states_def)
next
  case (Cons m ms)
  obtain w1 where 1: "run_state (processMessage T (wired E T) (producer E T) m) w = ((), w1)" by (metis surj_pair unit.exhaust)
  then have "run_state (ConsumeClaim T (wired E T) (producer E T) ms) w1 = ((), w')"
    using Cons.prems by (simp add: ConsumeClaim_def)
  from Cons.IH [OF this] obtain ws where "claim_states E T ms ws" "ws ! 0 = w1" "ws ! length ms = w'" by blast
  then show ?case using 1 by (intro exI [of _ "w # ws"]) (auto simp: claim_states_def less_Suc_eq_0_disj)
qed

lemma unmoved: "(\<And>j. i \<le> j \<Longrightarrow> j < k \<Longrightarrow> f (Suc j) = f j) \<Longrightarrow> i \<le> k \<Longrightarrow> f k = f (i::nat)"
proof (induction k)
  case (Suc k)
  then show ?case by (cases "i = Suc k") auto
qed simp

text \<open>Positions along increasing offsets: each step leaves the position or moves it behind its own message.\<close>

lemma positions:
  fixes pos off :: "nat \<Rightarrow> int"
  assumes step: "\<And>i. i < n \<Longrightarrow> pos (Suc i) = pos i \<or> pos (Suc i) = max (pos i) (off i + 1)"
    and start: "\<And>i. i < n \<Longrightarrow> pos 0 \<le> off i" and up: "\<And>i j. i < j \<Longrightarrow> j < n \<Longrightarrow> off i < off j"
  shows "k \<le> i \<Longrightarrow> i < n \<Longrightarrow> pos k \<le> off i" and "i < n \<Longrightarrow> pos i \<le> pos (Suc i)"
    and "i < n \<Longrightarrow> off i < pos n \<longleftrightarrow> (\<exists>j \<ge> i. j < n \<and> pos (Suc j) \<noteq> pos j)"
proof -
  show below: "pos k \<le> off i" if "k \<le> i" "i < n" for k i
    using that
  proof (induction k)
    case (Suc k)
    then show ?case using step [of k] up [of k i] by auto
  qed (use start in simp)
  show mono: "pos i \<le> pos (Suc i)" if "i < n" for i using step [OF that] by auto
  have rise: "pos j \<le> pos n" if "j \<le> n" for j
    using that by (induction rule: inc_induct) (use mono in force)+
  show "off i < pos n \<longleftrightarrow> (\<exists>j \<ge> i. j < n \<and> pos (Suc j) \<noteq> pos j)" if i: "i < n"
  proof
    assume "off i < pos n"
    then have "pos n \<noteq> pos i" using below [of i i] i by simp
    then show "\<exists>j \<ge> i. j < n \<and> pos (Suc j) \<noteq> pos j" using unmoved [of i n pos] i by force
  next
    assume "\<exists>j \<ge> i. j < n \<and> pos (Suc j) \<noteq> pos j"
    then obtain j where j: "i \<le> j" "j < n" "pos (Suc j) \<noteq> pos j" by blast
    then have "off i \<le> off j" using up [of i j] by (cases "i = j") auto
    then show "off i < pos n" using step [OF j(2)] j rise [of "Suc j"] by auto
  qed
qed

text \<open>C20: the messages of one partition, handed to the consumer in the order of their offsets from the group's
  position on, under any failures.  Each message either leaves the position where it is, or moves it right
  behind itself, and then it has been dealt with: it was handled without
  error and the log is as before; or its error says that the order exists already; or exactly one record was
  added, on the retry topic with the count raised by one (only for a transient error and a count below three), or
  on the dead-letter topic with the message, the error and the position it came from.  But the position
  covers every message below it: a message counts as consumed exactly when it or a later one of
  the claim has moved the position, so one that could not be dealt with is only read again if no later one is
  committed.\<close>

theorem committed_position_is_accounted:
  assumes run: "run_state (ConsumeClaim T (wired E T) (producer E T) ms) w = ((), w')"
    and part: "\<forall>m \<in> set ms. partition_of m = tp \<and> committed w tp \<le> cm_Offset m"
    and up: "sorted_wrt (<) (map cm_Offset ms)"
  shows "\<exists>ws. claim_states E T ms ws \<and> ws ! 0 = w \<and> ws ! length ms = w' \<and>
     (\<forall>i < length ms. committed (ws ! Suc i) = committed (ws ! i) \<or>
        committed (ws ! Suc i) = (committed (ws ! i))(tp := cm_Offset (ms ! i) + 1) \<and>
        taken_care E T (ms ! i) (ws ! i) (ws ! Suc i)) \<and>
     (\<forall>i < length ms. cm_Offset (ms ! i) < committed w' tp \<longleftrightarrow>
        (\<exists>j \<ge> i. j < length ms \<and> committed (ws ! Suc j) \<noteq> committed (ws ! j)))"
proof -
  obtain ws where ws: "claim_states E T ms ws" "ws ! 0 = w" "ws ! length ms = w'" using claim_run [OF run] by blast
  define pos where "pos i = committed (ws ! i) tp" for i
  define off where "off i = cm_Offset (ms ! i)" for i
  have p: "partition_of (ms ! i) = tp" "pos 0 \<le> off i" if "i < length ms" for i
    using part nth_mem [OF that] ws(2) by (simp_all add: pos_def off_def)
  have s: "committed (ws ! Suc i) = committed (ws ! i) \<or> taken_care E T (ms ! i) (ws ! i) (ws ! Suc i) \<and>
      committed (ws ! Suc i) = (committed (ws ! i))(tp := max (pos i) (off i + 1))" if "i < length ms" for i
    using process_step [of T E "ms ! i" "ws ! i" "ws ! Suc i"] ws(1) p(1) [OF that] that
    by (simp add: claim_states_def pos_def off_def)
  have inc: "off i < off j" if "i < j" "j < length ms" for i j
    using sorted_wrt_nth_less [OF up that(1)] that by (simp add: off_def)
  have step: "pos (Suc i) = pos i \<or> pos (Suc i) = max (pos i) (off i + 1)" if "i < length ms" for i
    using s [OF that] by (auto simp: pos_def)
  have below: "pos i \<le> off i" if "i < length ms" for i
    by (rule positions(1) [of "length ms" pos off, OF step p(2) inc order.refl that])
  have covered: "off i < pos (length ms) \<longleftrightarrow> (\<exists>j \<ge> i. j < length ms \<and> pos (Suc j) \<noteq> pos j)" if "i < length ms" for i
    by (rule positions(3) [of "length ms" pos off, OF step p(2) inc that])
  have moved: "committed (ws ! Suc i) \<noteq> committed (ws ! i) \<longleftrightarrow> pos (Suc i) \<noteq> pos i" if "i < length ms" for i
    using s [OF that] below [OF that] by (auto simp: pos_def)
  have "committed (ws ! Suc i) = committed (ws ! i) \<or> committed (ws ! Suc i) = (committed (ws ! i))(tp := off i + 1) \<and>
      taken_care E T (ms ! i) (ws ! i) (ws ! Suc i)" if "i < length ms" for i
    using s [OF that] below [OF that] by (auto simp: max_def)
  moreover have "off i < committed w' tp \<longleftrightarrow> (\<exists>j \<ge> i. j < length ms \<and> committed (ws ! Suc j) \<noteq> committed (ws ! j))"
    if "i < length ms" for i
    using covered [OF that] moved ws(3) by (auto simp: pos_def)
  ultimately show ?thesis using ws unfolding off_def by blast
qed

definition message0 :: ConsumerMessage where
  "message0 = \<lparr>cm_Topic = ''order'', cm_Partition = 0, cm_Offset = 4, cm_Value = order_value (msg0\<lparr>msg_AddressID := 99\<rparr>),
     cm_Headers = []\<rparr>"

lemma handled0:
  "run_state (consumer_handle topics0 (wired E0 topics0) message0) cache_world = (Inl ErrAddressNotFound, cache_world)"
  by (simp add: consumer_handle_def handleOrderTopic_def message0_def topics0_def decode_order_def order_value_def
      decode_raw_def confirmed_def ConfirmSeckillOrder_def confirm_body_def wired_simps mysqlRepo_def
      mysqlRepo_GetUserAddress_def run_rules cache_world_def sample not_found_as_def)

lemma class0: "classifyOrderError (Some ErrAddressNotFound) = failureDLQ"
  by (simp add: classifyOrderError_def final_errors_def utf8_def char_of_def)

lemma routed0: "\<exists>w'. run_state (routeFailure (wired E0 topics0) (producer E0 topics0) message0 ErrAddressNotFound) cache_world =
   ((True, None), w') \<and> committed w' = (\<lambda>_. 0)"
proof -
  define w1 where "w1 = snd (run_state (SendToDLQ E0 topics0 (msg0\<lparr>msg_AddressID := 99\<rparr>) (err_text ErrAddressNotFound)
    0 ''order'' 0 4) cache_world)"
  have s: "run_state (SendToDLQ E0 topics0 (msg0\<lparr>msg_AddressID := 99\<rparr>) (err_text ErrAddressNotFound) 0 ''order'' 0 4) cache_world
     = (Inr (), w1)" "replies w1 = []" "stock_is 3 7 2 w1" "committed w1 = (\<lambda>_. 0)"
    by (simp_all add: w1_def SendToDLQ_def SendEvent_def SendMessage_def run_call_quiet cache_world_def w0_def Let_def stock_is_def)
  have "run_state (RollbackSeckillReservation (wired E0 topics0) (msg0\<lparr>msg_AddressID := 99\<rparr>)) w1 =
      (Inr (), rdel (pendingReservationKey ''r1'') (rdel (buy_key 3 7 21) (rset (stock_key 3 7) (RStr (SInt 4)) w1)))"
    using s(2) by (simp add: RollbackSeckillReservation_def wired_simps redisRepo_def msg0_def zeroMessage_def run_bindE
        incr_run [OF s(2,3)] in_int64_def redisRepo_RemoveUserBuy_def redisRepo_DeletePendingReservation_def del_run
        give_back_coupon_def)
  then show ?thesis using s by (simp add: routeFailure_def message0_def topics0_def decode_order_def order_value_def
     decode_raw_def class0 handleFinalFailture_def commit_unless_def producer_def
     getRetryCount_def getHeaderValue_def)
qed

lemma claim0:
  obtains w' where "run_state (ConsumeClaim topics0 (wired E0 topics0) (producer E0 topics0) [message0]) cache_world = ((), w')"
    and "committed w' = (\<lambda>_. 0)((''order'', 0) := 5)"
proof -
  obtain w1 where r: "run_state (routeFailure (wired E0 topics0) (producer E0 topics0) message0 ErrAddressNotFound) cache_world =
     ((True, None), w1)" "committed w1 = (\<lambda>_. 0)" using routed0 by blast
  show ?thesis
    by (rule that [of "w1\<lparr>committed := (\<lambda>_. 0)((''order'', 0) := 5)\<rparr>"])
      (use handled0 r in \<open>simp_all add: ConsumeClaim_def processMessage_def commit_offset_def message0_def\<close>)
qed

theorem committed_position_is_accounted_witness:
  "\<exists>w' pm. run_state (ConsumeClaim topics0 (wired E0 topics0) (producer E0 topics0) [message0]) cache_world = ((), w') \<and>
     committed w' (''order'', 0) = 5 \<and> kafka_log w' = [pm] \<and> dead_copy E0 topics0 message0 ErrAddressNotFound pm"
proof -
  obtain w' where run: "run_state (ConsumeClaim topics0 (wired E0 topics0) (producer E0 topics0) [message0]) cache_world = ((), w')"
    and c: "committed w' = (\<lambda>_. 0)((''order'', 0) := 5)" using claim0 .
  have c0: "committed cache_world = (\<lambda>_. 0)" by (simp add: cache_world_def w0_def)
  have part: "\<forall>m \<in> set [message0]. partition_of m = (''order'', 0) \<and> committed cache_world (''order'', 0) \<le> cm_Offset m"
    by (simp add: c0 message0_def)
  have up: "sorted_wrt (<) (map cm_Offset [message0])" by simp
  from committed_position_is_accounted [OF run part up] obtain ws where
      ws: "ws ! 0 = cache_world" "ws ! length [message0] = w'" and step: "\<forall>i < length [message0].
        committed (ws ! Suc i) = committed (ws ! i) \<or> committed (ws ! Suc i) = (committed (ws ! i))
          ((''order'', 0) := cm_Offset ([message0] ! i) + 1) \<and> taken_care E0 topics0 ([message0] ! i) (ws ! i) (ws ! Suc i)"
    by (elim exE conjE) (rule that; assumption)
  have "committed w' \<noteq> committed cache_world" by (simp add: c c0 fun_eq_iff)
  then have "taken_care E0 topics0 message0 cache_world w'" using step [rule_format, of 0] ws by auto
  then show ?thesis using run handled0 c
    by (auto simp: taken_care_def accounted_def retry_copy_def class0 cache_world_def w0_def)
qed

section \<open>A message that is passed over\<close>

lemma run_refused: "replies w = Refused d # rs \<Longrightarrow> run_state (call f) w = (Inl (Driver d), w\<lparr>replies := rs\<rparr>)"
  by (simp add: call_def)

lemma send_refused:
  "replies w = Refused d # rs \<Longrightarrow> run_state (SendToDLQ E T om reason n t p k) w = (Inl (Driver d), w\<lparr>replies := rs\<rparr>)"
  "replies w = Refused d # rs \<Longrightarrow> run_state (SendToRetry E T om n delay) w = (Inl (Driver d), w\<lparr>replies := rs\<rparr>)"
  by (simp_all add: SendToDLQ_def SendToRetry_def SendEvent_def SendMessage_def run_refused Let_def)

lemma driver_not_dropped: "classifyOrderError (Some (Driver d)) \<noteq> failureDrop"
  by (simp add: classifyOrderError_def)

lemma route_refused:
  assumes "replies w = Refused d' # rs" and om: "decode_order (cm_Value m) = Inr om"
  shows "\<exists>e. run_state (routeFailure (wired E T) (producer E T) m (Driver d)) w = ((False, Some e), w\<lparr>replies := rs\<rparr>)"
  using driver_not_dropped [of d] assms
  by (cases "classifyOrderError (Some (Driver d))")
    (auto simp: routeFailure_def handleFinalFailture_def commit_unless_def producer_def send_refused)

lemma confirm_refused:
  "replies w = Refused d # rs \<Longrightarrow>
     run_state (ConfirmSeckillOrder (wired E T) om) w = (Inl (Driver d), w\<lparr>replies := rs\<rparr>)"
  by (simp add: ConfirmSeckillOrder_def ExecTx_def begin_tx_def query_def run_bindE run_refused)

lemma claim_position:
  "run_state (ConsumeClaim T (wired E T) (producer E T) ms) w = ((), w') \<Longrightarrow> \<forall>m \<in> set ms. partition_of m = tp \<Longrightarrow>
     committed w' tp = committed w tp \<or> (\<exists>m \<in> set ms. cm_Offset m < committed w' tp)"
proof (induction ms arbitrary: w)
  case (Cons m ms)
  obtain w1 where 1: "run_state (processMessage T (wired E T) (producer E T) m) w = ((), w1)" by (metis surj_pair unit.exhaust)
  then have "run_state (ConsumeClaim T (wired E T) (producer E T) ms) w1 = ((), w')"
    using Cons.prems(1) by (simp add: ConsumeClaim_def)
  from Cons.IH [OF this] process_step [OF 1] Cons.prems(2) show ?case by (auto simp: max_def split: if_splits)
qed (simp add: ConsumeClaim_def)

text \<open>C34: the consumer does not stop at a message it could neither handle nor route.  When the database refuses the
  transaction of an order's message and Kafka refuses the record for the retry or the dead-letter topic, the
  message leaves no trace but the two failed calls: the rest of the claim runs as if it had not been there.
  And as soon as any later message of the partition is committed the position is
  above it, so the group never reads it again: the accepted order is lost.\<close>

theorem unrouted_message_is_passed_over:
  assumes m: "cm_Topic m = tn_SeckillOrder T" "decode_order (cm_Value m) = Inr om"
    and refused: "replies w = Refused d # Refused d' # rs" "d \<noteq> ContextCanceled"
    and run: "run_state (ConsumeClaim T (wired E T) (producer E T) (m # ms)) w = ((), w')"
    and part: "\<forall>m' \<in> set ms. partition_of m' = partition_of m \<and> cm_Offset m < cm_Offset m'"
  shows "run_state (ConsumeClaim T (wired E T) (producer E T) ms) (w\<lparr>replies := rs\<rparr>) = ((), w') \<and>
     (committed w' (partition_of m) = committed w (partition_of m) \<or> cm_Offset m < committed w' (partition_of m))"
proof -
  have "run_state (consumer_handle T (wired E T) m) w = (Inl (Driver d), w\<lparr>replies := Refused d' # rs\<rparr>)"
    using m refused by (simp add: consumer_handle_def handleOrderTopic_def confirmed_def run_bindE confirm_refused)
  then have "run_state (processMessage T (wired E T) (producer E T) m) w = ((), w\<lparr>replies := rs\<rparr>)"
    using route_refused [of "w\<lparr>replies := Refused d' # rs\<rparr>" d' rs m om E T d] m(2) refused(2) by (auto simp: processMessage_def)
  then have rest: "run_state (ConsumeClaim T (wired E T) (producer E T) ms) (w\<lparr>replies := rs\<rparr>) = ((), w')"
    using run by (simp add: ConsumeClaim_def)
  have "committed w' (partition_of m) = committed w (partition_of m) \<or> (\<exists>m' \<in> set ms. cm_Offset m' < committed w' (partition_of m))"
    using claim_position [OF rest, of "partition_of m"] part by simp
  then show ?thesis using rest part by fastforce
qed

theorem unrouted_message_is_passed_over_witness:
  "\<exists>w'. run_state (ConsumeClaim topics0 (wired E0 topics0) (producer E0 topics0) [message0\<lparr>cm_Offset := 3, cm_Value := order_value msg0\<rparr>, message0])
      (cache_world\<lparr>replies := [Refused (NetError ''EOF'' False), Refused (NetError ''EOF'' False)]\<rparr>) = ((), w') \<and> 3 < committed w' (''order'', 0)"
proof -
  let ?m = "message0\<lparr>cm_Offset := 3, cm_Value := order_value msg0\<rparr>" and ?d = "NetError ''EOF'' False"
  let ?w = "cache_world\<lparr>replies := [Refused ?d, Refused ?d]\<rparr>"
  obtain w' where run: "run_state (ConsumeClaim topics0 (wired E0 topics0) (producer E0 topics0) [?m, message0]) ?w = ((), w')"
    by (metis surj_pair unit.exhaust)
  have w: "?w\<lparr>replies := []\<rparr> = cache_world" by (simp add: cache_world_def w0_def)
  have "\<forall>m' \<in> set [message0]. partition_of m' = partition_of ?m \<and> cm_Offset ?m < cm_Offset m'"
    by (simp add: message0_def)
  from unrouted_message_is_passed_over [OF _ _ _ _ run this, of msg0 ?d ?d "[]"]
  have "run_state (ConsumeClaim topics0 (wired E0 topics0) (producer E0 topics0) [message0]) cache_world = ((), w') \<and>
      (committed w' (''order'', 0) = committed ?w (''order'', 0) \<or> 3 < committed w' (''order'', 0))"
    unfolding w by (simp add: message0_def topics0_def decode_order_def order_value_def decode_raw_def)
  moreover obtain w2 where "run_state (ConsumeClaim topics0 (wired E0 topics0) (producer E0 topics0) [message0]) cache_world = ((), w2)"
    "committed w2 = (\<lambda>_. 0)((''order'', 0) := 5)" using claim0 .
  ultimately show ?thesis using run by (intro exI [of _ w']) simp
qed

section \<open>A message on the retry topic\<close>

lemma unix_wait:
  assumes "0 \<le> d"
  shows "unix (t + d) * second - t \<le> d \<and> d - second < unix (t + d) * second - t"
proof -
  have "unix (t + d) * second = t + d - (t + d) mod second" by (simp add: unix_def minus_mod_eq_div_mult)
  then show ?thesis using pos_mod_bound [of second "t + d"] pos_mod_sign [of second "t + d"] by simp
qed

lemma headers_differ: "\<not> EqualFold ''retry_count'' ''next_retry_at''"
  by (simp add: EqualFold_def ToUpper_def upper_char_def)

lemma find_append: "(\<forall>x \<in> set xs. \<not> P x) \<Longrightarrow> List.find P (xs @ ys) = List.find P ys"
  by (induction xs) auto

text \<open>C29: a message sent to the retry topic arrives there with the retry count it was sent with, to be tried again
  after the backoff it was sent with (to the second, rounded down), and with the order unchanged but for the
  count, the trace and the time, provided the tracing headers do not use the two header names.\<close>

theorem retry_round_trip:
  assumes run: "run_state (SendToRetry E T om n (calculateBackoff n)) w = (Inr (), w')"
    and n: "0 \<le> n" "in_int64 n" and now: "0 \<le> clock w" "in_int64 (clock w + MaxRetryDelay)"
    and trace: "\<forall>h \<in> set (trace_headers E). \<not> EqualFold (fst h) ''retry_count'' \<and> \<not> EqualFold (fst h) ''next_retry_at''"
    and msg: "cm_Value m = pm_Value (last (kafka_log w'))" "cm_Headers m = pm_Headers (last (kafka_log w'))"
  shows "getRetryCount m = n \<and> getRetryWait (clock w) m \<le> calculateBackoff n \<and>
     calculateBackoff n - second < getRetryWait (clock w) m \<and>
     decode_order (cm_Value m) = Inr (om\<lparr>msg_RetryCount := n, msg_TraceID := trace_id E, msg_Timestamp := unix (clock w)\<rparr>)"
proof -
  let ?d = "calculateBackoff n" and ?t = "clock w"
  have d: "10 * second \<le> ?d" "?d \<le> MaxRetryDelay" using backoff_bounds [of n] by (simp_all add: RetryBaseDelay_def)
  obtain ks where log: "last (kafka_log w') = \<lparr>pm_Topic = tn_SeckillRetry T, pm_Key = msg_OrderNo om,
      pm_Value = order_value (om\<lparr>msg_RetryCount := n, msg_TraceID := trace_id E, msg_Timestamp := unix ?t\<rparr>),
      pm_Headers = trace_headers E @ (''retry_count'', show_int n) # (''next_retry_at'', show_int (unix (?t + ?d))) # ks\<rparr>"
    using run SendMessage_Inr by (auto simp: SendToRetry_def SendEvent_def Let_def)
  have c: "getHeaderValue m ''retry_count'' = Some (show_int n)"
    using msg(2) log trace by (simp add: getHeaderValue_def find_append)
  have a: "getHeaderValue m ''next_retry_at'' = Some (show_int (unix (?t + ?d)))"
    using msg(2) log trace by (simp add: getHeaderValue_def find_append headers_differ)
  have "unix (?t + second) \<le> unix (?t + ?d)" unfolding unix_def by (rule zdiv_mono1) (use d second_pos in linarith)+
  then have u: "unix ?t < unix (?t + ?d)" using second_pos by (simp add: unix_def)
  have "unix (?t + ?d) \<le> ?t + ?d"
    using zdiv_mono2 [of "?t + ?d" 1 second] now(1) d second_pos by (simp add: unix_def)
  moreover have nn: "0 \<le> unix ?t" using now(1) by (simp add: unix_def pos_imp_zdiv_nonneg_iff)
  ultimately have i: "in_int64 (unix (?t + ?d))" using now(2) d(2) u by (simp add: in_int64_def)
  have "0 \<le> ?d" using d(1) second_pos by linarith
  then show ?thesis
    using unix_wait [of ?d ?t] d(1) nn u msg(1) log n i
    by (simp add: getRetryCount_def getRetryWait_def c a decode_order_def order_value_def decode_raw_def)
qed

theorem retry_round_trip_witness:
  "\<exists>w' m. run_state (SendToRetry E0 topics0 msg0 2 (calculateBackoff 2)) w0 = (Inr (), w') \<and>
     getRetryCount m = 2 \<and> getRetryWait second m \<le> 20 * second \<and> cm_Value m = pm_Value (last (kafka_log w'))"
proof -
  define w' where "w' = snd (run_state (SendToRetry E0 topics0 msg0 2 (calculateBackoff 2)) w0)"
  have run: "run_state (SendToRetry E0 topics0 msg0 2 (calculateBackoff 2)) w0 = (Inr (), w')"
    by (simp add: w'_def SendToRetry_def SendEvent_def SendMessage_def run_call_quiet w0_def Let_def)
  let ?m = "\<lparr>cm_Topic = ''retry'', cm_Partition = 0, cm_Offset = 0, cm_Value = pm_Value (last (kafka_log w')),
     cm_Headers = pm_Headers (last (kafka_log w'))\<rparr>"
  have "getRetryCount ?m = 2 \<and> getRetryWait (clock w0) ?m \<le> calculateBackoff 2"
    using retry_round_trip [OF run, of ?m] by (simp add: in_int64_def w0_def MaxRetryDelay_def second_def minute_def)
  moreover have "calculateBackoff 2 = 20 * second"
    by (simp add: backoff_closed RetryBaseDelay_def MaxRetryDelay_def second_def minute_def)
  ultimately show ?thesis using run by (intro exI [of _ w'] exI [of _ ?m]) (simp add: w0_def)
qed

section \<open>A dead letter, recorded and replayed\<close>

text \<open>The positions after a message has been committed.\<close>

definition behind :: "ConsumerMessage \<Rightarrow> world \<Rightarrow> string \<times> int \<Rightarrow> int" where
  "behind m w = (committed w)(partition_of m := max (committed w (partition_of m)) (cm_Offset m + 1))"

lemma recorded_dead_letter:
  fixes w :: world and m :: ConsumerMessage and dlm :: MqDeadLetter
  defines "row \<equiv> dead_letter_row (dlq_record m dlm) (of_nat (auto_id w)) (current_timestamp w)"
  assumes "replies w = []" and "auto_id w < 2 ^ 64" and "\<forall>r \<in> set (dead_letters w). dlr_EventID r \<noteq> dlq_event_id m dlm"
    and "cm_Value m = KDlq dlm"
  shows "run_state (dlq_processMessage (mysqlRepo E) m) w = ((), w\<lparr>auto_id := Suc (auto_id w),
     dead_letters := dead_letters w @ [row], committed := behind m w\<rparr>)"
proof -
  have "\<not> sql_clash same_event row (dead_letters w)"
    using assms(4) by (auto simp: sql_clash_def list_ex_iff same_event_def row_def dead_letter_row_def dlq_record_def)
  then show ?thesis using assms(2,3,5)
    by (simp add: dlq_processMessage_def dlq_handle_def decode_dlq_def mysqlRepo_def mysqlRepo_CreateDeadLetterMessage_def
        insert_on_def run_call_quiet run_bindE commit_offset_def behind_def put_dead_letters_def Let_def row_def)
qed

lemma repeated_dead_letter:
  assumes "replies w = []" and "auto_id w < 2 ^ 64" and "r \<in> set (dead_letters w)" "dlr_EventID r = dlq_event_id m dlm"
    and "cm_Value m = KDlq dlm"
  shows "run_state (dlq_processMessage (mysqlRepo E) m) w = ((), w\<lparr>auto_id := Suc (auto_id w), committed := behind m w\<rparr>)"
proof -
  have "sql_clash same_event (dead_letter_row (dlq_record m dlm) (of_nat (auto_id w)) (current_timestamp w)) (dead_letters w)"
    using assms(3,4) by (auto simp: sql_clash_def list_ex_iff same_event_def dead_letter_row_def dlq_record_def intro!: bexI [of _ r])
  then show ?thesis using assms(1,2,5)
    by (simp add: dlq_processMessage_def dlq_handle_def decode_dlq_def mysqlRepo_def mysqlRepo_CreateDeadLetterMessage_def
        insert_on_def run_call_quiet run_bindE commit_offset_def behind_def Let_def)
qed

lemma found_dead_letter:
  assumes "replies w = []" and "sql_first (\<lambda>r. dlr_EventID r = n) (dead_letters w) = Some r"
  shows "run_state (mysqlRepo_GetDeadLetterMessageByEventID n) w = (Inr (dead_letter r), w)"
  using assms
  by (simp add: mysqlRepo_GetDeadLetterMessageByEventID_def first_on_def query_def run_bindE run_on_error run_call_quiet)

lemma found_last: "\<forall>r \<in> set t. \<not> p r \<Longrightarrow> p x \<Longrightarrow> sql_first p (t @ [x]) = Some x"
  by (simp add: sql_first_def find_append)

lemma status_changes: "dlr_Status r \<noteq> s \<Longrightarrow> r\<lparr>dlr_Status := s\<rparr> \<noteq> r"
  by (cases r) auto

lemma SendToRetry_quiet:
  "replies w = [] \<Longrightarrow> \<exists>w' pm. run_state (SendToRetry E T om n d) w = (Inr (), w') \<and> kafka_log w' = kafka_log w @ [pm] \<and>
     dead_letters w' = dead_letters w \<and> replies w' = [] \<and> pm_Topic pm = tn_SeckillRetry T \<and>
     pm_Value pm = order_value (om\<lparr>msg_RetryCount := n, msg_TraceID := trace_id E, msg_Timestamp := unix (clock w)\<rparr>)"
  by (simp add: SendToRetry_def SendEvent_def SendMessage_def run_call_quiet Let_def)

lemma replayed_dead_letter:
  assumes quiet: "replies w = []" and f: "sql_first (\<lambda>r. dlr_EventID r = k) (dead_letters w) = Some row"
    and row: "dlr_Status row \<noteq> Some ''REPLAYED''" "dl_RawPayload (dead_letter row) = RawOrder om" "dl_RetryCount (dead_letter row) = n"
    and om: "msg_EventID om = k" "k \<noteq> []" and n: "0 \<le> n" "n < 2 ^ 31"
  shows "\<exists>w4 pm ts. run_state (ReplayDeadLetter (wired E T) k) w = (Inr (), w4) \<and>
     kafka_log w4 = kafka_log w @ [pm] \<and> pm_Topic pm = tn_SeckillRetry T \<and>
     pm_Value pm = order_value (om\<lparr>msg_RetryCount := n + 1, msg_TraceID := trace_id E, msg_Timestamp := ts\<rparr>)"
proof -
  let ?msg = "replay_message (dead_letter row) om"
  have "wrap64 (n + 1) = n + 1" using n by simp
  then have c: "msg_RetryCount ?msg = n + 1" using row(3) by (simp add: replay_message_def Let_def)
  have v: "?msg\<lparr>msg_RetryCount := i, msg_TraceID := trace_id E, msg_Timestamp := ts\<rparr> =
      om\<lparr>msg_RetryCount := i, msg_TraceID := trace_id E, msg_Timestamp := ts\<rparr>" for i ts
    using om by (simp add: replay_message_def Let_def)
  obtain w4 pm where s: "run_state (SendToRetry E T ?msg (n + 1) (10 * second)) w = (Inr (), w4)"
    and pm: "kafka_log w4 = kafka_log w @ [pm]" "pm_Topic pm = tn_SeckillRetry T" "dead_letters w4 = dead_letters w"
      "pm_Value pm = order_value (om\<lparr>msg_RetryCount := n + 1, msg_TraceID := trace_id E, msg_Timestamp := unix (clock w)\<rparr>)"
      "replies w4 = []"
    using SendToRetry_quiet [OF quiet, of E T ?msg "n + 1" "10 * second"] v by auto
  have "0 < length (filter (\<lambda>r. dlr_EventID r = k \<and> r\<lparr>dlr_Status := Some ''REPLAYED''\<rparr> \<noteq> r) (dead_letters w4))"
    using sql_first_Some [OF f] row(1) status_changes [of row] pm(3) by (auto simp: filter_empty_conv intro!: bexI [of _ row])
  then obtain w5 where "run_state (mysqlRepo_MarkDeadLetterReplayed k) w4 = (Inr (), w5)" "kafka_log w5 = kafka_log w4"
    using pm(5) by (auto simp: mysqlRepo_MarkDeadLetterReplayed_def exec_on_def sql_exec_def run_bindE run_call_quiet
        put_dead_letters_def list_ex_iff)
  then have "run_state (ReplayDeadLetter (wired E T) k) w = (Inr (), w5)"
    using found_dead_letter [OF quiet f] row(2) s c
    by (simp add: ReplayDeadLetter_def wired_simps mysqlRepo_def producer_def run_bindE decode_raw_def Let_def)
  then show ?thesis using pm \<open>kafka_log w5 = kafka_log w4\<close> by auto
qed

text \<open>C30: the way of a message of the order flow (one with an event id, a count of at most 31 bits) that has been
  sent to the dead-letter topic, when the dead-letter consumer's and the replay's calls are answered.  The
  consumer moves its position behind the message in either of two cases.  If the table has no row of this
  event, the message is recorded: it is found under the event's id with the order, the error, the count and the
  position, and replaying it puts the order back on the retry topic with the next count.  If the table has a row
  of this event already, as after a replayed message has died again, no row changes: the
  old error, count, position and status stay, and what the new dead letter says is dropped.\<close>

theorem dead_letter_round_trip:
  assumes sent: "run_state (SendToDLQ E T om reason n topic part offset) w = (Inr (), w1)"
    and m: "cm_Value m = pm_Value (last (kafka_log w1))" and event: "msg_EventID om \<noteq> []" and n: "0 \<le> n" "n < 2 ^ 31"
    and quiet: "replies w2 = []" and ids: "auto_id w2 < 2 ^ 64"
  shows "\<exists>w3. run_state (dlq_processMessage (mysqlRepo E) m) w2 = ((), w3) \<and> committed w3 = behind m w2 \<and>
     (case sql_first (\<lambda>r. dlr_EventID r = msg_EventID om) (dead_letters w2) of
        None \<Rightarrow> \<exists>dl w4 pm ts. run_state (mysqlRepo_GetDeadLetterMessageByEventID (msg_EventID om)) w3 = (Inr dl, w3) \<and>
          decode_raw (dl_RawPayload dl) = Inr (om\<lparr>msg_TraceID := trace_id E\<rparr>) \<and> dl_ErrorMessage dl = reason \<and>
          dl_RetryCount dl = n \<and> dl_Topic dl = topic \<and> dl_Partition dl = part \<and> dl_Offset dl = offset \<and>
          run_state (ReplayDeadLetter (wired E T) (msg_EventID om)) w3 = (Inr (), w4) \<and>
          kafka_log w4 = kafka_log w3 @ [pm] \<and> pm_Topic pm = tn_SeckillRetry T \<and>
          pm_Value pm = order_value (om\<lparr>msg_RetryCount := n + 1, msg_TraceID := trace_id E, msg_Timestamp := ts\<rparr>)
      | Some r \<Rightarrow> dead_letters w3 = dead_letters w2 \<and> kafka_log w3 = kafka_log w2 \<and>
          run_state (mysqlRepo_GetDeadLetterMessageByEventID (msg_EventID om)) w3 = (Inr (dead_letter r), w3))"
proof -
  let ?om = "om\<lparr>msg_TraceID := trace_id E\<rparr>"
  obtain t where d: "cm_Value m = KDlq \<lparr>dlm_EventID = msg_EventID om, dlm_Topic = topic, dlm_Partition = part,
      dlm_Offset = offset, dlm_OriginalMsg = ?om, dlm_RawPayload = RawText [], dlm_LastError = reason, dlm_RetryCount = n,
      dlm_NextRetryAt = t\<rparr>" (is "_ = KDlq ?dlm")
    using sent m SendMessage_Inr by (auto simp: SendToDLQ_def SendEvent_def Let_def)
  have ev: "dlq_event_id m ?dlm = msg_EventID om" using event by (simp add: dlq_event_id_def)
  show ?thesis
  proof (cases "sql_first (\<lambda>r. dlr_EventID r = msg_EventID om) (dead_letters w2)")
    case (Some r)
    then have "run_state (dlq_processMessage (mysqlRepo E) m) w2 = ((), w2\<lparr>auto_id := Suc (auto_id w2), committed := behind m w2\<rparr>)"
      using repeated_dead_letter [OF quiet ids _ _ d] sql_first_Some [OF Some] ev by metis
    then show ?thesis using Some quiet by (simp add: found_dead_letter)
  next
    case None
    then have fresh: "\<forall>r \<in> set (dead_letters w2). dlr_EventID r \<noteq> msg_EventID om" by (simp add: sql_first_None)
    let ?row = "dead_letter_row (dlq_record m ?dlm) (of_nat (auto_id w2)) (current_timestamp w2)"
    let ?w3 = "w2\<lparr>auto_id := Suc (auto_id w2), dead_letters := dead_letters w2 @ [?row], committed := behind m w2\<rparr>"
    have r3: "run_state (dlq_processMessage (mysqlRepo E) m) w2 = ((), ?w3)"
      by (rule recorded_dead_letter [OF quiet ids _ d]) (use fresh ev in simp)
    have f: "sql_first (\<lambda>r. dlr_EventID r = msg_EventID om) (dead_letters ?w3) = Some ?row"
      using fresh ev by (simp add: found_last dead_letter_row_def dlq_record_def)
    have q: "replies ?w3 = []" using quiet by simp
    have row: "dl_RawPayload (dead_letter ?row) = RawOrder ?om" "dl_ErrorMessage (dead_letter ?row) = reason"
      "dl_RetryCount (dead_letter ?row) = n" "dl_Topic (dead_letter ?row) = topic" "dl_Partition (dead_letter ?row) = part"
      "dl_Offset (dead_letter ?row) = offset" "dlr_Status ?row \<noteq> Some ''REPLAYED''"
      using n ev by (simp_all add: dead_letter_def dead_letter_row_def dlq_record_def)
    have "\<exists>w4 pm ts. run_state (ReplayDeadLetter (wired E T) (msg_EventID om)) ?w3 = (Inr (), w4) \<and>
       kafka_log w4 = kafka_log ?w3 @ [pm] \<and> pm_Topic pm = tn_SeckillRetry T \<and>
       pm_Value pm = order_value (?om\<lparr>msg_RetryCount := n + 1, msg_TraceID := trace_id E, msg_Timestamp := ts\<rparr>)"
      by (rule replayed_dead_letter [OF q f row(7,1,3)]) (use event n in simp_all)
    then show ?thesis using r3 found_dead_letter [OF q f] row None by (auto simp: decode_raw_def)
  qed
qed

theorem dead_letter_round_trip_witness:
  "\<exists>w3 dl. run_state (mysqlRepo_GetDeadLetterMessageByEventID ''e1'') w3 = (Inr dl, w3) \<and>
     dl_ErrorMessage dl = ''no stock'' \<and> dl_RetryCount dl = 3 \<and> dl_Offset dl = 4"
proof -
  let ?om = "msg0\<lparr>msg_EventID := ''e1''\<rparr>"
  define w1 where "w1 = snd (run_state (SendToDLQ E0 topics0 ?om ''no stock'' 3 ''order'' 0 4) w0)"
  have run: "run_state (SendToDLQ E0 topics0 ?om ''no stock'' 3 ''order'' 0 4) w0 = (Inr (), w1)"
    by (simp add: w1_def SendToDLQ_def SendEvent_def SendMessage_def run_call_quiet w0_def Let_def)
  let ?m = "\<lparr>cm_Topic = ''dlq'', cm_Partition = 0, cm_Offset = 0, cm_Value = pm_Value (last (kafka_log w1)), cm_Headers = []\<rparr>"
  from dead_letter_round_trip [OF run, of ?m w0] show ?thesis by (auto simp: w0_def sql_first_def)
qed

end
