(* ===== verification/Queue_Safety.thy ===== *)
theory Queue_Safety
  imports Message_Safety
begin

text \<open>
  The delay queue: an order that was scheduled stays in one of the two sorted sets until its
  cancellation has succeeded, whatever is claimed, requeued, lost or refused in between; what a
  poll claims; when the next poll is.
\<close>

section \<open>The two sets\<close>

text \<open>A sorted set as it is stored: without an expiry, and not stored at all when it is empty.\<close>

definition stored_zset :: "string \<Rightarrow> world \<Rightarrow> (string \<times> int) list option" where
  "stored_zset k w = (case map_of (keyspace w) k of
       None \<Rightarrow> Some []
     | Some (RZset z, None) \<Rightarrow> Some z
     | Some _ \<Rightarrow> None)"

definition two_sets :: "string \<Rightarrow> string \<Rightarrow> world \<Rightarrow> (string \<times> int) list \<Rightarrow> (string \<times> int) list \<Rightarrow> bool" where
  "two_sets src dst w p q \<longleftrightarrow> src \<noteq> dst \<and> stored_zset src w = Some p \<and> stored_zset dst w = Some q \<and>
     distinct (map fst p) \<and> distinct (map fst q)"

definition members :: "(string \<times> int) list \<Rightarrow> (string \<times> int) list \<Rightarrow> string set" where
  "members p q = fst ` set p \<union> fst ` set q"

lemma keys_update: "fst ` set (AList.update k v z) = insert k (fst ` set z)"
  by (simp add: dom_map_of_conv_image_fst [symmetric] update_conv')

lemma keys_delete: "fst ` set (AList.delete k z) = fst ` set z - {k}"
  by (simp add: dom_map_of_conv_image_fst [symmetric] delete_conv')

lemma stored_zset_zset: "stored_zset k w = Some z \<Longrightarrow> zset k w = Inr z"
  by (auto simp: stored_zset_def zset_def rlookup_def split: option.splits prod.splits rval.splits)

lemma stored_zset_replies [simp]: "stored_zset k (w\<lparr>replies := rs\<rparr>) = stored_zset k w"
  by (simp add: stored_zset_def)

lemma stored_zput: "stored_zset k' w = Some z' \<Longrightarrow> stored_zset k (zput k' z w) = (if k = k' then Some z else stored_zset k w)"
  by (auto simp: stored_zset_def zput_def rexpiry_def rexists_def rlookup_def split: option.splits prod.splits rval.splits)

lemma two_sets_swap: "two_sets src dst w p q \<longleftrightarrow> two_sets dst src w q p"
  by (auto simp: two_sets_def)

lemma two_sets_replies [simp]: "two_sets src dst (w\<lparr>replies := rs\<rparr>) p q = two_sets src dst w p q"
  by (simp add: two_sets_def)

lemma two_sets_step:
  assumes "two_sets src dst w p q"
  shows "two_sets src dst (zput src (AList.delete m p) w) (AList.delete m p) q"
    and "two_sets src dst (zput dst (AList.update m s q) w) p (AList.update m s q)"
  using assms by (auto simp: two_sets_def stored_zput distinct_update intro: distinct_delete)

text \<open>Moving items between the sets loses none.\<close>

lemma move_items_members:
  assumes "two_sets src dst w p q"
  shows "\<exists>p' q'. two_sets src dst (snd (move_items src dst s ms w)) p' q' \<and> members p' q' = members p q"
  using assms
proof (induction ms arbitrary: w p q)
  case (Cons m ms)
  have z: "zset src w = Inr p" using Cons.prems stored_zset_zset by (simp add: two_sets_def)
  show ?case
  proof (cases "map_of p m = None")
    case True
    then have "move_items src dst s (m # ms) w = move_items src dst s ms w" using z by (simp add: cmd_ZREM_def)
    then show ?thesis using Cons.IH [OF Cons.prems] by simp
  next
    case False
    let ?w1 = "zput src (AList.delete m p) w" and ?q = "AList.update m s q"
    let ?w2 = "zput dst ?q ?w1"
    have t1: "two_sets src dst ?w1 (AList.delete m p) q" by (rule two_sets_step [OF Cons.prems])
    have t2: "two_sets src dst ?w2 (AList.delete m p) ?q" by (rule two_sets_step [OF t1])
    have zd: "zset dst w = Inr q" "src \<noteq> dst" using Cons.prems stored_zset_zset by (auto simp: two_sets_def)
    obtain y where y: "map_of p m = Some y" using False by auto
    have e: "snd (move_items src dst s (m # ms) w) = snd (move_items src dst s ms ?w2)"
      using y z zd by (simp add: cmd_ZREM_def cmd_ZADD_def split: prod.split sum.split)
    have "m \<in> fst ` set p" using False by (metis map_of_eq_None_iff)
    then have "members (AList.delete m p) ?q = members p q"
      by (auto simp: members_def keys_update keys_delete)
    then show ?thesis using Cons.IH [OF t2] e by simp
  qed
qed auto

section \<open>Runs of the queue\<close>

text \<open>
  The operations on the queue: an order is added, a poll runs, the goroutine of a claimed order
  runs, time passes.  Running one says which order's cancellation has succeeded in it.
\<close>

datatype queue_op = QAdd string Time | QPoll | QCancel string | QWait Time

fun queue_step :: "env \<Rightarrow> OrderCancelService \<Rightarrow> queue_op \<Rightarrow> world \<Rightarrow> string list \<times> world" where
  "queue_step E s (QAdd n d) w = ([], snd (run_state (DelayQueue_Add n d) w))"
| "queue_step E s QPoll w = ([], snd (run_state runOnce w))"
| "queue_step E s (QCancel n) w =
     (if isl (fst (run_state (handleTimeout E s n) w)) then [] else [n], snd (run_state (cancelTask E s n) w))"
| "queue_step E s (QWait d) w = ([], snd (run_state (Sleep d) w))"

fun queue_run :: "env \<Rightarrow> OrderCancelService \<Rightarrow> queue_op list \<Rightarrow> world \<Rightarrow> string list \<times> world" where
  "queue_run E s [] w = ([], w)"
| "queue_run E s (x # xs) w = (case queue_step E s x w of (c, w1) \<Rightarrow>
     case queue_run E s xs w1 of (cs, w2) \<Rightarrow> (c @ cs, w2))"

text \<open>The queue is well formed, and an order is scheduled when it is in one of its sets.\<close>

definition queue_sets :: "world \<Rightarrow> string set \<Rightarrow> bool" where
  "queue_sets w X \<longleftrightarrow> (\<exists>p q. two_sets delayQueueKey delayProcessingKey w p q \<and> members p q = X)"

lemma queue_sets_replies [simp]: "queue_sets (w\<lparr>replies := rs\<rparr>) X = queue_sets w X"
  by (simp add: queue_sets_def)

text \<open>What an operation that cannot remove an order does to the queue, with any reply to its call.\<close>

definition never_drops :: "(world, 'a) state \<Rightarrow> bool" where
  "never_drops m \<longleftrightarrow> (\<forall>w X. queue_sets w X \<longrightarrow> (\<exists>Y. X \<subseteq> Y \<and> queue_sets (snd (run_state m w)) Y))"

lemma never_dropsD: "never_drops m \<Longrightarrow> queue_sets w X \<Longrightarrow> \<exists>Y. X \<subseteq> Y \<and> queue_sets (snd (run_state m w)) Y"
  by (simp add: never_drops_def)

lemma drops_bind: "never_drops m \<Longrightarrow> (\<And>x. never_drops (k x)) \<Longrightarrow> never_drops (State_Monad.bind m k)"
  unfolding never_drops_def by (simp add: case_prod_beta) (metis order_trans)

lemma drops_call:
  assumes "\<And>w X. queue_sets w X \<Longrightarrow> \<exists>Y. X \<subseteq> Y \<and> queue_sets (snd (f w)) Y"
  shows "never_drops (call f)"
  unfolding never_drops_def
proof (intro allI impI)
  fix w X assume q: "queue_sets w X"
  obtain r w' where run: "run_state (call f) w = (r, w')" by fastforce
  from run have "\<exists>Y. X \<subseteq> Y \<and> queue_sets w' Y"
    by (cases rule: call_cases) (use q assms in \<open>auto, metis queue_sets_replies snd_conv\<close>)
  then show "\<exists>Y. X \<subseteq> Y \<and> queue_sets (snd (run_state (call f) w)) Y" using run by simp
qed

lemma drops_same:
  assumes "same (\<lambda>w. (map_of (keyspace w) delayQueueKey, map_of (keyspace w) delayProcessingKey)) m"
  shows "never_drops m"
proof -
  have "queue_sets (snd (run_state m w)) X = queue_sets w X" for w X
    using same_snd [OF assms, of w] by (simp add: queue_sets_def two_sets_def stored_zset_def)
  then show ?thesis by (auto simp: never_drops_def)
qed

lemma drops_Now: "never_drops Now"
  by (rule drops_same) (intro frame)

lemma drops_return: "never_drops (return x)"
  by (rule drops_same) (intro frame)

lemma drops_query: "never_drops (query f)"
  by (rule drops_same) (intro frame; simp)

lemma drops_if: "never_drops m \<Longrightarrow> never_drops n \<Longrightarrow> never_drops (if b then m else n)"
  by simp

lemma drops_case_sum: "(\<And>e. never_drops (f e)) \<Longrightarrow> (\<And>x. never_drops (g x)) \<Longrightarrow> never_drops (case r of Inl e \<Rightarrow> f e | Inr x \<Rightarrow> g x)"
  by (cases r) simp_all

lemmas drops_rules = drops_bind drops_Now drops_return drops_query drops_if drops_case_sum

lemma add_keeps:
  assumes "queue_sets w X"
  shows "queue_sets (snd (cmd_ZADD delayQueueKey s n w)) (insert n X)"
proof -
  obtain p q where t: "two_sets delayQueueKey delayProcessingKey w p q" and X: "members p q = X"
    using assms by (auto simp: queue_sets_def)
  have "cmd_ZADD delayQueueKey s n w = (Inr (), zput delayQueueKey (AList.update n s p) w)"
    using t stored_zset_zset by (auto simp: cmd_ZADD_def two_sets_def)
  moreover have "two_sets delayQueueKey delayProcessingKey (zput delayQueueKey (AList.update n s p) w) (AList.update n s p) q"
    using two_sets_step(2) [of delayProcessingKey delayQueueKey w q p n s] t by (simp add: two_sets_swap)
  moreover have "members (AList.update n s p) q = insert n X"
    using X by (simp add: members_def keys_update)
  ultimately show ?thesis by (auto simp: queue_sets_def)
qed

lemma drops_Add: "never_drops (DelayQueue_Add n d)"
  unfolding DelayQueue_Add_def by (intro drops_rules drops_call) (use add_keeps in blast)

lemma claim_keeps: "queue_sets w X \<Longrightarrow> queue_sets (snd (claim_script delayQueueKey delayProcessingKey now t l w)) X"
  unfolding queue_sets_def using move_items_members stored_zset_zset
  by (auto simp: claim_script_def two_sets_def split: sum.split)

lemma queue_sets_alt:
  "queue_sets w X \<longleftrightarrow> (\<exists>p q. two_sets delayProcessingKey delayQueueKey w q p \<and> members q p = X)"
  by (simp add: queue_sets_def two_sets_swap [of delayQueueKey delayProcessingKey] members_def Un_commute)

lemma requeue_keeps:
  assumes "queue_sets w X"
  shows "queue_sets (snd (requeue_script delayProcessingKey delayQueueKey now l w)) X"
proof -
  obtain p q where t: "two_sets delayProcessingKey delayQueueKey w q p" and X: "members q p = X"
    using assms by (auto simp: queue_sets_alt)
  have "snd (requeue_script delayProcessingKey delayQueueKey now l w) =
      snd (move_items delayProcessingKey delayQueueKey now (zrange_due now l q) w)"
    using t stored_zset_zset by (auto simp: requeue_script_def two_sets_def split: prod.split sum.split)
  then show ?thesis using move_items_members [OF t] X unfolding queue_sets_alt by metis
qed

lemma drops_next: "never_drops nextPollTime"
  by (rule drops_same) (unfold nextPollTime_def rdb_ZFirst_def Let_def, intro frame; simp)

lemma drops_claim: "never_drops (claimDueOrders l)"
  unfolding claimDueOrders_def by (intro drops_rules drops_call) (use claim_keeps in blast)

lemma drops_requeue: "never_drops requeueExpiredProcessing"
  unfolding requeueExpiredProcessing_def by (intro drops_rules drops_call) (use requeue_keeps in blast)

lemma drops_poll: "never_drops runOnce"
  unfolding runOnce_def by (intro drops_rules drops_next drops_claim drops_requeue)

text \<open>A cancellation touches the queue only by removing its order from the processing set, after it succeeded.\<close>

lemma delay_keys_differ:
  "order_lock_key n \<noteq> delayQueueKey" "order_lock_key n \<noteq> delayProcessingKey" "stock_key a k \<noteq> delayQueueKey"
  "stock_key a k \<noteq> delayProcessingKey" "buy_key a k u \<noteq> delayQueueKey" "buy_key a k u \<noteq> delayProcessingKey"
  by (simp_all add: order_lock_key_def delayQueueKey_def delayProcessingKey_def key_defs)

lemma cancel_tx_keys: "same keyspace (ExecTx (cancel_body (orderCancelService E) n))"
proof (rule same_ExecTx)
  show "same keyspace (cancel_body (orderCancelService E) n)"
    unfolding cancel_body_def orderCancelService_def OrderCancelService.select_convs
    by (intro frame; simp add: mysqlRepo_def mysqlRepo_GetOrderForUpdate_def mysqlRepo_UpdateOrderStatus_def
        mysqlRepo_RestoreStock_def mysqlRepo_RestoreUserCoupon_def; intro frame; simp add: put_defs)
qed simp_all

lemma handle_keys:
  assumes "k \<in> {delayQueueKey, delayProcessingKey}"
  shows "same (\<lambda>w. map_of (keyspace w) k) (handleTimeout E (orderCancelService E) n)"
proof -
  have k: "k \<noteq> order_lock_key m" "k \<noteq> stock_key a s" "k \<noteq> buy_key a s u" for m a s u
    using assms delay_keys_differ by auto
  have tx: "same (\<lambda>w. map_of (keyspace w) k) (ExecTx (cancel_body (orderCancelService E) n))"
    using cancel_tx_keys by (rule same_comp)
  have incr: "same (\<lambda>w. map_of (keyspace w) k) (redisRepo_RollbackStock a s q)" for a s q
    unfolding redisRepo_RollbackStock_def rdb_IncrBy_def by (intro frame) (simp_all add: k split: sum.split)
  have rel: "same (\<lambda>w. map_of (keyspace w) k) (call (release_script (order_lock_key m) t))" for m t
    by (rule same_call) (simp_all add: k release_script_def split: option.split rval.split)
  have nx: "same (\<lambda>w. map_of (keyspace w) k) (rdb_SetNX (order_lock_key m) v t)" for m v t
    unfolding rdb_SetNX_def by (rule same_call) (simp_all add: k)
  show ?thesis
    unfolding handleTimeout_def CancelTimeoutOrder_def redisRepo_RemoveUserBuy_def
    by (intro frame tx incr rel nx key_same; simp add: orderCancelService_def redisRepo_def incr redisRepo_RemoveUserBuy_def key_same k)
qed

lemma drops_handle: "never_drops (handleTimeout E (orderCancelService E) n)"
  by (rule drops_same, rule same_pair) (rule handle_keys, simp)+

lemma rem_keeps:
  assumes "queue_sets w X"
  shows "\<exists>Y. X \<subseteq> insert n Y \<and> queue_sets (snd (cmd_ZREM delayProcessingKey n w)) Y"
proof -
  obtain p q where t: "two_sets delayProcessingKey delayQueueKey w q p" and X: "members q p = X"
    using assms by (auto simp: queue_sets_alt)
  have "snd (cmd_ZREM delayProcessingKey n w) = w \<or>
      snd (cmd_ZREM delayProcessingKey n w) = zput delayProcessingKey (AList.delete n q) w"
    using t stored_zset_zset by (auto simp: cmd_ZREM_def two_sets_def)
  moreover have "X \<subseteq> insert n (members (AList.delete n q) p)" using X by (auto simp: members_def keys_delete)
  ultimately show ?thesis using two_sets_step(1) [OF t, of n] assms unfolding queue_sets_alt by (metis subset_insertI)
qed

lemma rem_call:
  assumes "queue_sets w X" and "run_state (call (cmd_ZREM delayProcessingKey n)) w = (r, w')"
  shows "\<exists>Y. X \<subseteq> insert n Y \<and> queue_sets w' Y"
  using assms(2)
proof (cases rule: call_cases)
  case (answered rs)
  then show ?thesis using rem_keeps [of "w\<lparr>replies := rs\<rparr>" X n] assms(1) by (metis queue_sets_replies snd_conv)
next
  case (refused d rs)
  then show ?thesis using assms(1) by auto
next
  case (lost d rs)
  then show ?thesis using rem_keeps [of "w\<lparr>replies := rs\<rparr>" X n] assms(1) by simp
qed

lemma queue_step_keeps:
  assumes "queue_sets w X" and "queue_step E (orderCancelService E) x w = (c, w')"
  shows "\<exists>Y. X \<subseteq> Y \<union> set c \<and> queue_sets w' Y"
proof (cases x)
  case (QCancel n)
  obtain r w1 where h: "run_state (handleTimeout E (orderCancelService E) n) w = (r, w1)" by fastforce
  obtain Y where Y: "X \<subseteq> Y" "queue_sets w1 Y" 
    using never_dropsD [OF drops_handle [of E n] assms(1)] unfolding h by auto
  show ?thesis
  proof (cases r)
    case (Inl e)
    then show ?thesis using Y h QCancel assms(2) by (auto simp: cancelTask_def)
  next
    case (Inr u)
    obtain q w2 where z: "run_state (call (cmd_ZREM delayProcessingKey n)) w1 = (q, w2)" by fastforce
    have "w' = w2" and c: "c = [n]" using h z Inr QCancel assms(2) by (auto simp: cancelTask_def)
    moreover have "\<exists>Z. Y \<subseteq> insert n Z \<and> queue_sets w2 Z" using rem_call [OF Y(2) z] .
    ultimately show ?thesis using Y(1) by auto
  qed
next
  case (QWait d)
  have "never_drops (Sleep d)" by (rule drops_same) (intro frame; simp)
  from never_dropsD [OF this assms(1)] show ?thesis using QWait assms(2) by simp
next
  case (QAdd n d)
  then show ?thesis using never_dropsD [OF drops_Add assms(1), of n d] assms(2) by simp
next
  case QPoll
  then show ?thesis using never_dropsD [OF drops_poll assms(1)] assms(2) by simp
qed

text \<open>C22: whatever is added, claimed, requeued and cancelled, in any order, with any call refused and any answer
  lost, every order of the queue stays in one of its two sets until its cancellation has returned without an
  error.\<close>

theorem scheduled_until_cancelled:
  assumes "queue_sets w X" and "queue_run E (orderCancelService E) xs w = (cs, w')"
  shows "\<exists>Y. queue_sets w' Y \<and> X \<subseteq> Y \<union> set cs"
  using assms
proof (induction xs arbitrary: w X cs)
  case (Cons x xs)
  obtain c w1 cs1 where s: "queue_step E (orderCancelService E) x w = (c, w1)"
    and r: "queue_run E (orderCancelService E) xs w1 = (cs1, w')" and cs: "cs = c @ cs1"
    using Cons.prems(2) by (auto split: prod.splits)
  obtain Y where Y: "X \<subseteq> Y \<union> set c" "queue_sets w1 Y" using queue_step_keeps [OF Cons.prems(1) s] by blast
  obtain Z where "queue_sets w' Z" "Y \<subseteq> Z \<union> set cs1" using Cons.IH [OF Y(2) r] by blast
  then show ?case using Y(1) cs by auto
qed auto

definition queue_world :: world where
  "queue_world = world1\<lparr>keyspace := [(delayQueueKey, RZset [(''n1'', 1), (''n2'', 1000)], None)]\<rparr>"

lemma queue_world_sets: "queue_sets queue_world {''n1'', ''n2''}"
  by (auto simp: queue_sets_def two_sets_def stored_zset_def queue_world_def members_def delayQueueKey_def
      delayProcessingKey_def intro!: exI [of _ "[(''n1'', 1), (''n2'', 1000)]"] exI [of _ "[]"])

theorem scheduled_until_cancelled_witness:
  "\<exists>Y. queue_sets (snd (queue_run E0 (orderCancelService E0) [QPoll, QCancel ''n1'', QWait minute, QPoll] queue_world)) Y \<and>
     ''n2'' \<in> Y \<union> set (fst (queue_run E0 (orderCancelService E0) [QPoll, QCancel ''n1'', QWait minute, QPoll] queue_world))"
  using scheduled_until_cancelled [OF queue_world_sets surjective_pairing, where E = E0] by blast

section \<open>What a poll claims\<close>

lemma zrange_due_complete:
  assumes "length (zrange_due now l z) < l" and "map_of z n = Some s" and "s \<le> now"
  shows "n \<in> set (zrange_due now l z)"
proof -
  have "(n, s) \<in> set (filter (\<lambda>x. snd x \<le> now) (zsorted z))" using assms(2,3) map_of_SomeD by fastforce
  then show ?thesis using assms(1) by (auto simp: zrange_due_def intro!: image_eqI [of _ fst "(n, s)"])
qed

text \<open>C24: with its call answered, a claim takes orders whose time has come, each once and at most the limit, and
  all of them when there are fewer; it moves exactly these to the processing set, to be requeued after a minute
  if nothing finishes them, and leaves every other order where it is.\<close>

theorem claim_takes_the_due_orders:
  assumes "replies w = []" and "two_sets delayQueueKey delayProcessingKey w p q"
  shows "\<exists>due w' p' q'. run_state (claimDueOrders limit) w = (Inr due, w') \<and> distinct due \<and> length due \<le> limit \<and>
     (\<forall>n \<in> set due. \<exists>s \<le> unix (clock w). map_of p n = Some s) \<and>
     (length due < limit \<longrightarrow> (\<forall>n s. map_of p n = Some s \<and> s \<le> unix (clock w) \<longrightarrow> n \<in> set due)) \<and>
     zset delayQueueKey w' = Inr p' \<and> zset delayProcessingKey w' = Inr q' \<and> map_of p' = map_of p |` (- set due) \<and>
     map_of q' = (\<lambda>x. if x \<in> set due then Some (unix (clock w + processingTimeout)) else map_of q x)"
proof -
  let ?now = "unix (clock w)"
  have z: "delayQueueKey \<noteq> delayProcessingKey" "zset delayQueueKey w = Inr p" "zset delayProcessingKey w = Inr q"
    "distinct (map fst p)"
    using assms(2) stored_zset_zset by (auto simp: two_sets_def)
  obtain p' q' w' where c: "claim_script delayQueueKey delayProcessingKey ?now (unix (clock w + processingTimeout)) limit w =
      (Inr (zrange_due ?now limit p), w')" "zset delayQueueKey w' = Inr p'" "zset delayProcessingKey w' = Inr q'"
    "map_of p' = map_of p |` (- set (zrange_due ?now limit p))"
    "map_of q' = (\<lambda>x. if x \<in> set (zrange_due ?now limit p) then Some (unix (clock w + processingTimeout)) else map_of q x)"
    using claim_effect [OF z, of ?now "unix (clock w + processingTimeout)" limit] by blast
  note zrange_due_complete [of ?now limit p]
  moreover have "run_state (claimDueOrders limit) w = (Inr (zrange_due ?now limit p), w')"
    using assms(1) c(1) by (simp add: claimDueOrders_def run_call_quiet)
  moreover have "length (zrange_due ?now limit p) \<le> limit" by (simp add: zrange_due_def)
  ultimately show ?thesis using c zrange_due_distinct [OF z(4)] zrange_due_score [OF z(4)] by blast
qed

theorem claim_takes_the_due_orders_witness:
  "\<exists>due w'. run_state (claimDueOrders 100) queue_world = (Inr due, w') \<and> ''n1'' \<in> set due \<and> ''n2'' \<notin> set due"
proof -
  let ?p = "[(''n1'', 1), (''n2'', 1000)] :: (string \<times> int) list"
  have 1: "replies queue_world = []" "two_sets delayQueueKey delayProcessingKey queue_world ?p []"
    by (simp_all add: queue_world_def world1_def w0_def two_sets_def stored_zset_def delayQueueKey_def delayProcessingKey_def)
  have 2: "unix (clock queue_world) = 1" by (simp add: queue_world_def world1_def w0_def unix_def second_def)
  obtain due w' where c: "run_state (claimDueOrders 100) queue_world = (Inr due, w')" "length due \<le> 100" "distinct due"
    "\<forall>n \<in> set due. \<exists>s \<le> 1. map_of ?p n = Some s"
    "length due < 100 \<longrightarrow> (\<forall>n s. map_of ?p n = Some s \<and> s \<le> 1 \<longrightarrow> n \<in> set due)"
    using claim_takes_the_due_orders [OF 1, of 100] unfolding 2 by blast
  have "set due \<subseteq> {''n1''}" using c(4) by (auto split: if_splits)
  then have "card (set due) \<le> 1" by (metis card_mono finite.emptyI finite_insert is_singletonI is_singleton_altdef)
  then have "length due < 100" using c(3) by (simp add: distinct_card)
  then have "''n1'' \<in> set due" using c(5) by simp
  then show ?thesis using c(1) \<open>set due \<subseteq> {''n1''}\<close> by auto
qed

text \<open>The poller never sleeps less than a second or more than thirty seconds, whatever the queue holds and
  whether Redis answers.\<close>

lemma poll_interval_bounds:
  "clock w + minPollInterval \<le> fst (run_state nextPollTime w) \<and> fst (run_state nextPollTime w) \<le> clock w + maxPollInterval"
proof -
  obtain r w1 where z: "run_state (rdb_ZFirst delayQueueKey) w = (r, w1)" by fastforce
  have "clock w1 = clock w" using z by (rule sameD [rotated]) (unfold rdb_ZFirst_def, intro frame; simp)
  then show ?thesis using z
    by (cases r) (auto simp: nextPollTime_def Let_def minPollInterval_def maxPollInterval_def second_def split: option.splits)
qed

section \<open>Every order comes up\<close>

lemma zrange_due_length: "length (zrange_due now l z) \<le> length z"
  using length_filter_le [of "\<lambda>p. snd p \<le> now" "zsorted z"] by (simp add: zrange_due_def zsorted_def min.coboundedI1)

lemma move_items_replies: "replies (snd (move_items src dst s ms w)) = replies w"
proof (induction ms arbitrary: w)
  case (Cons m ms)
  have "replies (snd (cmd_ZREM src m w)) = replies w" "replies (snd (cmd_ZADD dst s m w)) = replies w" for w
    by (simp_all add: cmd_ZREM_def cmd_ZADD_def split: sum.split)
  then show ?case using Cons.IH by (auto split: prod.split sum.split) (metis snd_conv)+
qed simp

lemma requeue_two_sets:
  assumes quiet: "replies w = []" and t: "two_sets delayQueueKey delayProcessingKey w p q"
  obtains p' q' w' where "run_state requeueExpiredProcessing w = ((), w')" and "replies w' = []"
    and "clock w' = clock w" and "two_sets delayQueueKey delayProcessingKey w' p' q'"
    and "members p' q' = members p q"
    and "map_of p' = (\<lambda>x. if x \<in> set (zrange_due (unix (clock w)) delay_batchSize q) then Some (unix (clock w)) else map_of p x)"
proof -
  let ?now = "unix (clock w)"
  let ?due = "zrange_due ?now delay_batchSize q"
  have t': "two_sets delayProcessingKey delayQueueKey w q p" using t by (simp add: two_sets_swap)
  have z: "delayProcessingKey \<noteq> delayQueueKey" "zset delayProcessingKey w = Inr q" "zset delayQueueKey w = Inr p"
    "distinct (map fst q)"
    using t' stored_zset_zset by (auto simp: two_sets_def)
  obtain q1 p1 w1 where c: "requeue_script delayProcessingKey delayQueueKey ?now delay_batchSize w = (Inr ?due, w1)"
    "zset delayProcessingKey w1 = Inr q1" "zset delayQueueKey w1 = Inr p1"
    "map_of p1 = (\<lambda>x. if x \<in> set ?due then Some ?now else map_of p x)"
    using requeue_effect [OF z, of ?now delay_batchSize] by blast
  have w1: "w1 = snd (move_items delayProcessingKey delayQueueKey ?now ?due w)"
    using c(1) z(2) by (auto simp: requeue_script_def split: prod.splits sum.splits)
  obtain q2 p2 where t2: "two_sets delayProcessingKey delayQueueKey w1 q2 p2" "members q2 p2 = members q p"
    using move_items_members [OF t'] unfolding w1 by blast
  have "q2 = q1" "p2 = p1" using t2(1) c(2,3) stored_zset_zset by (auto simp: two_sets_def)
  moreover have "replies w1 = []" "clock w1 = clock w" using quiet w1
    by (simp_all add: neutral_move_items redis_neutral_fields move_items_replies)
  moreover have "run_state requeueExpiredProcessing w = ((), w1)"
    using quiet c(1) by (simp add: requeueExpiredProcessing_def run_call_quiet)
  ultimately show ?thesis using that t2 c(4)
    by (simp add: two_sets_swap [of delayProcessingKey] members_def Un_commute)
qed

text \<open>C23: an order of the queue whose time has come, waiting or claimed before and not finished in its minute, is in
  the result of the next poll that Redis answers, as long as fewer than a hundred orders are in the queue.\<close>

theorem due_order_is_claimed:
  assumes "replies w = []" and t: "two_sets delayQueueKey delayProcessingKey w p q"
    and few: "length p + length q < delay_batchSize"
    and n: "map_of p n = Some s \<or> map_of q n = Some s" and s: "s \<le> unix (clock w)"
  shows "\<exists>due next w'. run_state runOnce w = ((due, next), w') \<and> n \<in> set due"
proof -
  let ?now = "unix (clock w)"
  obtain p' q' w1 where r: "run_state requeueExpiredProcessing w = ((), w1)" and q1: "replies w1 = []" "clock w1 = clock w"
    and t1: "two_sets delayQueueKey delayProcessingKey w1 p' q'" and mem: "members p' q' = members p q"
    and p': "map_of p' = (\<lambda>x. if x \<in> set (zrange_due ?now delay_batchSize q) then Some ?now else map_of p x)"
    by (rule requeue_two_sets [OF assms(1) t])
  have z: "delayQueueKey \<noteq> delayProcessingKey" "zset delayQueueKey w1 = Inr p'" "zset delayProcessingKey w1 = Inr q'"
    "distinct (map fst p')"
    using t1 stored_zset_zset by (auto simp: two_sets_def)
  let ?due = "zrange_due ?now delay_batchSize p'"
  obtain w2 where c: "run_state (claimDueOrders delay_batchSize) w1 = (Inr ?due, w2)"
    using claim_effect [OF z, of ?now "unix (clock w1 + processingTimeout)" delay_batchSize] q1
    by (auto simp: claimDueOrders_def run_call_quiet)
  have "length (zrange_due ?now delay_batchSize q) < delay_batchSize" using zrange_due_length [of ?now delay_batchSize q] few by linarith
  then have "\<exists>s' \<le> ?now. map_of p' n = Some s'"
    using n s zrange_due_complete unfolding p' by (metis order_refl)
  moreover have "length ?due < delay_batchSize"
  proof -
    have "set ?due \<subseteq> members p' q'" using zrange_due_in [of _ ?now delay_batchSize p'] by (force simp: members_def)
    then have sub: "set ?due \<subseteq> members p q" using mem by simp
    have "length ?due = card (set ?due)" using zrange_due_distinct [OF z(4)] by (simp add: distinct_card)
    also have "\<dots> \<le> card (members p q)"
      using sub by (intro card_mono) (simp_all add: members_def)
    also have "\<dots> \<le> length p + length q"
      unfolding members_def by (metis (no_types) add_mono card_Un_le card_length length_map list.set_map order_trans)
    finally show ?thesis using few by simp
  qed
  ultimately have "n \<in> set ?due" using zrange_due_complete by blast
  moreover have "\<exists>next w'. run_state runOnce w = ((?due, next), w')"
    using r c \<open>length ?due < delay_batchSize\<close> by (auto simp: runOnce_def split: prod.split)
  ultimately show ?thesis by blast
qed

theorem due_order_is_claimed_witness:
  "\<exists>due next w'. run_state runOnce queue_world = ((due, next), w') \<and> ''n1'' \<in> set due"
  by (rule due_order_is_claimed [where p = "[(''n1'', 1), (''n2'', 1000)]" and q = "[]" and s = 1])
    (simp_all add: queue_world_def world1_def w0_def two_sets_def stored_zset_def delayQueueKey_def delayProcessingKey_def
      delay_batchSize_def unix_def second_def)

end
