(* ===== verification/Leader_Safety.thy ===== *)
theory Leader_Safety
  imports Queue_Safety
begin

text \<open>
  The election over a cluster: who leads is decided by the token in the lock, no two instances
  have the same token, and nobody takes the lock from its holder; but an instance that lost the
  lock still runs the worker it started.
\<close>

section \<open>Counters the cache leaves alone\<close>

lemma ticks_locks:
  "same ticks (redisRepo_AcquireLock k t d)" "same ticks (redisRepo_RenewLock k t d)" "same ticks (redisRepo_ReleaseLock k t)"
  unfolding redisRepo_AcquireLock_def redisRepo_RenewLock_def redisRepo_ReleaseLock_def acquire_script_def renew_script_def
    release_script_def
  by (intro frame; simp split: option.split rval.split)+

text \<open>A step of an instance: the counter only grows, and an instance that leads afterwards led with the same token
  before, or drew its token in this step and found the lock free.\<close>

lemma tryLead_Some:
  assumes "run_state (tryLead E (redisRepo E) e) w = (Some t, w')"
  shows "t = token_at E e (ticks w) \<and> ticks w' = Suc (ticks w) \<and> lock_holder (el_key e) w = None \<and>
     lock_holder (el_key e) w' = Some t"
proof -
  let ?w1 = "w\<lparr>ticks := Suc (ticks w)\<rparr>"
  have a: "run_state (redisRepo_AcquireLock (el_key e) (token_at E e (ticks w)) (el_ttl e)) ?w1 = (Inr True, w')"
    and t: "t = token_at E e (ticks w)"
    using assms by (auto simp: tryLead_def redisRepo_def split: prod.splits if_splits)
  have "lock_holder (el_key e) ?w1 = lock_holder (el_key e) w" 
    by (simp add: lock_holder_def rlookup_cong [of ?w1 w])
  then show ?thesis using sameD [OF ticks_locks(1) a] redis_locks.acquire_free [OF a] redis_locks.acquire_holds [OF a] t by simp
qed

lemma tryLead_None:
  assumes "run_state (tryLead E (redisRepo E) e) w = (None, w')"
  shows "ticks w' = Suc (ticks w)"
proof -
  obtain r w1 where a: "run_state (redisRepo_AcquireLock (el_key e) (token_at E e (ticks w)) (el_ttl e)) (w\<lparr>ticks := Suc (ticks w)\<rparr>) = (r, w1)"
    by fastforce
  then show ?thesis using assms sameD [OF ticks_locks(1) a] by (auto simp: tryLead_def redisRepo_def split: if_splits)
qed

lemma renewLead_ticks: "run_state (renewLead (redisRepo E) e t) w = (b, w') \<Longrightarrow> ticks w' = ticks w"
  by (auto simp: renewLead_def redisRepo_def dest: sameD [OF ticks_locks(2)] split: prod.splits)

lemma leaveLead_ticks: "run_state (leaveLead (redisRepo E) e t) w = (u, w') \<Longrightarrow> ticks w' = ticks w"
  by (auto simp: leaveLead_def redisRepo_def dest: sameD [OF ticks_locks(3)] split: prod.splits)

lemma elector_step_phase:
  assumes "elector_step E (redisRepo E) e (s, w) (s', w')"
  shows "ticks w \<le> ticks w' \<and> (in_phase s' = Leading t \<longrightarrow> in_phase s = Leading t \<or>
     t = token_at E e (ticks w) \<and> ticks w' = Suc (ticks w) \<and> lock_holder (el_key e) w = None)"
  using assms
  by (cases rule: elector_stepE)
    (auto dest!: tryLead_Some tryLead_None renewLead_ticks leaveLead_ticks)

section \<open>Tokens are not shared\<close>

definition tokens_apart :: "env \<Rightarrow> (nat \<Rightarrow> LeaderElector) \<Rightarrow> cluster \<Rightarrow> bool" where
  "tokens_apart E el x \<longleftrightarrow> (case x of (c, w) \<Rightarrow>
     (\<forall>i t. in_phase (c i) = Leading t \<longrightarrow> (\<exists>n < ticks w. t = token_at E (el i) n)) \<and>
     (\<forall>i j t. in_phase (c i) = Leading t \<longrightarrow> in_phase (c j) = Leading t \<longrightarrow> i = j))"

lemma tokens_apart_step:
  assumes u: "uuids_differ E" and inv: "tokens_apart E el (c, w)"
    and step: "elector_step E (redisRepo E) (el i) (c i, w) (s, w')"
  shows "tokens_apart E el (c(i := s), w')"
proof -
  note ph = elector_step_phase [OF step]
  have drawn: "\<exists>n < ticks w'. t = token_at E (el j) n" if "in_phase ((c(i := s)) j) = Leading t" for j t
  proof (cases "j = i \<and> \<not> in_phase (c i) = Leading t")
    case True
    then show ?thesis using that ph [of t] by auto
  next
    case False
    then have "in_phase (c j) = Leading t" using that by (auto split: if_splits)
    then obtain n where "n < ticks w" "t = token_at E (el j) n" using inv by (auto simp: tokens_apart_def)
    then show ?thesis using ph [of t] by (intro exI [of _ n]) simp
  qed
  have fresh: "in_phase (c j) \<noteq> Leading t" if "t = token_at E (el i) (ticks w)" for j t
  proof
    assume "in_phase (c j) = Leading t"
    then obtain n where "n < ticks w" "t = token_at E (el j) n" using inv by (auto simp: tokens_apart_def)
    then show False using token_at_inj [OF u, of "el j" n "el i" "ticks w"] that by simp
  qed
  have "j = k" if "in_phase ((c(i := s)) j) = Leading t" "in_phase ((c(i := s)) k) = Leading t" for j k t
  proof (cases "in_phase (c i) = Leading t \<or> j \<noteq> i \<and> k \<noteq> i")
    case True
    then show ?thesis using inv that unfolding tokens_apart_def by (auto split: if_splits)
  next
    case False
    then show ?thesis using fresh ph [of t] that by (auto split: if_splits)
  qed
  then show ?thesis using drawn unfolding tokens_apart_def by blast
qed

lemma tokens_apart_reach:
  assumes u: "uuids_differ E" and "cluster_reach E (redisRepo E) el w0 x"
  shows "tokens_apart E el x"
  using assms(2)
proof (induction rule: cluster_reach.induct)
  case start
  then show ?case by (simp add: tokens_apart_def started_def)
next
  case (cstep x y)
  obtain c w where x: "x = (c, w)" by fastforce
  from cstep.hyps(2) [unfolded x] show ?case
  proof (rule cluster_stepE)
    fix i s w' assume "y = (c(i := s), w')" and "elector_step E (redisRepo E) (el i) (c i, w) (s, w')"
    then show ?thesis using tokens_apart_step [OF u] cstep.IH x by blast
  next
    fix d assume "y = (c, w\<lparr>clock := clock w + d\<rparr>)"
    then show ?thesis using cstep.IH x by (simp add: tokens_apart_def)
  qed
qed

section \<open>One leader by the lock\<close>

text \<open>C25: in a cluster whose electors share a key, at most one instance leads with the token that is in the lock;
  and while an instance does, no step of any instance makes another one a leader.\<close>

theorem one_leader_by_lock:
  assumes "uuids_differ E" and "cluster_reach E (redisRepo E) el w0 (c, w)" and key: "\<forall>j. el_key (el j) = k"
    and i: "in_phase (c i) = Leading t" and held: "lock_holder k w = Some t"
  shows "(\<forall>j u. in_phase (c j) = Leading u \<and> lock_holder k w = Some u \<longrightarrow> j = i) \<and>
     (\<forall>j s w' u. elector_step E (redisRepo E) (el j) (c j, w) (s, w') \<and> in_phase s = Leading u \<longrightarrow>
        in_phase (c j) = Leading u)"
proof -
  have "\<forall>i j t. in_phase (c i) = Leading t \<longrightarrow> in_phase (c j) = Leading t \<longrightarrow> i = j"
    using tokens_apart_reach [OF assms(1,2)] by (simp add: tokens_apart_def)
  moreover have "in_phase (c j) = Leading u"
    if "elector_step E (redisRepo E) (el j) (c j, w) (s, w')" "in_phase s = Leading u" for j s w' u
    using elector_step_phase [OF that(1), of u] that(2) key held by auto
  ultimately show ?thesis using i held by (metis option.inject)
qed

definition elector0 :: "nat \<Rightarrow> LeaderElector" where
  "elector0 i = \<lparr>el_host = ''h'', el_pid = i, el_key = ''leader'', el_ttl = 10 * second\<rparr>"

definition led :: "nat \<Rightarrow> world \<Rightarrow> world" where
  "led i w = rput ''leader'' (RStr (STxt (token_at E0 (elector0 i) (ticks w)))) (Some (clock w + 10 * second))
     (w\<lparr>ticks := Suc (ticks w)\<rparr>)"

lemma uuids_differ0: "uuids_differ E0"
proof -
  have "c \<noteq> CHR 0x22" if "is_digit c" for c using that by (auto simp: is_digit_def)
  then have "CHR 0x22 \<notin> set (dec n)" for n using dec_digits [of n] by (auto simp: list_all_iff)
  then show ?thesis by (auto simp: uuids_differ_def E0_def inj_def)
qed

lemma milliseconds10: "milliseconds (10 * second) * millisecond = 10 * second" "0 < milliseconds (10 * second)"
  by (simp_all add: milliseconds_def go_div_def second_def millisecond_def)

lemma tryLead0:
  assumes "replies w = []" and "rlookup ''leader'' w = None"
  shows "run_state (tryLead E0 (redisRepo E0) (elector0 i)) w = (Some (token_at E0 (elector0 i) (ticks w)), led i w)"
proof -
  have "rlookup ''leader'' (w\<lparr>ticks := Suc (ticks w)\<rparr>) = None"
    using assms(2) rlookup_cong [of "w\<lparr>ticks := Suc (ticks w)\<rparr>" w "''leader''"] by simp
  then show ?thesis using assms(1)
    by (simp add: tryLead_def redisRepo_def redisRepo_AcquireLock_def run_call_quiet acquire_script_def rexists_def
        elector0_def milliseconds10 led_def linorder_not_le)
qed

lemma acquire_reach:
  assumes "cluster_reach E0 (redisRepo E0) elector0 w0 (c, w)" and "in_phase (c i) = Seeking" and "replies w = []"
    and "rlookup ''leader'' w = None"
  shows "cluster_reach E0 (redisRepo E0) elector0 w0 (c(i := \<lparr>in_phase = Leading (token_at E0 (elector0 i) (ticks w)),
     in_workers = token_at E0 (elector0 i) (ticks w) # in_workers (c i)\<rparr>), led i w)"
proof -
  have "elector_step E0 (redisRepo E0) (elector0 i) (c i, w) ((c i)\<lparr>in_phase := Leading (token_at E0 (elector0 i) (ticks w)),
     in_workers := token_at E0 (elector0 i) (ticks w) # in_workers (c i)\<rparr>, led i w)"
    by (rule elector_step.acquire [OF assms(2) tryLead0 [OF assms(3,4)]])
  from cluster_reach.cstep [OF assms(1) cluster_step.instance_step [where el = elector0 and i = i and c = c, OF this]] show ?thesis by (cases "c i") simp
qed

lemma led_lock: "lock_holder ''leader'' (led i w) = Some (token_at E0 (elector0 i) (ticks w))"
  by (simp add: lock_holder_rlookup led_def second_def)

lemma w0_lock: "replies w0 = []" "rlookup ''leader'' w0 = None" "ticks w0 = 1"
  by (simp_all add: w0_def rlookup_def)

theorem one_leader_by_lock_witness:
  "\<exists>c w t. cluster_reach E0 (redisRepo E0) elector0 w0 (c, w) \<and> in_phase (c 0) = Leading t \<and> lock_holder ''leader'' w = Some t \<and>
     (\<forall>j u. in_phase (c j) = Leading u \<and> lock_holder ''leader'' w = Some u \<longrightarrow> j = 0)"
proof -
  let ?t = "token_at E0 (elector0 0) 1"
  let ?c = "started(0 := \<lparr>in_phase = Leading ?t, in_workers = [?t]\<rparr>)"
  have r: "cluster_reach E0 (redisRepo E0) elector0 w0 (?c, led 0 w0)"
    using acquire_reach [OF cluster_reach.start, of 0] w0_lock by (simp add: started_def)
  have l: "lock_holder ''leader'' (led 0 w0) = Some ?t"
    using led_lock [of 0 w0] w0_lock(3) by simp
  have p: "in_phase (?c 0) = Leading ?t" by simp
  have k: "\<forall>j. el_key (elector0 j) = ''leader''" by (simp add: elector0_def)
  show ?thesis using one_leader_by_lock [OF uuids_differ0 r k p l] r p l by blast
qed

section \<open>A leader that lost its lock\<close>

text \<open>C35: a lease that ran out does not stop the worker it protected: the cluster can reach a state in which the
  first instance, no longer leader, still runs its worker while a second instance leads and runs its own.\<close>

theorem two_workers_at_once:
  "\<exists>c w t u. cluster_reach E0 (redisRepo E0) elector0 w0 (c, w) \<and> in_phase (c 0) = Seeking \<and> in_workers (c 0) = [t] \<and>
     in_phase (c 1) = Leading u \<and> in_workers (c 1) = [u] \<and> lock_holder ''leader'' w = Some u \<and> t \<noteq> u"
proof -
  let ?t = "token_at E0 (elector0 0) 1" and ?u = "token_at E0 (elector0 1) 2"
  let ?c1 = "started(0 := \<lparr>in_phase = Leading ?t, in_workers = [?t]\<rparr>)"
  let ?w2 = "(led 0 w0)\<lparr>clock := clock w0 + 10 * second\<rparr>"
  let ?c3 = "?c1(0 := \<lparr>in_phase = Seeking, in_workers = [?t]\<rparr>)"
  have r1: "cluster_reach E0 (redisRepo E0) elector0 w0 (?c1, led 0 w0)"
    using acquire_reach [OF cluster_reach.start, of 0] w0_lock by (simp add: started_def)
  have "cluster_step E0 (redisRepo E0) elector0 (?c1, led 0 w0) (?c1, (led 0 w0)\<lparr>clock := clock (led 0 w0) + 10 * second\<rparr>)"
    by (rule cluster_step.time_step) (simp add: second_def)
  from cluster_reach.cstep [OF r1 this] have r2: "cluster_reach E0 (redisRepo E0) elector0 w0 (?c1, ?w2)"
    by (simp add: led_def)
  have gone: "rlookup ''leader'' ?w2 = None" "replies ?w2 = []" "ticks ?w2 = 2"
    using w0_lock by (simp_all add: led_def rlookup_def)
  have "run_state (renewLead (redisRepo E0) (elector0 0) ?t) ?w2 = (False, ?w2)"
    "run_state (leaveLead (redisRepo E0) (elector0 0) ?t) ?w2 = ((), ?w2)"
    using gone by (simp_all add: renewLead_def leaveLead_def redisRepo_def redisRepo_RenewLock_def redisRepo_ReleaseLock_def
        run_call_quiet renew_script_def release_script_def elector0_def)
  from elector_step.lose [where s = "?c1 0", OF _ this] have "elector_step E0 (redisRepo E0) (elector0 0) (?c1 0, ?w2)
      (\<lparr>in_phase = Seeking, in_workers = [?t]\<rparr>, ?w2)" by simp
  from cluster_reach.cstep [OF r2 cluster_step.instance_step [where el = elector0 and i = 0 and c = ?c1, OF this]]
  have r3: "cluster_reach E0 (redisRepo E0) elector0 w0 (?c3, ?w2)" .
  have r4: "cluster_reach E0 (redisRepo E0) elector0 w0 (?c3(1 := \<lparr>in_phase = Leading ?u, in_workers = [?u]\<rparr>), led 1 ?w2)"
    using acquire_reach [OF r3, of 1] gone by (simp add: started_def)
  have "lock_holder ''leader'' (led 1 ?w2) = Some ?u"
    using led_lock [of 1 ?w2] unfolding gone(3) .
  moreover have "?t \<noteq> ?u" using token_at_inj [OF uuids_differ0, of "elector0 0" 1 "elector0 1" 2] by auto
  ultimately show ?thesis using r4 by (intro exI conjI) (assumption | simp)+
qed

end
