(* ===== verification/Guard_Safety.thy ===== *)
theory Guard_Safety
  imports Leader_Safety
begin

text \<open>
  The guards in front of a submission over whole sequences of requests: the idempotency mark,
  the token bucket, and the lock the caches are filled under, against its specification.
\<close>

section \<open>Repeated requests\<close>

text \<open>The idempotency checks of a run: before each some time passes.\<close>

fun check_run :: "Time \<Rightarrow> (Time \<times> string) list \<Rightarrow> world \<Rightarrow> bool list \<times> world" where
  "check_run ttl [] w = ([], w)"
| "check_run ttl ((d, r) # xs) w = (case run_state (CheckAndMark r ttl) (w\<lparr>clock := clock w + d\<rparr>) of (ok, w1) \<Rightarrow>
     case check_run ttl xs w1 of (oks, w2) \<Rightarrow> ((ok = Inr True) # oks, w2))"

definition passes :: "string \<Rightarrow> (Time \<times> string) list \<Rightarrow> bool list \<Rightarrow> nat" where
  "passes r xs oks = length (filter (\<lambda>(x, ok). snd x = r \<and> ok) (zip xs oks))"

text \<open>The mark of a request lasts until \<open>t\<close>.\<close>

definition marked_till :: "string \<Rightarrow> Time \<Rightarrow> world \<Rightarrow> bool" where
  "marked_till r t w \<longleftrightarrow> (\<exists>v. map_of (keyspace w) (idempotent_key r) = Some (v, Some t))"

lemma marked_till_marked: "marked_till r t w \<Longrightarrow> clock w < t \<Longrightarrow> marked r w"
  by (auto simp: marked_till_def marked_def rexists_def rlookup_def)

lemma idempotent_key_inj [simp]: "idempotent_key r = idempotent_key q \<longleftrightarrow> r = q"
  by (simp add: idempotent_key_def)

lemma CheckAndMark_step:
  assumes "marked_till r t w" and "clock w < t" and run: "run_state (CheckAndMark q ttl) w = (ok, w')"
  shows "marked_till r t w' \<and> clock w' = clock w \<and> (q = r \<longrightarrow> ok \<noteq> Inr True)"
proof (cases "q = r")
  case True
  obtain rs where "ok \<noteq> Inr True" "w' = w\<lparr>replies := rs\<rparr>"
    using CheckAndMark_marked [OF marked_till_marked [OF assms(1,2)] run [unfolded True]] by blast
  then show ?thesis using assms(1) by (simp add: marked_till_def)
next
  case False
  from run [unfolded CheckAndMark_def rdb_SetNX_def] show ?thesis
    by (cases rule: call_cases) (use assms(1) False in \<open>auto simp: marked_till_def split: if_splits\<close>)
qed

lemma check_run_marked:
  assumes "marked_till r t w" and "\<forall>x \<in> set xs. 0 \<le> fst x" and "clock w + sum_list (map fst xs) < t"
    and "check_run ttl xs w = (oks, w')"
  shows "passes r xs oks = 0"
  using assms
proof (induction xs arbitrary: w oks)
  case (Cons x xs)
  obtain d q where x: "x = (d, q)" by fastforce
  let ?w = "w\<lparr>clock := clock w + d\<rparr>"
  obtain ok w1 where c: "run_state (CheckAndMark q ttl) ?w = (ok, w1)" by fastforce
  obtain oks1 where r: "check_run ttl xs w1 = (oks1, w')" and oks: "oks = (ok = Inr True) # oks1"
    using Cons.prems(4) c x by (auto split: prod.splits)
  have nn: "0 \<le> sum_list (map fst xs)" by (intro sum_list_nonneg) (use Cons.prems(2) in auto)
  have m: "marked_till r t ?w" using Cons.prems(1) by (simp add: marked_till_def)
  have "marked_till r t w1 \<and> clock w1 = clock ?w \<and> (q = r \<longrightarrow> ok \<noteq> Inr True)"
    by (rule CheckAndMark_step [OF m _ c]) (use Cons.prems(3) x nn in simp)
  moreover from this have "passes r xs oks1 = 0"
    by (intro Cons.IH [OF _ _ _ r]) (use Cons.prems x in auto)
  ultimately show ?case using oks x by (auto simp: passes_def)
qed (simp add: passes_def)

lemma CheckAndMark_sets:
  assumes "run_state (CheckAndMark r ttl) w = (Inr True, w')"
  shows "marked_till r (clock w' + ttl) w' \<and> clock w' = clock w"
  using assms unfolding CheckAndMark_def rdb_SetNX_def
  by (elim call_Inr) (auto simp: marked_till_def split: if_splits)

lemma CheckAndMark_clock: "run_state (CheckAndMark r ttl) w = (ok, w') \<Longrightarrow> clock w' = clock w"
  by (rule sameD [OF neutral_CheckAndMark [OF redis_neutral_fields(2)]])

text \<open>C27: among the requests of one identifier that arrive within the time to live of its mark, at most one passes
  the idempotency check, whatever other requests come in between and whichever calls fail.\<close>

theorem one_request_passes:
  assumes "check_run ttl xs w = (oks, w')" and "\<forall>x \<in> set xs. 0 \<le> fst x" and "sum_list (map fst xs) < ttl"
  shows "passes r xs oks \<le> 1"
  using assms
proof (induction xs arbitrary: w oks)
  case (Cons x xs)
  obtain d q where x: "x = (d, q)" by fastforce
  obtain ok w1 where c: "run_state (CheckAndMark q ttl) (w\<lparr>clock := clock w + d\<rparr>) = (ok, w1)" by fastforce
  obtain oks1 where r: "check_run ttl xs w1 = (oks1, w')" and oks: "oks = (ok = Inr True) # oks1"
    using Cons.prems(1) c x by (auto split: prod.splits)
  have nn: "\<forall>y \<in> set xs. 0 \<le> fst y" "sum_list (map fst xs) < ttl" using Cons.prems(2,3) x by auto
  show ?case
  proof (cases "q = r \<and> ok = Inr True")
    case True
    have "passes r xs oks1 = 0"
      by (rule check_run_marked [OF _ nn(1) _ r]) (use CheckAndMark_sets c True nn(2) in auto)
    then show ?thesis using oks x True by (simp add: passes_def)
  next
    case False
    then show ?thesis using Cons.IH [OF r nn] oks x by (auto simp: passes_def)
  qed
qed (simp add: passes_def)

theorem one_request_passes_witness:
  "passes ''r1'' [(0, ''r1''), (second, ''r2''), (second, ''r1'')]
     (fst (check_run (5 * minute) [(0, ''r1''), (second, ''r2''), (second, ''r1'')] w0)) \<le> 1"
  by (rule one_request_passes [OF surjective_pairing]) (simp_all add: second_def minute_def)

section \<open>The token bucket\<close>

text \<open>C28: the tokens of a bucket stay between zero and its capacity over any run of requests and waits, with any
  call refused or its answer lost, provided the rounding of doubles is monotone and exact at zero and the
  capacity; and the bucket's time to live is at least a minute and at most a week.\<close>

theorem bucket_stays_within_capacity:
  assumes fl: "rounds_to (fl E) {0, of_nat n}" and params: "bucketParams E limit burst window = (rate, of_nat n, ttl)"
    and "bucket_ok key (of_nat n) w" and "\<forall>d \<in> set ds. 0 \<le> d"
  shows "bucket_ok key (of_nat n) (snd (run_state (for_each (\<lambda>d. do { Sleep d; runBucket E key (bucketParams E limit burst window) }) ds) w))
     \<and> 60 \<le> ttl \<and> ttl \<le> 604800"
proof -
  have "rounds_to (fl E) {0}" using fl by (simp add: rounds_to_def)
  then have rate: "0 \<le> rate" using bucketParams_rate params by blast
  have ttl: "60 \<le> ttl \<and> ttl \<le> 604800" using bucketParams_capacity [OF params] by blast
  have later: "bucket_ok key (of_nat n) (w\<lparr>clock := clock w + d\<rparr>)" if "bucket_ok key (of_nat n) w" "0 \<le> d" for w d
    using that by (auto simp: bucket_ok_def bucket_tokens_def hash_get_def rlookup_def split: option.splits prod.splits if_splits)
  have "bucket_ok key (of_nat n) (snd (run_state (for_each (\<lambda>d. do { Sleep d; runBucket E key (rate, of_nat n, ttl) }) ds) w))"
    using assms(3,4)
  proof (induction ds arbitrary: w)
    case (Cons d ds)
    have "bucket_ok key (of_nat n) (snd (run_state (runBucket E key (rate, of_nat n, ttl)) (w\<lparr>clock := clock w + d\<rparr>)))"
      by (rule keepsD [OF keeps_runBucket [OF fl rate]]) (use ttl later Cons.prems in auto)
    then show ?case using Cons.IH Cons.prems(2) by (auto split: prod.split)
  qed simp
  then show ?thesis using params ttl by simp
qed

theorem bucket_stays_within_capacity_witness:
  "bucket_ok (user_limit_key 21) 3 (snd (run_state (for_each (\<lambda>d. do { Sleep d; runBucket E0 (user_limit_key 21)
     (bucketParams E0 3 3 second) }) [0, second, 0]) w0))"
proof -
  have 1: "rounds_to (fl E0) {0, of_nat 3}" by (auto simp: rounds_to_def mono_def)
  have 2: "bucketParams E0 3 3 second = (3, of_nat 3, 60)" using limits0(2) by simp
  have 3: "bucket_ok (user_limit_key 21) (of_nat 3) w0"
    by (simp add: bucket_ok_def bucket_tokens_def hash_get_def rlookup_def w0_def)
  show ?thesis using bucket_stays_within_capacity [OF 1 2 3, of "[0, second, 0]"] by (simp add: second_def)
qed

text \<open>Requests of one instant: no time passes, so nothing is refilled.\<close>

definition bucket_with :: "string \<Rightarrow> int \<Rightarrow> nat \<Rightarrow> world \<Rightarrow> bool" where
  "bucket_with key now k w \<longleftrightarrow> replies w = [] \<and> clock w div microsecond = now \<and>
     rlookup key w = Some (RHash [(''tokens'', SDec (int k * 10 ^ 12)), (''last'', SInt now)])"

lemma fix12_nat: "fix12 (of_nat k) = SDec (int k * 10 ^ 12)"
  using round_of_int [of "int k * 10 ^ 12", where 'a = rat] by (simp add: fix12_def)

lemma bucket_next:
  assumes "bucket_with key now k w" and fl: "\<forall>j \<le> n. fl E (of_nat j) = of_nat j" and "k \<le> n" and ttl: "0 < ttl"
  shows "\<exists>w'. run_state (runBucket E key (rate, of_nat n, ttl)) w = (Inr (0 < k), w') \<and> bucket_with key now (k - 1) w'"
proof -
  have fl0: "fl E 0 = 0" using fl [rule_format, of 0] by simp
  have fk: "fl E (of_nat k) = of_nat k" using fl \<open>k \<le> n\<close> by simp
  have "refill E rate (of_nat n) now (Some (SDec (int k * 10 ^ 12))) (Some (SInt now)) = of_nat k"
    using fl0 fk \<open>k \<le> n\<close> by (simp add: refill_def to_number_def Let_def)
  moreover have "fl E (of_nat k - 1) = of_nat (k - 1)" if "0 < k"
    using fl [rule_format, of "k - 1"] \<open>k \<le> n\<close> that by (simp add: of_nat_diff)
  ultimately show ?thesis using assms(1) ttl fix12_nat [of k] fix12_nat [of "k - 1"]
    by (cases "k = 0") (auto simp: bucket_with_def runBucket_def run_call_quiet tokenBucketScript_def hash_get_def hash_of_def Let_def second_def
      intro!: mult_pos_pos)
qed

lemma upt_first: "[0..<Suc m] = 0 # map Suc [0..<m]"
  by (simp add: map_Suc_upt upt_conv_Cons del: upt_Suc)

lemma burst_from:
  assumes "bucket_with key now k w" and "\<forall>j \<le> n. fl E (of_nat j) = of_nat j" and "k \<le> n" and "0 < ttl"
  shows "fst (run_state (map_each (\<lambda>_. runBucket E key (rate, of_nat n, ttl)) xs) w) = map (\<lambda>i. Inr (i < k)) [0..<length xs]"
  using assms(1,3)
proof (induction xs arbitrary: k w)
  case (Cons x xs)
  obtain w1 where s: "run_state (runBucket E key (rate, of_nat n, ttl)) w = (Inr (0 < k), w1)" and b: "bucket_with key now (k - 1) w1"
    using bucket_next [OF Cons.prems(1) assms(2) Cons.prems(2) assms(4)] by blast
  have "fst (run_state (map_each (\<lambda>_. runBucket E key (rate, of_nat n, ttl)) xs) w1) = map (\<lambda>i. Inr (i < k - 1)) [0..<length xs]"
    by (rule Cons.IH [OF b]) (use Cons.prems(2) in simp)
  then show ?case using s by (auto simp: upt_first less_diff_conv split: prod.split simp del: upt_Suc)
qed simp

text \<open>Of the requests a user sends in one instant to a fresh bucket, the bucket admits exactly the first ones,
  as many as the burst, when the doubles represent the whole numbers up to the burst exactly.\<close>

theorem fresh_bucket_admits_the_burst:
  assumes "replies w = []" and "rlookup (user_limit_key u) w = None"
    and params: "bucketParams E limit burst window = (rate, of_nat n, ttl)" and "0 < n"
    and fl: "\<forall>j \<le> n. fl E (of_nat j) = of_nat j"
  shows "fst (run_state (map_each (\<lambda>_. UserRateLimit E u limit burst window) [0..<m]) w) = map (\<lambda>i. Inr (i < n)) [0..<m]"
proof (cases m)
  case (Suc k)
  have ttl: "0 < ttl" using bucketParams_capacity [OF params] by linarith
  have f: "fl E (of_nat n - 1) = of_nat (n - 1)" using fl [rule_format, of "n - 1"] assms(4) by (simp add: of_nat_diff)
  obtain w1 where s: "run_state (runBucket E (user_limit_key u) (rate, of_nat n, ttl)) w = (Inr True, w1)"
    and b: "bucket_with (user_limit_key u) (clock w div microsecond) (n - 1) w1"
    using assms(1,2,4) ttl f fix12_nat [of "n - 1"]
    by (auto simp: bucket_with_def runBucket_def run_call_quiet tokenBucketScript_def hash_get_def hash_of_def refill_def Let_def)
  have "fst (run_state (map_each (\<lambda>_. runBucket E (user_limit_key u) (rate, of_nat n, ttl)) (map Suc [0..<k])) w1) =
      map (\<lambda>i. Inr (i < n - 1)) [0..<k]"
    using burst_from [OF b fl _ ttl, of rate "map Suc [0..<k]"] by simp
  then show ?thesis using s Suc assms(4)
    by (auto simp: UserRateLimit_def params upt_first less_diff_conv split: prod.split simp del: upt_Suc)
qed simp

theorem fresh_bucket_admits_the_burst_witness:
  "fst (run_state (map_each (\<lambda>_. UserRateLimit E0 21 3 3 second) [0..<4]) w0) = [Inr True, Inr True, Inr True, Inr False]"
proof -
  have 1: "bucketParams E0 3 3 second = (3, of_nat 3, 60)" using limits0(2) by simp
  have 2: "replies w0 = []" "rlookup (user_limit_key 21) w0 = None" by (simp_all add: w0_def rlookup_def)
  show ?thesis using fresh_bucket_admits_the_burst [OF 2 1, of 4] by (simp add: upt_rec)
qed

section \<open>The lock and its specification\<close>

text \<open>The lock as one caller would specify it: its holder, or none.\<close>

definition spec_acquire :: "string \<Rightarrow> string option \<Rightarrow> bool \<times> string option" where
  "spec_acquire t h = (case h of None \<Rightarrow> (True, Some t) | Some _ \<Rightarrow> (False, h))"

definition spec_renew :: "string \<Rightarrow> string option \<Rightarrow> bool \<times> string option" where
  "spec_renew t h = (h = Some t, h)"

definition spec_release :: "string \<Rightarrow> string option \<Rightarrow> string option" where
  "spec_release t h = (if h = Some t then None else h)"

text \<open>A key that is used as a lock holds a token or nothing.\<close>

definition lock_like :: "string \<Rightarrow> world \<Rightarrow> bool" where
  "lock_like k w \<longleftrightarrow> rlookup k w = None \<or> lock_holder k w \<noteq> None"

text \<open>C26: the three lock scripts refine the lock's specification: with their call answered and a lease of a
  millisecond or more, the answer and the new holder are those of the specification on the old holder, the key
  still holds a token or nothing, and the locks of other keys stay as they are.\<close>

theorem locks_refine_their_specification:
  assumes "replies w = []" and "lock_like k w" and "millisecond \<le> d"
  shows "(\<exists>w'. run_state (redisRepo_AcquireLock k t d) w = (Inr (fst (spec_acquire t (lock_holder k w))), w') \<and>
       lock_holder k w' = snd (spec_acquire t (lock_holder k w)) \<and> lock_like k w' \<and> (k' \<noteq> k \<longrightarrow> lock_holder k' w' = lock_holder k' w)) \<and>
     (\<exists>w'. run_state (redisRepo_RenewLock k t d) w = (Inr (fst (spec_renew t (lock_holder k w))), w') \<and>
       lock_holder k w' = snd (spec_renew t (lock_holder k w)) \<and> lock_like k w' \<and> (k' \<noteq> k \<longrightarrow> lock_holder k' w' = lock_holder k' w)) \<and>
     (\<exists>w'. run_state (redisRepo_ReleaseLock k t) w = (Inr (), w') \<and>
       lock_holder k w' = spec_release t (lock_holder k w) \<and> lock_like k w' \<and> (k' \<noteq> k \<longrightarrow> lock_holder k' w' = lock_holder k' w))"
proof -
  have ms: "0 < milliseconds d" by (rule milliseconds_pos [OF assms(3)])
  then have ms': "0 < milliseconds d * millisecond" by simp
  consider (free) "rlookup k w = None" | (held) u where "rlookup k w = Some (RStr (STxt u))"
    using assms(2) by (auto simp: lock_like_def lock_holder_rlookup)
  then show ?thesis
    by cases (use assms(1) ms ms' in \<open>auto simp: redisRepo_AcquireLock_def redisRepo_RenewLock_def redisRepo_ReleaseLock_def
      run_call_quiet acquire_script_def renew_script_def release_script_def rexists_def lock_like_def lock_holder_def
      spec_acquire_def spec_renew_def spec_release_def\<close>)
qed

theorem locks_refine_their_specification_witness:
  "\<exists>w'. run_state (redisRepo_AcquireLock ''lock:a'' ''t1'' (5 * second)) w0 = (Inr True, w') \<and> lock_holder ''lock:a'' w' = Some ''t1''"
proof -
  have 1: "replies w0 = []" "lock_like ''lock:a'' w0" "millisecond \<le> 5 * second"
    by (simp_all add: w0_def lock_like_def rlookup_def millisecond_def second_def)
  have 2: "lock_holder ''lock:a'' w0 = None" by (simp add: w0_def lock_holder_def rlookup_def)
  from conjunct1 [OF locks_refine_their_specification [OF 1, of "''t1''"]] show ?thesis
    unfolding 2 by (auto simp: spec_acquire_def)
qed

end
