(* ===== verification/Catalog_Safety.thy ===== *)
theory Catalog_Safety
  imports Guard_Safety
begin

text \<open>
  The catalogue behind the cache: the two loops that wait for the filling lock end, a detail
  that was cached is what is read back, and writing products in batches writes what one
  pipeline would, less the batches that were refused.
\<close>

section \<open>Results other than running out of fuel\<close>

definition finishes :: "'a io \<Rightarrow> bool" where
  "finishes m \<longleftrightarrow> (\<forall>w. fst (run_state m w) \<noteq> Inl OutOfFuel)"

named_theorems fin_rules

lemma fin_return [fin_rules]: "r \<noteq> Inl OutOfFuel \<Longrightarrow> finishes (return r)"
  by (simp add: finishes_def)

lemma fin_query [fin_rules]: "(\<And>w. f w \<noteq> Inl OutOfFuel) \<Longrightarrow> finishes (query f)"
  by (auto simp: finishes_def query_def call_def split: list.split reply.split)

lemma fin_bind [fin_rules]: "(\<And>x. finishes (k x)) \<Longrightarrow> finishes (State_Monad.bind m k)"
  by (simp add: finishes_def case_prod_beta)

lemma fin_bindE [fin_rules]: "finishes m \<Longrightarrow> (\<And>x. finishes (k x)) \<Longrightarrow> finishes (bindE m k)"
  by (auto simp: finishes_def run_bindE split: prod.split sum.split) (metis fst_conv)

lemma fin_on_error [fin_rules]: "(\<And>e. e \<noteq> OutOfFuel \<Longrightarrow> g e \<noteq> OutOfFuel) \<Longrightarrow> finishes m \<Longrightarrow> finishes (on_error g m)"
  by (auto simp: finishes_def run_on_error split: prod.split) (metis (no_types) fst_conv map_sum.simps old.sum.exhaust sum.inject(1) sum.simps(4))

lemma fin_if [fin_rules]: "(b \<Longrightarrow> finishes m) \<Longrightarrow> (\<not> b \<Longrightarrow> finishes n) \<Longrightarrow> finishes (if b then m else n)"
  by simp

lemma fin_case_sum [fin_rules]:
  "(\<And>e. r = Inl e \<Longrightarrow> finishes (f e)) \<Longrightarrow> (\<And>x. r = Inr x \<Longrightarrow> finishes (g x)) \<Longrightarrow> finishes (case r of Inl e \<Rightarrow> f e | Inr x \<Rightarrow> g x)"
  by (cases r) simp_all

lemma fin_case_option [fin_rules]:
  "(r = None \<Longrightarrow> finishes m) \<Longrightarrow> (\<And>x. r = Some x \<Longrightarrow> finishes (g x)) \<Longrightarrow> finishes (case r of None \<Rightarrow> m | Some x \<Rightarrow> g x)"
  by (cases r) simp_all

lemma fin_case_prod [fin_rules]: "(\<And>a b. finishes (g a b)) \<Longrightarrow> finishes (case p of (a, b) \<Rightarrow> g a b)"
  by (cases p) simp

lemma fin_first_on [fin_rules]: "finishes (first_on t p)"
  unfolding first_on_def by (rule fin_query) (simp split: option.split)

lemma fin_count_on [fin_rules]: "finishes (count_on t p)"
  unfolding count_on_def by (rule fin_query) simp

lemma fin_detail: "finishes (repo_GetSeckillProductDetail (mysqlRepo E) p a)"
  unfolding mysqlRepo_def SeckillRepo.select_convs mysqlRepo_GetSeckillProductDetail_def by (intro fin_rules) simp

lemma fin_activity: "finishes (repo_activity (wired E T))"
  unfolding repo_activity_def wired_simps mysqlRepo_def SeckillRepo.select_convs mysqlRepo_GetCurrentActivity_def
  by (intro fin_rules) (simp_all add: not_found_as_def)

lemma fin_fill: "finishes (fillProductDetail (wired E T) p a)"
  unfolding fillProductDetail_def wired_simps by (intro fin_rules fin_detail) simp_all

lemma fin_bind_of: "finishes m \<Longrightarrow> (\<And>x. x \<noteq> Inl OutOfFuel \<Longrightarrow> finishes (k x)) \<Longrightarrow> finishes (State_Monad.bind m k)"
  by (simp add: finishes_def case_prod_beta)

lemma fin_fill_activity: "finishes (fillActivity (wired E T))"
proof -
  have "finishes (do {
      found \<leftarrow> repo_activity (wired E T);
      case found of
        Inl e \<Rightarrow> do {
          _ \<leftarrow> (if errors_is e ErrNoActiveActivity
               then cache_Set (uc_Cache (wired E T)) cacheKeyActivity (STxt ''NULL'') (30 * second) else return (Inr ()));
          return (Inl e) }
      | Inr a \<Rightarrow> do {
          _ \<leftarrow> cache_Set (uc_Cache (wired E T)) cacheKeyActivity (SJson (DActivity a)) (30 * second);
          return (Inr a) } })"
    by (rule fin_bind_of [OF fin_activity]) (intro fin_rules; simp)
  then show ?thesis unfolding fillActivity_def by (auto intro!: fin_bind [of "\<lambda>x. case cached_activity x of None \<Rightarrow> _ | Some a \<Rightarrow> _ a"] fin_case_option fin_return)
qed

section \<open>Waiting for the lock\<close>

text \<open>The lock \<open>k\<close> is free, or its lease ends by \<open>t\<close>.\<close>

definition lease_by :: "string \<Rightarrow> Time \<Rightarrow> world \<Rightarrow> bool" where
  "lease_by k t w \<longleftrightarrow> (case map_of (keyspace w) k of None \<Rightarrow> True | Some (_, e) \<Rightarrow> (case e of None \<Rightarrow> False | Some x \<Rightarrow> x \<le> t))"

lemma lease_by_same [simp]:
  "lease_by k t (w\<lparr>replies := rs\<rparr>) = lease_by k t w" "lease_by k t (w\<lparr>ticks := n\<rparr>) = lease_by k t w"
  "lease_by k t (w\<lparr>clock := c\<rparr>) = lease_by k t w"
  by (simp_all add: lease_by_def)

lemma AcquireLock_busy:
  assumes "run_state (redisRepo_AcquireLock k tok d) w = (Inr False, w')"
  obtains rs where "rexists k w" and "w' = w\<lparr>replies := rs\<rparr>"
proof -
  obtain n where "run_state (call (acquire_script k tok (milliseconds d))) w = (Inr n, w')" "n \<noteq> 1"
    using assms by (auto simp: redisRepo_AcquireLock_def split: prod.splits sum.splits)
  then show ?thesis using that by (auto simp: acquire_script_def elim!: call_Inr split: if_splits)
qed

lemma busy_lease: "rexists k w \<Longrightarrow> lease_by k t w \<Longrightarrow> clock w < t"
  by (auto simp: rexists_def rlookup_def lease_by_def split: option.splits if_splits)

lemma lease_reads:
  "same (\<lambda>w. (lease_by k t w, clock w)) (redisRepo_BloomExists E c p)"
  "same (\<lambda>w. (lease_by k t w, clock w)) (redisRepo_GetProductDetail p c)"
  "same (\<lambda>w. (lease_by k t w, clock w)) (rdb_Get key)"
  unfolding redisRepo_BloomExists_def redisRepo_GetProductDetail_def rdb_Get_def by (intro frame; simp)+

lemma busy_round:
  assumes "run_state (redisRepo_AcquireLock k tok d) (w\<lparr>ticks := n\<rparr>) = (Inr False, w2)" and "lease_by k t w"
  shows "lease_by k t w2 \<and> clock w2 = clock w \<and> clock w < t"
proof -
  obtain rs where "rexists k (w\<lparr>ticks := n\<rparr>)" "w2 = w\<lparr>ticks := n, replies := rs\<rparr>" using assms(1) by (rule AcquireLock_busy)
  then show ?thesis using assms(2) busy_lease [of k "w\<lparr>ticks := n\<rparr>" t] by simp
qed

text \<open>One round of either loop ends it, or found the lock busy and starts the next round after a sleep.\<close>

lemma detail_round:
  fixes p a :: u64
  defines "k \<equiv> product_lock_key p a"
  assumes lease: "lease_by k t w" and more: "fst (run_state (getProductDetailWithMutex E (wired E T) (Suc n) p a) w) = Inl OutOfFuel"
  shows "\<exists>w2. lease_by k t w2 \<and> clock w2 = clock w + 50 * millisecond \<and> clock w < t \<and>
     fst (run_state (getProductDetailWithMutex E (wired E T) n p a) w2) = Inl OutOfFuel"
proof -
  obtain b w1 where b: "run_state (redisRepo_BloomExists E a p) w = (b, w1)" by fastforce
  obtain c w2 where c: "run_state (redisRepo_GetProductDetail p a) w1 = (c, w2)" by fastforce
  obtain l w3 where l: "run_state (redisRepo_AcquireLock k (uuid E (ticks w2)) (5 * second)) (w2\<lparr>ticks := Suc (ticks w2)\<rparr>) = (l, w3)"
    by fastforce
  have same: "lease_by k t w2" "clock w2 = clock w"
    using sameD [OF lease_reads(1) b] sameD [OF lease_reads(2) c] lease by simp_all
  let ?again = "do { again \<leftarrow> redisRepo_GetProductDetail p a;
    case again of Inr (Some detail) \<Rightarrow> return (Inr detail) | _ \<Rightarrow> return (Inl ErrSystemBusy) }"
  let ?fill = "do { r \<leftarrow> fillProductDetail (wired E T) p a; _ \<leftarrow> redisRepo_ReleaseLock k (uuid E (ticks w2)); return r }"
  have "finishes ?again" by (rule fin_bind) (simp split: sum.split option.split add: fin_return)
  moreover have "finishes ?fill" by (rule fin_bind_of [OF fin_fill]) (intro fin_rules)
  ultimately have fin: "fst (run_state ?again w3) \<noteq> Inl OutOfFuel" "fst (run_state ?fill w3) \<noteq> Inl OutOfFuel"
    by (simp_all add: finishes_def)
  have "l = Inr False \<and> fst (run_state (getProductDetailWithMutex E (wired E T) n p a) (w3\<lparr>clock := clock w3 + 50 * millisecond\<rparr>)) = Inl OutOfFuel"
    using more b c l fin
    by (cases "b = Inr False"; cases l; cases c)
      (auto simp: wired_simps redisRepo_def NewString_def k_def split: if_splits bool.splits option.splits)
  then show ?thesis using busy_round [where k = k and w = w2 and t = t] l same
    by (intro exI [of _ "w3\<lparr>clock := clock w3 + 50 * millisecond\<rparr>"]) auto
qed

text \<open>C32: reading a product's detail ends with a detail or an error of the code: when the filling lock is free or its
  lease ends within \<open>n\<close> waits of fifty milliseconds, a fuel of \<open>n\<close> plus one is enough, whatever fails; the
  code's own leases of five seconds end within a hundred waits.\<close>

theorem product_detail_returns:
  assumes "lease_by (product_lock_key p a) t w" and "t \<le> clock w + int n * (50 * millisecond)"
  shows "fst (run_state (getProductDetailWithMutex E (wired E T) (Suc n) p a) w) \<noteq> Inl OutOfFuel"
  using assms
proof (induction n arbitrary: w)
  case (0 w)
  show ?case
  proof
    assume "fst (run_state (getProductDetailWithMutex E (wired E T) (Suc 0) p a) w) = Inl OutOfFuel"
    from detail_round [OF 0(1) this] show False using 0(2) by auto
  qed
next
  case (Suc n w)
  show ?case
  proof
    assume "fst (run_state (getProductDetailWithMutex E (wired E T) (Suc (Suc n)) p a) w) = Inl OutOfFuel"
    from detail_round [OF Suc.prems(1) this] obtain w2 where "lease_by (product_lock_key p a) t w2"
      "clock w2 = clock w + 50 * millisecond"
      "fst (run_state (getProductDetailWithMutex E (wired E T) (Suc n) p a) w2) = Inl OutOfFuel" by blast
    then show False using Suc.IH [of w2] Suc.prems(2) by (simp add: algebra_simps)
  qed
qed

definition locked_world :: world where
  "locked_world = w0\<lparr>keyspace := [(bloomProductKey 3, RBloom [show_word (5::u64)], None),
     (product_lock_key 5 3, RStr (STxt ''t''), Some (6 * second)), (activity_lock_key, RStr (STxt ''t''), Some (4 * second))]\<rparr>"

theorem product_detail_returns_witness:
  "fst (run_state (getProductDetailWithMutex E0 (wired E0 topics0) 101 5 3) locked_world) \<noteq> Inl OutOfFuel"
proof -
  have 1: "lease_by (product_lock_key 5 3) (6 * second) locked_world"
    by (simp add: lease_by_def locked_world_def product_lock_key_def bloomProductKey_def)
  have 2: "6 * second \<le> clock locked_world + int 100 * (50 * millisecond)"
    by (simp add: locked_world_def w0_def second_def millisecond_def)
  show ?thesis using product_detail_returns [OF 1 2, of E0 topics0] by (simp add: eval_nat_numeral del: getProductDetailWithMutex.simps)
qed

lemma activity_round:
  assumes lease: "lease_by activity_lock_key t w"
    and more: "fst (run_state (getActivityFromCacheWithMutex E (wired E T) (Suc n)) w) = Inl OutOfFuel"
  shows "\<exists>w2. lease_by activity_lock_key t w2 \<and> clock w2 = clock w + 30 * millisecond \<and> clock w < t \<and>
     fst (run_state (getActivityFromCacheWithMutex E (wired E T) n) w2) = Inl OutOfFuel"
proof -
  let ?k = activity_lock_key
  obtain c w2 where c: "run_state (rdb_Get cacheKeyActivity) w = (c, w2)" by fastforce
  obtain l w3 where l: "run_state (redisRepo_AcquireLock ?k (uuid E (ticks w2)) (3 * second)) (w2\<lparr>ticks := Suc (ticks w2)\<rparr>) = (l, w3)"
    by fastforce
  have same: "lease_by ?k t w2" "clock w2 = clock w" using sameD [OF lease_reads(3) c] lease by simp_all
  let ?fill = "do { r \<leftarrow> fillActivity (wired E T); _ \<leftarrow> redisRepo_ReleaseLock ?k (uuid E (ticks w2)); return r }"
  have "finishes ?fill" by (rule fin_bind_of [OF fin_fill_activity]) (intro fin_rules)
  then have fin: "fst (run_state (repo_activity (wired E T)) w3) \<noteq> Inl OutOfFuel" "fst (run_state ?fill w3) \<noteq> Inl OutOfFuel"
    using fin_activity by (simp_all add: finishes_def)
  have "l = Inr False \<and> fst (run_state (getActivityFromCacheWithMutex E (wired E T) n) (w3\<lparr>clock := clock w3 + 30 * millisecond\<rparr>)) = Inl OutOfFuel"
    using more c l fin
    by (cases l; cases "cached_activity c")
      (auto simp: wired_simps redisRepo_def NewString_def split: if_splits bool.splits)
  then show ?thesis using busy_round [where k = ?k and w = w2 and t = t] l same
    by (intro exI [of _ "w3\<lparr>clock := clock w3 + 30 * millisecond\<rparr>"]) auto
qed

text \<open>Reading the current activity ends too: with a lease that ends within \<open>n\<close> waits of thirty milliseconds a
  fuel of \<open>n\<close> plus one is enough; the code's leases of three seconds end within a hundred waits.\<close>

lemma current_activity_returns:
  assumes "lease_by activity_lock_key t w" and "t \<le> clock w + int n * (30 * millisecond)"
  shows "fst (run_state (getActivityFromCacheWithMutex E (wired E T) (Suc n)) w) \<noteq> Inl OutOfFuel"
  using assms
proof (induction n arbitrary: w)
  case (0 w)
  show ?case
  proof
    assume "fst (run_state (getActivityFromCacheWithMutex E (wired E T) (Suc 0)) w) = Inl OutOfFuel"
    from activity_round [OF 0(1) this] show False using 0(2) by auto
  qed
next
  case (Suc n w)
  show ?case
  proof
    assume "fst (run_state (getActivityFromCacheWithMutex E (wired E T) (Suc (Suc n))) w) = Inl OutOfFuel"
    from activity_round [OF Suc.prems(1) this] obtain w2 where "lease_by activity_lock_key t w2"
      "clock w2 = clock w + 30 * millisecond"
      "fst (run_state (getActivityFromCacheWithMutex E (wired E T) (Suc n)) w2) = Inl OutOfFuel" by blast
    then show False using Suc.IH [of w2] Suc.prems(2) by (simp add: algebra_simps)
  qed
qed

lemma current_activity_returns_witness:
  "fst (run_state (getActivityFromCacheWithMutex E0 (wired E0 topics0) 101) locked_world) \<noteq> Inl OutOfFuel"
proof -
  have 1: "lease_by activity_lock_key (4 * second) locked_world"
    by (simp add: lease_by_def locked_world_def product_lock_key_def bloomProductKey_def activity_lock_key_def cacheKeyActivity_def)
  have 2: "4 * second \<le> clock locked_world + int 100 * (30 * millisecond)"
    by (simp add: locked_world_def w0_def second_def millisecond_def)
  show ?thesis using current_activity_returns [OF 1 2, of E0 topics0] by (simp add: eval_nat_numeral del: getActivityFromCacheWithMutex.simps)
qed

section \<open>The cached detail\<close>

lemma jitter_range:
  assumes "\<forall>k n. 0 < n \<longrightarrow> 0 \<le> rand_below E k n \<and> rand_below E k n < n" and "run_state (addRandomJitter E base) w = (t, w')"
    and "10 \<le> base"
  shows "base - base div 10 \<le> t \<and> t < base - base div 10 + base div 5 \<and> (\<exists>n. w' = w\<lparr>ticks := n\<rparr>)"
proof -
  have b: "go_div base 5 = base div 5" "go_div base 10 = base div 10" "0 < base div 5"
    using assms(3) by (simp_all add: go_div_pos pos_imp_zdiv_pos_iff)
  then show ?thesis using assms by (auto simp: addRandomJitter_def Int63n_def Let_def)
qed

text \<open>C33: a product detail that was cached is what a reader gets, as long as less than its time to live minus a tenth
  (and the second Redis rounds away) has passed, and the jitter draws from its range.\<close>

theorem cached_detail_is_read_back:
  assumes rand: "\<forall>k n. 0 < n \<longrightarrow> 0 \<le> rand_below E k n \<and> rand_below E k n < n"
    and set: "run_state (redisRepo_SetProductDetail E p a d ttl) w = (Inr (), w')" and "2 * second \<le> ttl"
    and later: "0 \<le> dt" "dt < ttl - ttl div 10 - second" and "replies w' = []"
  shows "fst (run_state (redisRepo_GetProductDetail p a) (w'\<lparr>clock := clock w' + dt\<rparr>)) = Inr (Some d)"
proof -
  obtain t w1 where j: "run_state (addRandomJitter E ttl) w = (t, w1)" by fastforce
  have "10 \<le> ttl" using assms(3) by (simp add: second_def)
  from jitter_range [OF rand j this] have t: "ttl - ttl div 10 \<le> t" by blast
  have "run_state (rdb_SetEX (detail_key p a) (SJson (DDetail d)) t) w1 = (Inr (), w')"
    using set j by (simp add: redisRepo_SetProductDetail_def)
  then obtain rs where w': "w' = rput (detail_key p a) (RStr (SJson (DDetail d))) (Some (clock w1 + expire_seconds t * second)) (w1\<lparr>replies := rs\<rparr>)"
    unfolding rdb_SetEX_def by (elim call_Inr) (auto split: if_splits)
  have "second \<le> t" using t assms(3) by (simp add: second_def)
  then have "expire_seconds t = t div second" by (simp add: expire_seconds_def)
  then have "t - second < expire_seconds t * second"
    using pos_mod_bound [of second t] by (simp add: minus_mod_eq_div_mult [symmetric])
  then have "dt < expire_seconds t * second" using later t by linarith
  then have "rlookup (detail_key p a) (w'\<lparr>clock := clock w' + dt\<rparr>) = Some (RStr (SJson (DDetail d)))"
    using w' by (simp add: rlookup_def)
  then show ?thesis using assms(6)
    by (simp add: redisRepo_GetProductDetail_def rdb_Get_def query_def run_call_quiet redis_get_def decode_detail_def)
qed

theorem cached_detail_is_read_back_witness:
  "\<exists>w'. run_state (redisRepo_SetProductDetail E0 5 3 detail1 (10 * minute)) w0 = (Inr (), w') \<and>
     fst (run_state (redisRepo_GetProductDetail 5 3) (w'\<lparr>clock := clock w' + 8 * minute\<rparr>)) = Inr (Some detail1)"
proof -
  have q: "\<exists>w'. run_state (redisRepo_SetProductDetail E0 5 3 detail1 (10 * minute)) w0 = (Inr (), w') \<and> replies w' = []"
    by (simp add: redisRepo_SetProductDetail_def addRandomJitter_def Int63n_def rdb_SetEX_def run_call_quiet w0_def Let_def
        go_div_def minute_def expire_seconds_def second_def)
  then obtain w' where w': "run_state (redisRepo_SetProductDetail E0 5 3 detail1 (10 * minute)) w0 = (Inr (), w')" "replies w' = []" by blast
  have r: "\<forall>k n. 0 < n \<longrightarrow> 0 \<le> rand_below E0 k n \<and> rand_below E0 k n < n" by simp
  have "fst (run_state (redisRepo_GetProductDetail 5 3) (w'\<lparr>clock := clock w' + 8 * minute\<rparr>)) = Inr (Some detail1)"
    by (rule cached_detail_is_read_back [OF r w'(1) _ _ _ w'(2)]) (simp_all add: minute_def second_def)
  then show ?thesis using w'(1) by blast
qed

section \<open>Products in batches\<close>

text \<open>Commands that neither read nor change the counter of random draws, nor the replies.\<close>

definition counterless :: "(world \<Rightarrow> (error + unit) \<times> world) \<Rightarrow> bool" where
  "counterless c \<longleftrightarrow> (\<forall>w rs n. c (w\<lparr>replies := rs, ticks := n\<rparr>) = (fst (c w), (snd (c w))\<lparr>replies := rs, ticks := n\<rparr>)) \<and>
     (\<forall>w. ticks (snd (c w)) = ticks w \<and> replies (snd (c w)) = replies w)"

lemma rput_ticks [simp]: "rput k v e (w\<lparr>ticks := n\<rparr>) = (rput k v e w)\<lparr>ticks := n\<rparr>"
  by (simp add: rput_def)

lemma rlookup_ticks [simp]: "rlookup k (w\<lparr>ticks := n\<rparr>) = rlookup k w"
  by (rule rlookup_cong) simp_all

lemma rset_ticks [simp]: "rset k v (w\<lparr>ticks := n\<rparr>) = (rset k v w)\<lparr>ticks := n\<rparr>"
  by (simp add: rset_def rexpiry_def rexists_def)

lemma put_replies:
  "rput k v e (w\<lparr>replies := rs\<rparr>) = (rput k v e w)\<lparr>replies := rs\<rparr>" "rset k v (w\<lparr>replies := rs\<rparr>) = (rset k v w)\<lparr>replies := rs\<rparr>"
  by (simp_all add: rput_def rset_def rexpiry_def rexists_def)

lemma counterless_products: "c \<in> set (product_commands x) \<Longrightarrow> counterless c"
  by (cases x) (auto simp: product_commands_def counterless_def cmd_SetEX_def cmd_Set_def cmd_BFADD_def put_replies
      split: option.split rval.split)

lemma run_pipe_counterless: "\<forall>c \<in> set cs. counterless c \<Longrightarrow> counterless (run_pipe cs)"
proof (induction cs)
  case (Cons c cs)
  then have c: "counterless c" and cs: "counterless (run_pipe cs)" by simp_all
  show ?case unfolding counterless_def
  proof (intro conjI allI)
    fix w rs n
    show "run_pipe (c # cs) (w\<lparr>replies := rs, ticks := n\<rparr>) =
        (fst (run_pipe (c # cs) w), (snd (run_pipe (c # cs) w))\<lparr>replies := rs, ticks := n\<rparr>)"
      using c cs unfolding counterless_def by (simp add: case_prod_beta split: sum.split)
    show "ticks (snd (run_pipe (c # cs) w)) = ticks w" "replies (snd (run_pipe (c # cs) w)) = replies w"
      using c cs unfolding counterless_def by (simp_all add: case_prod_beta)
  qed
qed (simp add: counterless_def)

lemma run_pipe_append: "snd (run_pipe (cs @ ds) w) = snd (run_pipe ds (snd (run_pipe cs w)))"
  by (induction cs arbitrary: w) (simp_all add: case_prod_beta)

definition draws :: "env \<Rightarrow> nat \<Rightarrow> nat \<Rightarrow> int list" where
  "draws E k n = map (\<lambda>i. rand_below E i 600) [k..<k + n]"

lemma run_draws: "run_state (map_each (\<lambda>_. Int63n E 600) ps) w = (draws E (ticks w) (length ps), w\<lparr>ticks := ticks w + length ps\<rparr>)"
proof (induction ps arbitrary: w)
  case (Cons p ps)
  have "[k..<k + Suc n] = k # [Suc k..<Suc k + n]" for k n by (simp add: upt_conv_Cons del: upt_Suc)
  then show ?case using Cons.IH by (simp add: Int63n_def draws_def del: upt_Suc)
qed (simp add: draws_def)

definition pipeline :: "env \<Rightarrow> CachedSeckillProduct list \<Rightarrow> nat \<Rightarrow> (world \<Rightarrow> (error + unit) \<times> world) list" where
  "pipeline E ps k = concat (map product_commands (zip ps (draws E k (length ps))))"

lemma pipeline_counterless: "counterless (run_pipe (pipeline E ps k))"
  by (rule run_pipe_counterless) (auto simp: pipeline_def counterless_products)

lemma pipeline_append: "pipeline E (ps @ qs) k = pipeline E ps k @ pipeline E qs (k + length ps)"
proof -
  have "draws E k (m + n) = draws E k m @ draws E (k + m) n" for m n
    using upt_add_eq_append [of k "k + m" n] by (simp add: draws_def add.assoc)
  then show ?thesis by (simp add: pipeline_def draws_def)
qed

text \<open>What the batches write: each its own commands, but for those whose \<open>Exec\<close> is refused.\<close>

fun refused_next :: "reply list \<Rightarrow> bool" where
  "refused_next (Refused d # rs) = True"
| "refused_next rs = False"

fun written :: "env \<Rightarrow> reply list \<Rightarrow> nat \<Rightarrow> CachedSeckillProduct list list \<Rightarrow> (world \<Rightarrow> (error + unit) \<times> world) list" where
  "written E rs k [] = []"
| "written E rs k (b # bs) = (if refused_next rs then [] else pipeline E b k) @ written E (tl rs) (k + length b) bs"

lemma written_counterless: "counterless (run_pipe (written E rs k bs))"
proof (rule run_pipe_counterless)
  show "\<forall>c \<in> set (written E rs k bs). counterless c"
    by (induction bs arbitrary: rs k) (auto simp: pipeline_def counterless_products)
qed

lemma written_quiet: "written E [] k bs = pipeline E (concat bs) k"
  by (induction bs arbitrary: k) (simp_all add: pipeline_append, simp add: pipeline_def)

lemma counterless_snd: "counterless c \<Longrightarrow> snd (c (w\<lparr>replies := rs, ticks := n\<rparr>)) = (snd (c w))\<lparr>replies := rs, ticks := n\<rparr>"
  by (simp add: counterless_def)

lemma batch_run:
  "snd (run_state (redisRepo_batchSetProducts E ps) w) =
     snd (run_pipe (if refused_next (replies w) then [] else pipeline E ps (ticks w))
       (w\<lparr>replies := tl (replies w), ticks := ticks w + length ps\<rparr>))"
  by (cases "replies w" rule: refused_next.cases; cases w)
    (auto simp: redisRepo_batchSetProducts_def run_draws pipe_Exec_def call_def pipeline_def split: reply.split)

lemma batches_run:
  "run_state (for_each (redisRepo_batchSetProducts E) bs) w = ((), snd (run_pipe (written E (replies w) (ticks w) bs)
     (w\<lparr>replies := drop (length bs) (replies w), ticks := ticks w + length (concat bs)\<rparr>)))"
proof (induction bs arbitrary: w)
  case (Cons b bs)
  let ?p = "run_pipe (if refused_next (replies w) then [] else pipeline E b (ticks w))"
  have p: "counterless ?p" using pipeline_counterless written_counterless [of E "[]" 0 "[]"] by simp
  let ?w1 = "snd (?p (w\<lparr>replies := tl (replies w), ticks := ticks w + length b\<rparr>))"
  have w1: "?w1 = (snd (?p w))\<lparr>replies := tl (replies w), ticks := ticks w + length b\<rparr>" by (rule counterless_snd [OF p])
  have "run_state (for_each (redisRepo_batchSetProducts E) (b # bs)) w = run_state (for_each (redisRepo_batchSetProducts E) bs) ?w1"
    by (simp add: case_prod_beta batch_run)
  also have "\<dots> = ((), snd (run_pipe (written E (tl (replies w)) (ticks w + length b) bs) ((snd (?p w))
      \<lparr>replies := drop (length (b # bs)) (replies w), ticks := ticks w + length (concat (b # bs))\<rparr>)))"
    unfolding Cons.IH w1 by (simp add: drop_Suc add.assoc)
  finally show ?case using counterless_snd [OF p] by (simp add: run_pipe_append)
qed simp

text \<open>Whatever fails, \<open>BatchSetProducts\<close> reports success; it leaves Redis as one pipeline over the products would in
  which the batches that were refused are missing.  Without a failure that is the pipeline over all of them.\<close>

theorem batches_write_one_pipeline:
  assumes "ps \<noteq> []"
  shows "run_state (redisRepo_BatchSetProducts E ps) w = (Inr (), snd (run_pipe (written E (replies w) (ticks w) (batches ps))
     (w\<lparr>replies := drop (length (batches ps)) (replies w), ticks := ticks w + length ps\<rparr>))) \<and>
     (replies w = [] \<longrightarrow> written E (replies w) (ticks w) (batches ps) = pipeline E ps (ticks w)) \<and>
     (\<forall>b \<in> set (batches ps). length b \<le> batchSize)"
  using assms by (auto simp: redisRepo_BatchSetProducts_def batches_run written_quiet dest: batches_bound)

end
