(* ===== verification/Recovery_Safety.thy ===== *)
theory Recovery_Safety
  imports Catalog_Safety
begin

text \<open>
  What is safe to repeat and who may ask: a message delivered again, a coupon used again, a
  stranger's request, and the repair of reservations that never became an order.
\<close>

section \<open>A message delivered again\<close>

definition order_known :: "SeckillOrderMessage \<Rightarrow> core_db \<Rightarrow> bool" where
  "order_known om c \<longleftrightarrow> (\<exists>row \<in> set (orders c). msg_OrderNo om = orw_OrderNo row \<or> msg_RequestID om = orw_RequestID row \<or>
     msg_UserID om = orw_UserID row \<and> msg_ActivityID om = orw_ActivityID row)"

lemma known_clash: "sql_clash order_clash (order_row (order_of om) i t) (orders c) \<longleftrightarrow> order_known om c"
  by (auto simp: sql_clash_def list_ex_iff order_clash_def order_row_def order_of_def order_known_def)

lemma confirm_body_known:
  assumes "order_known om (core w)" and run: "run_state (confirm_body (mysqlRepo E) om) w = (r, w')"
  shows "r \<noteq> Inr ()"
proof
  assume r: "r = Inr ()"
  obtain ad w1 n w2 where a: "run_state (mysqlRepo_GetUserAddress (msg_AddressID om)) w = (Inr ad, w1)"
    and c: "run_state (mysqlRepo_CreateOrder (order_of om)) w1 = (Inr n, w2)"
    using run unfolding r confirm_body_def mysqlRepo_def SeckillRepo.select_convs by (elim bindE_Inr)
  have "core w1 = core w" using a by (rule GetUserAddress_run)
  then show False using CreateOrder_run [OF c] known_clash assms(1) by metis
qed

lemma confirm_tx_keys: "same keyspace (ExecTx (confirm_body (mysqlRepo E) om))"
proof (rule same_ExecTx)
  show "same keyspace (confirm_body (mysqlRepo E) om)"
    unfolding confirm_body_def mysqlRepo_def SeckillRepo.select_convs mysqlRepo_GetUserAddress_def mysqlRepo_CreateOrder_def
      mysqlRepo_CreateOrderShipping_def mysqlRepo_DecreaseStock_def
    by (intro frame; simp add: put_defs)
qed simp_all

text \<open>C21: confirming an order that is in the table already (by its number, its request, or its user and activity)
  changes neither the database nor Redis, whatever fails, and never reports success; when every call is answered
  and the address is known the error is the one the consumer takes for a duplicate, so the message is committed
  and not tried again.\<close>

theorem redelivery_changes_nothing:
  assumes "order_known om (core w)" and run: "run_state (ConfirmSeckillOrder (wired E T) om) w = (r, w')"
  shows "core w' = core w \<and> keyspace w' = keyspace w \<and> r \<noteq> Inr () \<and>
     (replies w = [] \<and> auto_id w < 2 ^ 64 \<and> sql_first (\<lambda>a. uad_ID a = msg_AddressID om \<and> uad_IsDelete a = 0) (addresses w) \<noteq> None \<longrightarrow>
        r = Inl ErrOrderExists \<and> classifyOrderError (Some ErrOrderExists) = failureDrop)"
proof -
  let ?body = "confirm_body (mysqlRepo E) om"
  obtain q w1 where tx: "run_state (ExecTx ?body) w = (q, w1)" by fastforce
  have fail: "run_state ?body (w\<lparr>replies := rs\<rparr>) \<noteq> (Inr x, w2)" for rs x w2
    using confirm_body_known [of om "w\<lparr>replies := rs\<rparr>" E "Inr x" w2] assms(1) by auto
  have "core w1 = core w \<and> (\<exists>e. q = Inl e)"
    using tx by (cases rule: ExecTx_cases) (use fail in auto)
  moreover have "keyspace w1 = keyspace w" by (rule sameD [OF confirm_tx_keys tx])
  moreover have "q = Inl ErrOrderExists"
    if h: "replies w = []" "auto_id w < 2 ^ 64" "sql_first (\<lambda>a. uad_ID a = msg_AddressID om \<and> uad_IsDelete a = 0) (addresses w) \<noteq> None"
  proof -
    obtain ad where "run_state (mysqlRepo_GetUserAddress (msg_AddressID om)) w = (Inr ad, w)"
      using h(1,3) by (auto simp: mysqlRepo_GetUserAddress_def run_bindE run_on_error first_on_def query_def run_call_quiet)
    moreover have "fst (run_state (mysqlRepo_CreateOrder (order_of om)) w) = Inl ErrOrderExists"
      using h(1,2) known_clash assms(1) by (simp add: mysqlRepo_CreateOrder_def insert_on_def run_call_quiet Let_def)
    ultimately have "fst (run_state ?body w) = Inl ErrOrderExists"
      by (auto simp: confirm_body_def mysqlRepo_def run_bindE split: prod.splits)
    then show ?thesis using tx h(1) by (auto simp: run_ExecTx split: prod.splits)
  qed
  ultimately show ?thesis using run tx by (auto simp: ConfirmSeckillOrder_def run_bindE classifyOrderError_def)
qed

theorem redelivery_changes_nothing_witness:
  "let (r, w') = run_state (ConfirmSeckillOrder (wired E0 topics0) msg0) world1 in
     core w' = core world1 \<and> keyspace w' = keyspace world1 \<and> r = Inl ErrOrderExists"
proof -
  obtain r w' where run: "run_state (ConfirmSeckillOrder (wired E0 topics0) msg0) world1 = (r, w')" by fastforce
  have known: "order_known msg0 (core world1)"
    by (simp add: order_known_def world1_def order_row0_def order_row_def order_of_def)
  have h: "replies world1 = []" "auto_id world1 < 2 ^ 64"
      "sql_first (\<lambda>a. uad_ID a = msg_AddressID msg0 \<and> uad_IsDelete a = 0) (addresses world1) \<noteq> None"
    by (simp_all add: world1_def sample sql_first_def)
  show ?thesis using redelivery_changes_nothing [OF known run] h run by simp
qed

section \<open>A coupon used twice\<close>

definition usable :: "u64 \<Rightarrow> Time \<Rightarrow> UserCouponRow \<Rightarrow> bool" where
  "usable c t r \<longleftrightarrow> ucr_ID r = c \<and> ucr_Status r = UserCouponStatusUnused \<and> t \<le> ucr_ExpireTime r"

lemma GetUserCouponForUse_Inr:
  assumes "run_state (mysqlRepo_GetUserCouponForUse E c u) w = (Inr cp, w')"
  obtains row rs where "row \<in> set (user_coupons (core w))" "usable c (clock w) row" "ucr_UserID row = u" "ucp_ID cp = c"
    "w' = w\<lparr>replies := rs\<rparr>"
  using assms unfolding mysqlRepo_GetUserCouponForUse_def first_user_coupon_def preload_coupon_def find_on_def
  by (auto simp: on_error_Inr toBizUserCoupon_def usable_def split: if_splits
      elim!: bindE_Inr first_on_Inr query_Inr dest!: sql_first_Some)

lemma GetUserCouponForUse_none:
  assumes "\<not> (\<exists>r \<in> set (user_coupons (core w)). usable c (clock w) r)"
    and "run_state (mysqlRepo_GetUserCouponForUse E c u) w = (r, w')"
  shows "core w' = core w \<and> (r = Inl ErrCouponInvalid \<or> (\<exists>d. r = Inl (Driver d)))"
proof -
  let ?p = "\<lambda>r. ucr_ID r = c \<and> ucr_UserID r = u \<and> ucr_Status r = UserCouponStatusUnused \<and> clock w \<le> ucr_ExpireTime r"
  obtain q w1 where q: "run_state (first_on user_coupon_table ?p) w = (q, w1)" by fastforce
  have "sql_first ?p (user_coupons (core w)) = None"
    using assms(1) by (auto simp: sql_first_None usable_def)
  then have "core w1 = core w \<and> (q = Inl RecordNotFound \<or> (\<exists>d. q = Inl (Driver d)))"
    using q unfolding first_on_def query_def by - (erule call_cases; auto)
  then show ?thesis using assms(2) q
    by (auto simp: mysqlRepo_GetUserCouponForUse_def first_user_coupon_def run_bindE run_on_error not_found_as_def)
qed

lemma UseUserCoupon_uses:
  assumes "run_state (mysqlRepo_UseUserCoupon c) w = (Inr (), w')"
  shows "clock w' = clock w \<and> \<not> (\<exists>r \<in> set (user_coupons (core w')). usable c (clock w) r)"
proof -
  let ?p = "\<lambda>r. ucr_ID r = c \<and> ucr_Status r = UserCouponStatusUnused \<and> clock w \<le> ucr_ExpireTime r"
  let ?f = "\<lambda>r. Some (r\<lparr>ucr_Status := UserCouponStatusUsed, ucr_UsedTime := Some (datetime (clock w))\<rparr>)"
  obtain n wa where "run_state (exec_on user_coupon_table put_user_coupons ?p ?f touch_user_coupon) w = (Inr n, wa)" and "w' = wa"
    using assms unfolding mysqlRepo_UseUserCoupon_def by (auto split: if_splits elim!: bindE_Inr)
  then obtain rs t where t: "sql_exec ?p ?f (touch_user_coupon (current_timestamp w)) (user_coupons (core w)) = Inr (t, n)"
    and w': "w' = put_user_coupons t (w\<lparr>replies := rs\<rparr>)" by (elim exec_on_Inr) auto
  have t': "t = sql_update ?p (set_row ?f (touch_user_coupon (current_timestamp w))) (user_coupons (core w))"
    using t by (simp add: sql_exec_def split: if_splits)
  have "\<not> usable c (clock w) r" if h: "r \<in> set t" for r
  proof -
    obtain r0 where "r = (if ?p r0 then set_row ?f (touch_user_coupon (current_timestamp w)) r0 else r0)"
      using h unfolding t' sql_update_def set_map by (elim imageE)
    then show ?thesis
      by (cases "?p r0"; cases r0) (auto simp: usable_def set_row_def touch_user_coupon_def UserCouponStatusUnused_def UserCouponStatusUsed_def)
  qed
  then show ?thesis by (simp add: w' put_user_coupons_def)
qed

text \<open>C36: a coupon buys one order: a successful use was of an unused, unexpired coupon of that user, and until
  something changes the coupon table again every further use of it, by anyone and at any later time, is refused
  without a change.\<close>

theorem coupon_is_used_once:
  assumes "c \<noteq> 0" and first: "run_state (applyCoupon (wired E T) c u a) w = (Inr p, w1)"
    and same: "user_coupons (core w2) = user_coupons (core w1)" "clock w1 \<le> clock w2"
    and again: "run_state (applyCoupon (wired E T) c u' a') w2 = (r, w3)"
  shows "(\<exists>row \<in> set (user_coupons (core w)). usable c (clock w) row \<and> ucr_UserID row = u) \<and>
     core w3 = core w2 \<and> (r = Inl ErrCouponInvalid \<or> (\<exists>d. r = Inl (Driver d)))"
proof -
  obtain cp wa rs where g: "run_state (mysqlRepo_GetUserCouponForUse E c u) w = (Inr cp, wa)"
    and use: "run_state (mysqlRepo_UseUserCoupon (ucp_ID cp)) wa = (Inr (), w1)"
    using first assms(1) by (auto simp: applyCoupon_def mysqlRepo_def elim!: bindE_Inr)
  obtain row rs where row: "row \<in> set (user_coupons (core w))" "usable c (clock w) row" "ucr_UserID row = u"
    and cp: "ucp_ID cp = c" and wa: "wa = w\<lparr>replies := rs\<rparr>" using GetUserCouponForUse_Inr [OF g] .
  have "\<not> (\<exists>r \<in> set (user_coupons (core w2)). usable c (clock w2) r)"
    using UseUserCoupon_uses [OF use] same unfolding cp by (auto simp: usable_def)
  from GetUserCouponForUse_none [OF this, of E u'] again row show ?thesis
    by (auto simp: applyCoupon_def mysqlRepo_def assms(1) run_bindE split: prod.splits sum.splits)
qed

definition gift0 :: CouponRow where
  "gift0 = \<lparr>cpr_ID = 41, cpr_Name = ''gift'', cpr_Type = 1, cpr_Value = 20, cpr_MinAmount = 0, cpr_TotalCount = 9,
     cpr_RemainCount = 9, cpr_UserLimit = None, cpr_StartTime = 0, cpr_EndTime = hour, cpr_Version = 0,
     cpr_CreateTime = None, cpr_UpdateTime = None\<rparr>"

definition user_coupon0 :: UserCouponRow where
  "user_coupon0 = \<lparr>ucr_ID = 31, ucr_UserID = 21, ucr_CouponID = 41, ucr_Scene = ''FIRST_REVIEW'',
     ucr_SourceType = ''REVIEW'', ucr_SourceID = ''1'', ucr_IdempotencyKey = ''k1'',
     ucr_Status = UserCouponStatusUnused, ucr_ReceivedTime = 0, ucr_UsedTime = None, ucr_ExpireTime = hour,
     ucr_CreateTime = None, ucr_UpdateTime = None, ucr_Coupon = None\<rparr>"

definition coupon_world :: world where
  "coupon_world = w0\<lparr>core := core0\<lparr>coupons := [gift0], user_coupons := [user_coupon0]\<rparr>\<rparr>"

lemma first_use: "\<exists>w1. run_state (applyCoupon (wired E0 topics0) 31 21 100) coupon_world = (Inr (80, 20), w1)"
  by (simp add: applyCoupon_def mysqlRepo_def mysqlRepo_GetUserCouponForUse_def mysqlRepo_UseUserCoupon_def
      first_user_coupon_def preload_coupon_def run_rules coupon_world_def w0_def core0_def user_coupon0_def gift0_def toBizUserCoupon_def
      coupon_discount_def sql_exec_def UserCouponStatusUnused_def UserCouponStatusUsed_def second_def minute_def hour_def)

theorem coupon_is_used_once_witness:
  "\<exists>w1. run_state (applyCoupon (wired E0 topics0) 31 21 100) coupon_world = (Inr (80, 20), w1) \<and>
     (\<exists>r w2. run_state (applyCoupon (wired E0 topics0) 31 21 100) w1 = (r, w2) \<and> isl r \<and> core w2 = core w1)"
proof -
  obtain w1 where 1: "run_state (applyCoupon (wired E0 topics0) 31 21 100) coupon_world = (Inr (80, 20), w1)"
    using first_use by blast
  obtain r w2 where 2: "run_state (applyCoupon (wired E0 topics0) 31 21 100) w1 = (r, w2)" by fastforce
  from coupon_is_used_once [OF _ 1 refl order.refl 2] have "core w2 = core w1" "isl r" by auto
  with 1 2 show ?thesis by blast
qed

section \<open>A stranger's request\<close>

text \<open>No order that \<open>f\<close> finds under \<open>x\<close> is the user's.\<close>

definition stranger :: "u64 \<Rightarrow> (SeckillOrderRow \<Rightarrow> string) \<Rightarrow> string \<Rightarrow> world \<Rightarrow> bool" where
  "stranger u f x w \<longleftrightarrow> (\<forall>row \<in> set (orders (core w)). f row = x \<longrightarrow> orw_UserID row \<noteq> u)"

text \<open>What a request could change: the tables, Redis and the messages.\<close>

abbreviation tables_of :: "world \<Rightarrow> core_db \<times> PayInfoRow list \<times> keyspace \<times> ProducerMessage list" where
  "tables_of w \<equiv> (core w, pay_infos w, keyspace w, kafka_log w)"

lemma strangerD:
  "stranger u f x w \<Longrightarrow> sql_first (\<lambda>row. f row = x) (orders (core w)) = Some row \<Longrightarrow> orw_UserID row \<noteq> u"
  by (auto simp: stranger_def dest: sql_first_Some)

lemma GetOrder_owner:
  assumes "run_state (mysqlRepo_GetOrder E n) w = (Inr oi, w')" and "stranger u orw_OrderNo n w"
  shows "oi_UserID oi \<noteq> u"
proof -
  obtain row where "sql_first (\<lambda>r. orw_OrderNo r = n) (orders (core w)) = Some row" and "oi_UserID oi = orw_UserID row"
    using assms(1) unfolding mysqlRepo_GetOrder_def
    by (auto simp: on_error_Inr order_info_def elim!: bindE_Inr first_on_Inr split: prod.splits)
  then show ?thesis using strangerD [OF assms(2)] by simp
qed

lemma GetOrderForUpdate_owner:
  assumes "run_state (mysqlRepo_GetOrderForUpdate E n) w = (Inr oi, w')" and "stranger u orw_OrderNo n w"
  shows "oi_UserID oi \<noteq> u"
proof -
  obtain row where "sql_first (\<lambda>r. orw_OrderNo r = n) (orders (core w)) = Some row"
    and "oi = (order_info E row)\<lparr>oi_CouponDiscount := 0\<rparr>" using GetOrderForUpdate_run [OF assms(1)] .
  then show ?thesis using strangerD [OF assms(2)] by (simp add: order_info_def)
qed

lemma GetOrderByRequestID_owner:
  assumes "run_state (mysqlRepo_GetOrderByRequestID E q) w = (Inr oi, w')" and "stranger u orw_RequestID q w"
  shows "oi_UserID oi \<noteq> u"
proof -
  obtain row where "sql_first (\<lambda>r. orw_RequestID r = q) (orders (core w)) = Some row" and "oi_UserID oi = orw_UserID row"
    using assms(1) unfolding mysqlRepo_GetOrderByRequestID_def
    by (auto simp: on_error_Inr order_info_def elim!: bindE_Inr first_on_Inr)
  then show ?thesis using strangerD [OF assms(2)] by simp
qed

lemma reads_nothing:
  "same tables_of (mysqlRepo_GetOrder E n)" "same tables_of (mysqlRepo_GetOrderForUpdate E n)"
  "same tables_of (mysqlRepo_GetOrderByRequestID E n)"
  unfolding mysqlRepo_GetOrder_def mysqlRepo_GetOrderForUpdate_def mysqlRepo_GetOrderByRequestID_def
  by (intro frame; simp)+

lemma GetSeckillOrder_stranger:
  assumes "stranger u orw_OrderNo n w" and "run_state (GetSeckillOrder (wired E T) n u) w = (r, w')"
  shows "isl r \<and> tables_of w' = tables_of w"
  using assms sameD [OF reads_nothing(1)] GetOrder_owner unfolding GetSeckillOrder_def
  by (auto simp: mysqlRepo_def elim!: bindE_cases)

lemma CancelOrder_stranger:
  assumes "stranger u orw_OrderNo n w" and "run_state (CancelOrder (wired E T) n u) w = (r, w')"
  shows "isl r \<and> tables_of w' = tables_of w"
  using assms sameD [OF reads_nothing(1)] GetOrder_owner unfolding CancelOrder_def
  by (auto simp: mysqlRepo_def elim!: bindE_cases)

lemma pay_body_stranger:
  assumes "stranger (por_UserID q) orw_OrderNo (por_OrderNo q) w" and "run_state (pay_body E (wired E T) q) w = (r, w')"
  shows "isl r \<and> tables_of w' = tables_of w"
  using assms sameD [OF reads_nothing(2)] GetOrderForUpdate_owner unfolding pay_body_def
  by (auto simp: mysqlRepo_def elim!: bindE_cases)

lemma PaySeckillOrder_stranger:
  assumes "stranger (por_UserID q) orw_OrderNo (por_OrderNo q) w" and "run_state (PaySeckillOrder E (wired E T) q) w = (r, w')"
  shows "isl r \<and> tables_of w' = tables_of w"
proof -
  have b: "isl x \<and> tables_of w1 = tables_of w" 
    if h: "run_state (pay_body E (wired E T) q) (w\<lparr>replies := rs\<rparr>) = (x, w1)" for x w1 rs
    using pay_body_stranger [OF _ h] assms(1) by (simp add: stranger_def)
  show ?thesis using assms(2) unfolding PaySeckillOrder_def
    by (cases rule: ExecTx_cases) (auto dest: b)
qed

lemma GetSeckillResult_stranger:
  assumes "stranger u orw_RequestID q w" and "run_state (GetSeckillResult (wired E T) u q) w = (r, w')"
  shows "(isl r \<or> (\<exists>x. r = Inr x \<and> srs_Status x = 0 \<and> srs_OrderNo x = [] \<and> srs_OrderAmount x = 0)) \<and> tables_of w' = tables_of w"
proof -
  obtain o1 w1 where g: "run_state (mysqlRepo_GetOrderByRequestID E q) w = (o1, w1)" by fastforce
  have "tables_of w1 = tables_of w" using sameD [OF reads_nothing(3) g] .
  then show ?thesis using assms(2) g GetOrderByRequestID_owner [OF _ assms(1), of E]
    unfolding GetSeckillResult_def by (cases o1) (auto simp: mysqlRepo_def split: if_splits)
qed

text \<open>C37: a user who does not own an order can neither read, pay nor cancel it, and asking for its result shows
  nothing of it but \<open>processing\<close>; none of these requests changes a table, Redis or the message log, whatever
  the database answers.\<close>

theorem orders_are_private:
  assumes "stranger (u64_of i) orw_OrderNo n w" and "stranger (u64_of i) orw_RequestID q w"
  shows "(let (r, w') = run_state (rpc_GetSeckillOrder (wired E T) n i) w in isl r \<and> tables_of w' = tables_of w) \<and>
     (let (r, w') = run_state (rpc_PaySeckillOrder E (wired E T) n i p) w in isl r \<and> tables_of w' = tables_of w) \<and>
     (let (r, w') = run_state (CancelOrder (wired E T) n (u64_of i)) w in isl r \<and> tables_of w' = tables_of w) \<and>
     (let (r, w') = run_state (rpc_GetSeckillResult (wired E T) i q) w in tables_of w' = tables_of w \<and>
       (case r of Inl e \<Rightarrow> True | Inr x \<Rightarrow> rr_Status x = 0 \<and> rr_OrderNo x = [] \<and> rr_OrderAmount x = 0))"
proof (intro conjI)
  show "let (r, w') = run_state (rpc_GetSeckillOrder (wired E T) n i) w in isl r \<and> tables_of w' = tables_of w"
    using GetSeckillOrder_stranger [OF assms(1) surjective_pairing, of E T]
    by (auto simp: rpc_GetSeckillOrder_def rpc_of_def isl_map_sum split: prod.split)
  show "let (r, w') = run_state (rpc_PaySeckillOrder E (wired E T) n i p) w in isl r \<and> tables_of w' = tables_of w"
    using PaySeckillOrder_stranger [OF _ surjective_pairing, of "\<lparr>por_OrderNo = n, por_UserID = u64_of i, por_PayPlatform = p\<rparr>" w E T]
      assms(1) by (auto simp: rpc_PaySeckillOrder_def rpc_of_def isl_map_sum split: prod.split)
  show "let (r, w') = run_state (CancelOrder (wired E T) n (u64_of i)) w in isl r \<and> tables_of w' = tables_of w"
    using CancelOrder_stranger [OF assms(1) surjective_pairing, of E T] by (auto split: prod.split)
  show "let (r, w') = run_state (rpc_GetSeckillResult (wired E T) i q) w in tables_of w' = tables_of w \<and>
       (case r of Inl e \<Rightarrow> True | Inr x \<Rightarrow> rr_Status x = 0 \<and> rr_OrderNo x = [] \<and> rr_OrderAmount x = 0)"
    using GetSeckillResult_stranger [OF assms(2) surjective_pairing, of E T]
    by (auto simp: rpc_GetSeckillResult_def rpc_of_def isl_def i64_of_u64_def split: prod.split sum.split)
qed

theorem orders_are_private_witness:
  "let (r, w') = run_state (rpc_GetSeckillOrder (wired E0 topics0) ''n1'' 22) world1 in
     isl r \<and> tables_of w' = tables_of world1"
proof -
  have "stranger (u64_of 22) orw_OrderNo ''n1'' world1" "stranger (u64_of 22) orw_RequestID ''r1'' world1"
    by (simp_all add: stranger_def world1_def order_row0_def order_row_def order_of_def msg0_def)
  from orders_are_private [OF this] show ?thesis by blast
qed

section \<open>The repair of pending reservations\<close>

text \<open>An operation that does not touch a key, nor the clock, leaves what the key reads.\<close>

abbreviation key_view :: "string \<Rightarrow> world \<Rightarrow> (rval \<times> Time option) option \<times> Time" where
  "key_view k w \<equiv> (map_of (keyspace w) k, clock w)"

lemma view_lookup: "key_view k w' = key_view k w \<Longrightarrow> rlookup k w' = rlookup k w"
  by (simp add: rlookup_def cong: option.case_cong)

lemma view_stock: "key_view (stock_key a s) w' = key_view (stock_key a s) w \<Longrightarrow> stock_is a s n w' = stock_is a s n w"
  by (simp add: stock_is_def)

lemma view_del:
  assumes "k \<notin> set ks"
  shows "same (key_view k) (rdb_Del ks)" "same (key_view k) (del_keys ks)"
proof -
  have "map_of (keyspace (fold rdel ks w)) k = map_of (keyspace w) k" "clock (fold rdel ks w) = clock w" for w
    using assms by (induction ks arbitrary: w) auto
  then show 1: "same (key_view k) (rdb_Del ks)"
    unfolding rdb_Del_def by (intro frame) simp_all
  show "same (key_view k) (del_keys ks)" unfolding del_keys_def by (intro frame 1)
qed

lemma view_incr: "k \<noteq> stock_key a s \<Longrightarrow> same (key_view k) (redisRepo_RollbackStock a s q)"
  unfolding redisRepo_RollbackStock_def rdb_IncrBy_def by (intro frame) (simp_all split: sum.split)

lemma view_restore: "same (key_view k) (mysqlRepo_RestoreUserCoupon c)"
  unfolding mysqlRepo_RestoreUserCoupon_def by (intro frame; simp add: put_user_coupons_def)

lemma incr_Inr:
  assumes "run_state (redisRepo_RollbackStock a s q) w = (Inr (), w')" and "stock_is a s n w"
  shows "stock_is a s (n + q) w'"
proof -
  obtain m where "run_state (rdb_IncrBy (stock_key a s) q) w = (Inr m, w')"
    using assms(1) by (auto simp: redisRepo_RollbackStock_def split: prod.splits sum.splits)
  then obtain rs where "(case redis_num (stock_key a s) (w\<lparr>replies := rs\<rparr>) of Inl e \<Rightarrow> (Inl e, w\<lparr>replies := rs\<rparr>)
     | Inr i \<Rightarrow> if in_int64 (i + q) then (Inr (i + q), rset (stock_key a s) (RStr (SInt (i + q))) (w\<lparr>replies := rs\<rparr>))
               else (Inl (Driver (ServerError ''ERR increment or decrement would overflow'')), w\<lparr>replies := rs\<rparr>)) = (Inr m, w')"
    unfolding rdb_IncrBy_def by (elim call_Inr)
  moreover have st: "stock_is a s n (w\<lparr>replies := rs\<rparr>)" using assms(2) by (simp add: stock_is_def)
  ultimately show ?thesis using stock_is_lookup [OF st] stock_expiry [OF st]
    by (auto simp: redis_num_def stock_is_def split: if_splits)
qed

lemma del_Inr:
  assumes "run_state (del_keys [k]) w = (Inr (), w')"
  obtains rs where "w' = rdel k (w\<lparr>replies := rs\<rparr>)"
  using assms unfolding del_keys_def rdb_Del_def
  by (auto split: prod.splits sum.splits elim!: call_Inr)

lemma restore_Inr:
  assumes "run_state (mysqlRepo_RestoreUserCoupon c) w = (Inr (), w')"
  shows "\<forall>row \<in> set (user_coupons (core w')). ucr_ID row = c \<longrightarrow> ucr_Status row \<noteq> UserCouponStatusUsed"
proof
  fix r' assume "r' \<in> set (user_coupons (core w'))"
  then obtain r where "restored_coupon c r r'"
    using RestoreUserCoupon_run(2) [OF assms] by (auto simp: list_all2_conv_all_nth in_set_conv_nth)
  then show "ucr_ID r' = c \<longrightarrow> ucr_Status r' \<noteq> UserCouponStatusUsed"
    by (auto simp: restored_coupon_def UserCouponStatusUnused_def UserCouponStatusUsed_def split: if_splits)
qed

text \<open>What a repair owes a reservation whose order never came.\<close>

definition given_back :: "PendingReservation \<Rightarrow> int \<Rightarrow> world \<Rightarrow> bool" where
  "given_back p n w \<longleftrightarrow> stock_is (pr_ActivityID p) (pr_SkuID p) (n + pr_Quantity p) w \<and>
     \<not> bought (pr_ActivityID p) (pr_SkuID p) (pr_UserID p) w \<and>
     (pr_CouponID p \<noteq> 0 \<longrightarrow> (\<forall>row \<in> set (user_coupons (core w)).
        ucr_ID row = pr_CouponID p \<longrightarrow> ucr_Status row \<noteq> UserCouponStatusUsed))"

abbreviation pending_key :: "PendingReservation \<Rightarrow> string" where
  "pending_key p \<equiv> pendingReservationKey (pr_RequestID p)"

lemma drop_view: "k \<noteq> k' \<Longrightarrow> same (key_view k) (drop_key k')" "same core (drop_key k')"
  unfolding drop_key_def by (intro frame view_del; simp)+

lemma drop_key_gone:
  assumes run: "run_state (drop_key k) w = ((), w')" and "rlookup k w \<noteq> None" "rlookup k w' = None"
  shows "\<exists>rs. w' = rdel k (w\<lparr>replies := rs\<rparr>)"
proof -
  obtain r where "run_state (rdb_Del [k]) w = (r, w')" using run by (auto simp: drop_key_def split: prod.splits)
  then show ?thesis unfolding rdb_Del_def by (cases rule: call_cases) (use assms(2,3) in auto)
qed

lemma bought_view: "key_view (buy_key a s u) w' = key_view (buy_key a s u) w \<Longrightarrow> bought a s u w' = bought a s u w"
  using view_lookup [where k = "buy_key a s u" and w' = w' and w = w] by (simp add: bought_def rexists_def)

lemma given_back_view:
  assumes "\<And>a s. key_view (stock_key a s) w' = key_view (stock_key a s) w"
    and "\<And>a s u. key_view (buy_key a s u) w' = key_view (buy_key a s u) w" and "core w' = core w"
  shows "given_back p n w' = given_back p n w"
  unfolding given_back_def view_stock [OF assms(1)] bought_view [OF assms(2)] assms(3) ..

lemma given_back_drop:
  assumes "given_back p n w" and "run_state (drop_key (pending_key p)) w = ((), w')"
  shows "given_back p n w'"
proof -
  have "given_back p n w' = given_back p n w"
    by (rule given_back_view; rule sameD [OF drop_view(1) assms(2)] sameD [OF drop_view(2) assms(2)]) (simp_all add: keys_differ)
  then show ?thesis using assms(1) by simp
qed

lemma compensate_gone:
  assumes st: "stock_is (pr_ActivityID p) (pr_SkuID p) n w" and pk: "rlookup (pending_key p) w \<noteq> None"
    and run: "run_state (compensate_reservation (mysqlRepo E) (redisRepo E) (pending_key p) p) w = ((), w')"
    and gone: "rlookup (pending_key p) w' = None"
  shows "given_back p n w'"
proof -
  let ?a = "pr_ActivityID p" and ?s = "pr_SkuID p" and ?u = "pr_UserID p" and ?k = "pending_key p"
  obtain r1 w1 where 1: "run_state (redisRepo_RollbackStock ?a ?s (pr_Quantity p)) w = (r1, w1)" by fastforce
  have pk1: "rlookup ?k w1 \<noteq> None" using view_lookup [OF sameD [OF view_incr 1]] pk keys_differ by metis
  then have r1: "r1 = Inr ()" using run gone 1 by (cases r1) (auto simp: compensate_reservation_def redisRepo_def)
  have st1: "stock_is ?a ?s (n + pr_Quantity p) w1" using incr_Inr 1 st r1 by metis
  obtain r2 w2 where 2: "run_state (redisRepo_RemoveUserBuy ?a ?s ?u) w1 = (r2, w2)" by fastforce
  have pk2: "rlookup ?k w2 \<noteq> None"
    using view_lookup [OF sameD [OF view_del(2) 2 [unfolded redisRepo_RemoveUserBuy_def]]] pk1 keys_differ
    by (metis empty_iff empty_set set_ConsD)
  then have r2: "r2 = Inr ()" using run gone 1 2 r1 by (cases r2) (auto simp: compensate_reservation_def redisRepo_def)
  obtain rs where w2: "w2 = rdel (buy_key ?a ?s ?u) (w1\<lparr>replies := rs\<rparr>)"
    using 2 r2 del_Inr unfolding redisRepo_RemoveUserBuy_def by metis
  have st2: "stock_is ?a ?s (n + pr_Quantity p) w2 \<and> \<not> bought ?a ?s ?u w2"
    using st1 by (simp add: w2 stock_is_def bought_def rexists_def)
  show ?thesis
  proof (cases "pr_CouponID p = 0")
    case True
    then have "given_back p n w2" using st2 by (simp add: given_back_def)
    then show ?thesis using given_back_drop run 1 2 r1 r2 True by (simp add: compensate_reservation_def redisRepo_def)
  next
    case False
    let ?c = "pr_CouponID p"
    obtain r3 w3 where 3: "run_state (mysqlRepo_RestoreUserCoupon ?c) w2 = (r3, w3)" by fastforce
    have look: "key_view k w3 = key_view k w2" for k by (rule sameD [OF view_restore 3])
    have r3: "r3 = Inr ()"
    proof (cases r3)
      case (Inl e)
      then have "w' = w3" using run False 1 2 3 r1 r2
        by (simp add: compensate_reservation_def redisRepo_def mysqlRepo_def word_gt_0)
      then show ?thesis using gone pk2 view_lookup [OF look] by simp
    qed simp
    obtain r4 w4 where 4: "run_state (redisRepo_DeleteCoupon ?c) w3 = (r4, w4)" by fastforce
    have keep: "key_view k w4 = key_view k w3" if "k \<noteq> coupon_key ?c" for k
      by (rule sameD [OF view_del(2) 4 [unfolded redisRepo_DeleteCoupon_def]]) (use that in simp)
    have core4: "core w4 = core w3" by (rule sameD [OF neutral_del_keys 4 [unfolded redisRepo_DeleteCoupon_def]]) simp
    have "given_back p n w3" unfolding given_back_def view_stock [OF look] bought_view [OF look]
      using st2 restore_Inr [of ?c w2 w3] 3 r3 by simp
    then have "given_back p n w4" using given_back_view [of w4 w3, OF keep keep core4] keys_differ by metis
    then show ?thesis using given_back_drop run False 1 2 3 4 r1 r2 r3
      by (simp add: compensate_reservation_def redisRepo_def mysqlRepo_def word_gt_0)
  qed
qed

lemma by_request_cases:
  assumes "run_state (mysqlRepo_GetOrderByRequestID E q) w = (r, w')"
  obtains (known) rs oi where "w' = w\<lparr>replies := rs\<rparr>" "r = Inr oi" "\<exists>row \<in> set (orders (core w)). orw_RequestID row = q"
      "replies w = [] \<longrightarrow> rs = []"
  | (unknown) rs where "w' = w\<lparr>replies := rs\<rparr>" "r = Inl ErrOrderNotFound" "\<not> (\<exists>row \<in> set (orders (core w)). orw_RequestID row = q)"
      "replies w = [] \<longrightarrow> rs = []"
  | (failed) rs d where "w' = w\<lparr>replies := rs\<rparr>" "r = Inl (Driver d)" "replies w \<noteq> []"
proof -
  let ?p = "\<lambda>row. orw_RequestID row = q"
  obtain x w1 where x1: "run_state (first_on order_table ?p) w = (x, w1)" by fastforce
  then have x: "run_state (first_on order_table ?p) w = (x, w')"
    and r: "r = (case x of Inl e \<Rightarrow> Inl (not_found_as ErrOrderNotFound e) | Inr row \<Rightarrow> Inr (order_info E row))"
    using assms by (cases x; simp add: mysqlRepo_GetOrderByRequestID_def run_bindE run_on_error)+
  show ?thesis
  proof (cases "replies w = []")
    case True
    then have w': "w' = w\<lparr>replies := []\<rparr>" and "x = (case sql_first ?p (orders (core w)) of None \<Rightarrow> Inl RecordNotFound | Some r \<Rightarrow> Inr r)"
      using x by (auto simp: first_on_def query_def run_call_quiet split: option.splits)
    then show ?thesis using known [OF w'] unknown [OF w'] r
      by (auto simp: not_found_as_def sql_first_None dest: sql_first_Some split: option.splits)
  next
    case False
    show ?thesis using x unfolding first_on_def query_def
    proof (cases rule: call_cases)
      case (answered rs)
      then show ?thesis using known unknown r False
        by (auto simp: not_found_as_def sql_first_None dest: sql_first_Some split: option.splits)
    qed (use failed r False in \<open>auto simp: not_found_as_def\<close>)
  qed
qed

lemma restore_quiet:
  assumes "replies w = []"
  shows "\<exists>w'. run_state (mysqlRepo_RestoreUserCoupon c) w = (Inr (), w') \<and> replies w' = [] \<and> (\<forall>k. key_view k w' = key_view k w)"
proof -
  have "fst (run_state (mysqlRepo_RestoreUserCoupon c) w) = Inr () \<and> replies (snd (run_state (mysqlRepo_RestoreUserCoupon c) w)) = []"
    using assms by (auto simp: mysqlRepo_RestoreUserCoupon_def exec_on_def run_bindE run_call_quiet sql_exec_def list_ex_iff put_user_coupons_def)
  then show ?thesis using sameD [OF view_restore, of c w] by (metis prod.collapse)
qed

lemma compensate_quiet:
  assumes q: "replies w = []" and st: "stock_is (pr_ActivityID p) (pr_SkuID p) n w" and "in_int64 (n + pr_Quantity p)"
    and run: "run_state (compensate_reservation (mysqlRepo E) (redisRepo E) (pending_key p) p) w = ((), w')"
  shows "rlookup (pending_key p) w' = None"
proof -
  let ?a = "pr_ActivityID p" and ?s = "pr_SkuID p" and ?c = "pr_CouponID p"
  define w1 where "w1 = rset (stock_key ?a ?s) (RStr (SInt (n + pr_Quantity p))) w"
  define w2 where "w2 = rdel (buy_key ?a ?s (pr_UserID p)) w1"
  obtain w3 where w3: "run_state (mysqlRepo_RestoreUserCoupon ?c) w2 = (Inr (), w3)" and q3: "replies w3 = []"
    using restore_quiet [of w2 ?c] q by (auto simp: w1_def w2_def)
  have drop: "rlookup k (snd (run_state (drop_key k) x)) = None" if "replies x = []" for k x
    using that by (simp add: drop_key_def rdb_Del_def run_call_quiet)
  have "run_state (redisRepo_RollbackStock ?a ?s (pr_Quantity p)) w = (Inr (), w1)"
    unfolding w1_def by (rule incr_run [OF q st assms(3)])
  moreover have "run_state (redisRepo_RemoveUserBuy ?a ?s (pr_UserID p)) w1 = (Inr (), w2)"
    unfolding redisRepo_RemoveUserBuy_def w2_def by (rule del_run) (simp add: w1_def q)
  moreover have "run_state (redisRepo_DeleteCoupon ?c) w3 = (Inr (), rdel (coupon_key ?c) w3)"
    unfolding redisRepo_DeleteCoupon_def by (rule del_run [OF q3])
  ultimately show ?thesis using run w3 drop [of w2 "pending_key p"] drop [of "rdel (coupon_key ?c) w3" "pending_key p"] q q3
    by (auto simp: compensate_reservation_def redisRepo_def mysqlRepo_def w1_def w2_def split: if_splits)
qed

lemma get_cases:
  assumes "run_state (rdb_Get k) w = (d, w')" and "rlookup k w = Some (RStr x)"
  obtains rs where "w' = w\<lparr>replies := rs\<rparr>" "d = Inr x \<or> isl d \<and> replies w \<noteq> []" "replies w = [] \<longrightarrow> rs = []"
proof (cases "replies w = []")
  case True
  then have "w' = w\<lparr>replies := []\<rparr>" "d = Inr x" using assms by (auto simp: rdb_Get_def query_def run_call_quiet redis_get_def)
  then show ?thesis using that by blast
next
  case False
  from assms(1) show ?thesis unfolding rdb_Get_def query_def
    by (cases rule: call_cases) (use False assms(2) that in \<open>auto simp: redis_get_def\<close>)
qed

text \<open>C38: a pending reservation is only forgotten once it is settled: a young one is left alone; when the record
  is gone, either its order exists and the deletion of the record is all that happened to any store, so the user's mark
  and the stock are as they were, or no order exists and the stock, the user's mark
  and the coupon have been given back, whatever failed on the way.  When Redis and MySQL answer, a record older
  than two minutes is gone after one pass.\<close>

theorem repair_settles_before_it_forgets:
  assumes p: "rlookup (pending_key p) w = Some (RStr (SJson (DPending p)))"
    and st: "stock_is (pr_ActivityID p) (pr_SkuID p) n w"
    and run: "run_state (fix_pending (mysqlRepo E) (redisRepo E) (pending_key p)) w = ((), w')"
  shows "(clock w - pr_CreatedAt p * second < 2 * minute \<longrightarrow> core w' = core w \<and> keyspace w' = keyspace w) \<and>
     (rlookup (pending_key p) w' = None \<longrightarrow>
       (if \<exists>row \<in> set (orders (core w)). orw_RequestID row = pr_RequestID p
        then \<exists>rs. w' = rdel (pending_key p) (w\<lparr>replies := rs\<rparr>) \<and> core w' = core w \<and>
          stock_is (pr_ActivityID p) (pr_SkuID p) n w' \<and> (\<forall>k. k \<noteq> pending_key p \<longrightarrow> key_view k w' = key_view k w)
        else given_back p n w')) \<and>
     (replies w = [] \<and> 2 * minute \<le> clock w - pr_CreatedAt p * second \<and> in_int64 (n + pr_Quantity p) \<longrightarrow>
       rlookup (pending_key p) w' = None)"
proof -
  let ?k = "pending_key p" and ?young = "clock w - pr_CreatedAt p * second < 2 * minute"
  obtain d wd where d: "run_state (rdb_Get ?k) w = (d, wd)" by fastforce
  obtain rs where wd: "wd = w\<lparr>replies := rs\<rparr>" and dd: "d = Inr (SJson (DPending p)) \<or> isl d \<and> replies w \<noteq> []"
    and rep: "replies w = [] \<longrightarrow> rs = []"
    using get_cases [OF d p] .
  have r: "rlookup ?k wd = rlookup ?k w" "core wd = core w" "keyspace wd = keyspace w" "clock wd = clock w" by (simp_all add: wd)
  show ?thesis
  proof (cases "isl d \<or> ?young")
    case True
    then have "w' = wd" using run d dd by (cases d) (auto simp: fix_pending_def decode_pending_def wd)
    then show ?thesis using p r dd True by auto
  next
    case False
    then have d': "d = Inr (SJson (DPending p))" using dd by auto
    obtain o1 w1 where o1: "run_state (mysqlRepo_GetOrderByRequestID E (pr_RequestID p)) wd = (o1, w1)" by fastforce
    then show ?thesis
    proof (cases rule: by_request_cases)
      case (known rs' oi)
      have dr: "run_state (drop_key ?k) w1 = ((), w')"
        using run d d' False o1 known(2) by (simp add: fix_pending_def decode_pending_def mysqlRepo_def wd)
      have "\<exists>rs. w' = rdel ?k (w\<lparr>replies := rs\<rparr>)" if "rlookup ?k w' = None"
        using drop_key_gone [OF dr _ that] p by (auto simp: known(1) wd)
      moreover have "core w' = core w" using sameD [OF drop_view(2) dr] by (simp add: known(1) wd)
      moreover have view: "key_view k w' = key_view k w" if "k \<noteq> ?k" for k
        using sameD [OF drop_view(1) [OF that] dr] by (simp add: known(1) wd)
      moreover have "stock_is (pr_ActivityID p) (pr_SkuID p) n w'" using view_stock [OF view] st by (simp add: keys_differ)
      moreover have "rlookup ?k w' = None" if "replies w = []"
        using dr that rep known(4) by (auto simp: drop_key_def rdb_Del_def run_call_quiet known(1) wd)
      ultimately show ?thesis using False known(3) by (auto simp: wd)
    next
      case (unknown rs')
      have cr: "run_state (compensate_reservation (mysqlRepo E) (redisRepo E) ?k p) w1 = ((), w')"
        using run d d' False o1 unknown(2) by (simp add: fix_pending_def decode_pending_def mysqlRepo_def wd)
      have st1: "stock_is (pr_ActivityID p) (pr_SkuID p) n w1" "rlookup ?k w1 \<noteq> None" using st p by (simp_all add: unknown(1) wd)
      have "given_back p n w'" if "rlookup ?k w' = None" using compensate_gone [OF st1 cr that] .
      moreover have "rlookup ?k w' = None" if "replies w = []" "in_int64 (n + pr_Quantity p)"
        using compensate_quiet [OF _ st1(1) that(2) cr] that(1) rep unknown(4) by (simp add: unknown(1) wd)
      ultimately show ?thesis using False unknown(3) by (simp add: wd)
    next
      case (failed rs' e)
      then have "w' = w1" using run d d' False o1 by (simp add: fix_pending_def decode_pending_def mysqlRepo_def wd)
      then show ?thesis using p False failed(1,3) rep by (auto simp: wd)
    qed
  qed
qed

definition pending0 :: PendingReservation where
  "pending0 = \<lparr>pr_OrderNo = ''n1'', pr_RequestID = ''r1'', pr_UserID = 21, pr_ActivityID = 3, pr_SkuID = 7, pr_Quantity = 2,
     pr_CouponID = 0, pr_CreatedAt = 1\<rparr>"

definition repair_world :: world where
  "repair_world = w0\<lparr>clock := 200 * second, keyspace := [(stock_key 3 7, RStr (SInt 8), None),
     (buy_key 3 7 21, RStr (SInt 1), None), (pending_key pending0, RStr (SJson (DPending pending0)), None)]\<rparr>"

theorem repair_settles_before_it_forgets_witness:
  "let w' = snd (run_state (fix_pending (mysqlRepo E0) (redisRepo E0) (pending_key pending0)) repair_world) in
     stock_is 3 7 10 w' \<and> bought 3 7 21 repair_world \<and> \<not> bought 3 7 21 w' \<and> rlookup (pending_key pending0) w' = None"
proof -
  let ?m = "fix_pending (mysqlRepo E0) (redisRepo E0) (pending_key pending0)"
  have run: "run_state ?m repair_world = ((), snd (run_state ?m repair_world))" by (cases "run_state ?m repair_world") simp
  have p: "rlookup (pending_key pending0) repair_world = Some (RStr (SJson (DPending pending0)))"
    by (simp add: repair_world_def rlookup_def keys_differ [symmetric])
  have st: "stock_is (pr_ActivityID pending0) (pr_SkuID pending0) 8 repair_world"
    by (simp add: repair_world_def stock_is_def pending0_def)
  have "bought 3 7 21 repair_world" by (simp add: repair_world_def bought_def rexists_def rlookup_def)
  moreover have "replies repair_world = []" "2 * minute \<le> clock repair_world - pr_CreatedAt pending0 * second"
    "in_int64 (8 + pr_Quantity pending0)" "orders (core repair_world) = []"
    by (simp_all add: repair_world_def sample pending0_def minute_def second_def in_int64_def)
  ultimately show ?thesis using repair_settles_before_it_forgets [OF p st run] run
    by (simp add: given_back_def pending0_def)
qed

end
