(* ===== verification/Keyspace_Safety.thy ===== *)
theory Keyspace_Safety
  imports Recovery_Safety
begin

text \<open>
  The keyspace is well typed: the key tells which kind of value is stored under it, and every
  handler, consumer and job of the service keeps it so.  Hence no command of the service ever
  meets a value of the wrong kind.
\<close>

section \<open>Kinds\<close>

datatype kind = KString | KHash | KZset | KBloom

fun kind_of :: "rval \<Rightarrow> kind" where
  "kind_of (RStr s) = KString"
| "kind_of (RHash h) = KHash"
| "kind_of (RZset z) = KZset"
| "kind_of (RBloom b) = KBloom"

fun_cases kind_ofE: "kind_of v = KString" "kind_of v = KHash" "kind_of v = KZset" "kind_of v = KBloom"

definition key_kind :: "string \<Rightarrow> kind" where
  "key_kind k =
     (if k = delayQueueKey \<or> k = delayProcessingKey then KZset
      else if has_prefix ''seckill:bloom:'' k then KBloom
      else if has_prefix ''seckill:ratelimit:'' k then KHash
      else KString)"

lemma string_keys [simp]:
  "key_kind (stock_key a s) = KString" "key_kind (buy_key a s u) = KString" "key_kind (list_key i j l m) = KString"
  "key_kind (detail_key p a) = KString" "key_kind (product_key p a) = KString" "key_kind (coupon_key c) = KString"
  "key_kind (pendingReservationKey r) = KString" "key_kind (idempotent_key r) = KString"
  "key_kind (order_lock_key r) = KString" "key_kind (product_lock_key p a) = KString"
  "key_kind activity_lock_key = KString" "key_kind cacheKeyActivity = KString"
  by (simp_all add: key_kind_def has_prefix_def delayQueueKey_def delayProcessingKey_def key_defs idempotent_key_def
      order_lock_key_def product_lock_key_def activity_lock_key_def cacheKeyActivity_def)

lemma activity_keys_kind [simp]: "k \<in> set activity_keys \<Longrightarrow> key_kind k = KString"
proof -
  have "key_kind ''seckill:activity:current'' = KString" "key_kind ''seckill:current:activity'' = KString"
    by (simp_all add: key_kind_def has_prefix_def delayQueueKey_def delayProcessingKey_def)
  then show "k \<in> set activity_keys \<Longrightarrow> key_kind k = KString" unfolding activity_keys_def by force
qed

lemma other_keys [simp]:
  "key_kind (bloomProductKey a) = KBloom" "key_kind (user_limit_key u) = KHash" "key_kind global_limit_key = KHash"
  "key_kind (activity_limit_key a) = KHash" "key_kind delayQueueKey = KZset" "key_kind delayProcessingKey = KZset"
  by (simp_all add: key_kind_def has_prefix_def delayQueueKey_def delayProcessingKey_def bloomProductKey_def
      user_limit_key_def global_limit_key_def activity_limit_key_def)

definition typed :: "world \<Rightarrow> bool" where
  "typed w \<longleftrightarrow> (\<forall>k v e. map_of (keyspace w) k = Some (v, e) \<longrightarrow> kind_of v = key_kind k)"

lemma typed_lookup: "typed w \<Longrightarrow> rlookup k w = Some v \<Longrightarrow> kind_of v = key_kind k"
  by (auto simp: typed_def rlookup_def split: option.splits prod.splits if_splits)

lemma typed_world [simp]:
  "typed (w\<lparr>replies := a\<rparr>) = typed w" "typed (w\<lparr>clock := b\<rparr>) = typed w" "typed (w\<lparr>ticks := c\<rparr>) = typed w"
  "typed (w\<lparr>core := d\<rparr>) = typed w"
  by (simp_all add: typed_def)

lemma typed_rput: "typed w \<Longrightarrow> kind_of v = key_kind k \<Longrightarrow> typed (rput k v e w)"
  by (simp add: typed_def)

lemma typed_rset: "typed w \<Longrightarrow> kind_of v = key_kind k \<Longrightarrow> typed (rset k v w)"
  by (simp add: rset_def typed_rput)

lemma typed_rdel: "typed w \<Longrightarrow> typed (rdel k w)"
  by (simp add: typed_def)

lemma typed_dels: "typed w \<Longrightarrow> typed (fold rdel ks w)"
  by (induction ks arbitrary: w) (simp_all add: typed_rdel)

lemma typed_zput: "typed w \<Longrightarrow> key_kind k = KZset \<Longrightarrow> typed (zput k z w)"
  by (simp add: zput_def typed_rset typed_rdel)

lemmas typed_puts = typed_rput typed_rset typed_rdel typed_zput typed_dels

section \<open>Commands and scripts\<close>

lemma typed_run_pipe:
  assumes "\<And>c w. c \<in> set cs \<Longrightarrow> typed w \<Longrightarrow> typed (snd (c w))" and "typed w"
  shows "typed (snd (run_pipe cs w))"
  using assms
proof (induction cs arbitrary: w)
  case (Cons c cs)
  have "typed (snd (run_pipe cs (snd (c w))))" using Cons by simp
  then show ?case by (simp split: prod.split) (metis snd_conv)
qed simp

lemma typed_cmds:
  "typed w \<Longrightarrow> key_kind k = KString \<Longrightarrow> typed (snd (cmd_SetEX k v t w))"
  "typed w \<Longrightarrow> key_kind k = KString \<Longrightarrow> typed (snd (cmd_Set k v w))"
  "typed w \<Longrightarrow> key_kind k = KBloom \<Longrightarrow> typed (snd (cmd_BFADD k x w))"
  "typed w \<Longrightarrow> key_kind k = KZset \<Longrightarrow> typed (snd (cmd_ZADD k s m w))"
  "typed w \<Longrightarrow> key_kind k = KZset \<Longrightarrow> typed (snd (cmd_ZREM k m w))"
  by (auto simp: cmd_SetEX_def cmd_Set_def cmd_BFADD_def cmd_ZADD_def cmd_ZREM_def typed_puts
      split: option.split rval.split sum.split)

lemma typed_product_commands: "c \<in> set (product_commands pr) \<Longrightarrow> typed w \<Longrightarrow> typed (snd (c w))"
  by (cases pr) (auto simp: product_commands_def typed_cmds)

lemma typed_scripts:
  "typed w \<Longrightarrow> key_kind sk = KString \<Longrightarrow> key_kind uk = KString \<Longrightarrow> typed (snd (deduct_script sk uk q t w))"
  "typed w \<Longrightarrow> key_kind k = KString \<Longrightarrow> typed (snd (acquire_script k tok ms w))"
  "typed w \<Longrightarrow> key_kind k = KString \<Longrightarrow> typed (snd (release_script k tok w))"
  "typed w \<Longrightarrow> key_kind k = KHash \<Longrightarrow> typed (snd (tokenBucketScript E k r c n w))"
  by (auto simp: deduct_script_def acquire_script_def release_script_def tokenBucketScript_def Let_def
      typed_puts split: option.split rval.split sval.split sum.split)

lemma typed_move_items:
  assumes "typed w" and "key_kind src = KZset" "key_kind dst = KZset"
  shows "typed (snd (move_items src dst s ms w))"
  using assms(1)
proof (induction ms arbitrary: w)
  case (Cons m ms)
  have 1: "typed (snd (cmd_ZREM src m w))" using typed_cmds(5) Cons.prems assms(2) .
  have 2: "typed (snd (cmd_ZADD dst s m (snd (cmd_ZREM src m w))))" using typed_cmds(4) 1 assms(3) .
  show ?case using 1 2 Cons.IH [OF 1] Cons.IH [OF 2]
    by (auto split: prod.split sum.split)
qed simp

lemma typed_queue_scripts:
  assumes "typed w" and "key_kind src = KZset" "key_kind dst = KZset"
  shows "typed (snd (claim_script src dst now t l w))" "typed (snd (requeue_script src dst now l w))"
proof -
  have m: "typed w'" if "move_items src dst s ms w = (r, w')" for s ms r w'
    using typed_move_items [OF assms, of s ms] that by simp
  show "typed (snd (claim_script src dst now t l w))" "typed (snd (requeue_script src dst now l w))"
    using assms(1) typed_move_items [OF assms] by (auto simp: claim_script_def requeue_script_def dest: m split: prod.split sum.split)
qed

lemma typed_call: "(\<And>w. typed w \<Longrightarrow> typed (snd (f w))) \<Longrightarrow> keeps typed (call f)"
  by (rule keeps_call) simp_all

lemma typed_same: "same keyspace m \<Longrightarrow> keeps typed m"
  using keeps_same [of keyspace m "\<lambda>ks. \<forall>k v e. map_of ks k = Some (v, e) \<longrightarrow> kind_of v = key_kind k"]
  by (simp add: typed_def [abs_def])

lemma typed_client:
  "keeps typed (query g)" "keeps typed (rdb_Del ks)" "keeps typed (del_keys ks)"
  "key_kind k = KString \<Longrightarrow> keeps typed (rdb_Set k v)" "key_kind k = KString \<Longrightarrow> keeps typed (rdb_SetEX k v t)"
  "key_kind k = KString \<Longrightarrow> keeps typed (rdb_SetNX k v t)" "key_kind k = KString \<Longrightarrow> keeps typed (rdb_IncrBy k d)"
proof -
  show "keeps typed (query g)" by (rule keeps_query) simp
  show d: "keeps typed (rdb_Del ks)" unfolding rdb_Del_def by (rule typed_call) (simp add: typed_puts)
  show "keeps typed (del_keys ks)" unfolding del_keys_def by (intro inv_rules d)
  show "keeps typed (rdb_Set k v)" "keeps typed (rdb_SetEX k v t)" "keeps typed (rdb_SetNX k v t)" "keeps typed (rdb_IncrBy k d)"
    if "key_kind k = KString" for k v t d
    unfolding rdb_Set_def rdb_SetEX_def rdb_SetNX_def rdb_IncrBy_def
    by (rule typed_call, simp add: typed_puts that split: sum.split)+
qed

section \<open>Redis methods\<close>

lemma typed_Now: "keeps typed Now" "keeps typed tick" "keeps typed (Int63n E n)" "keeps typed (NewString E)" "keeps typed (Sleep d)"
  by (rule typed_same; intro frame; simp)+

lemma typed_jitter: "keeps typed (addRandomJitter E t)"
  unfolding addRandomJitter_def by (intro inv_rules typed_Now)

lemma typed_batch: "keeps typed (redisRepo_batchSetProducts E ps)"
proof -
  have "keeps typed (map_each (\<lambda>_. Int63n E 600) ps)" by (rule typed_same; intro frame; simp)
  moreover have "keeps typed (pipe_Exec (concat (map product_commands prs)))" for prs
    unfolding pipe_Exec_def by (rule typed_call, rule typed_run_pipe) (auto intro: typed_product_commands)
  ultimately show ?thesis unfolding redisRepo_batchSetProducts_def by (intro inv_rules)
qed

lemma typed_delete_pages: "keeps typed (delete_pages pre pages)"
  by (induction pages) (simp_all add: inv_rules rdb_Scan_def typed_client)

lemma typed_cache:
  "keeps typed (redisRepo_BatchSetProducts E ps)" "keeps typed (redisRepo_GetProductList i pg sz srt)"
  "keeps typed (redisRepo_SetProductList E i pg sz srt ls t)" "keeps typed (redisRepo_GetProductDetail p a)"
  "keeps typed (redisRepo_SetProductDetail E p a dt t)" "keeps typed (redisRepo_DeleteProductDetail p a)"
  "keeps typed (redisRepo_DeleteProductLists E a)" "keeps typed (redisRepo_BloomExists E a p)"
  "keeps typed (redisRepo_GetStock a s)" "keeps typed (redisRepo_SetStock a s n)"
  "keeps typed (redisRepo_DeductStock a s u n)" "keeps typed (redisRepo_RollbackStock a s n)"
  "keeps typed (redisRepo_CheckUserBuy a s u)" "keeps typed (redisRepo_MarkUserBuy a s u ttl)"
  "keeps typed (redisRepo_RemoveUserBuy a s u)" "keeps typed (redisRepo_SetCurrentActivity E act t)"
  "keeps typed redisRepo_DeleteCurrentActivity" "keeps typed (redisRepo_DeleteCoupon c)"
  "keeps typed (redisRepo_SetPendingReservation r t)" "keeps typed (redisRepo_DeletePendingReservation k)"
  unfolding redisRepo_BatchSetProducts_def redisRepo_GetProductList_def redisRepo_SetProductList_def
    redisRepo_GetProductDetail_def redisRepo_SetProductDetail_def redisRepo_DeleteProductDetail_def
    redisRepo_DeleteProductLists_def redisRepo_deleteByPattern_def redisRepo_BloomExists_def redisRepo_GetStock_def
    redisRepo_SetStock_def redisRepo_DeductStock_def redisRepo_RollbackStock_def redisRepo_CheckUserBuy_def
    redisRepo_MarkUserBuy_def redisRepo_RemoveUserBuy_def redisRepo_SetCurrentActivity_def
    redisRepo_DeleteCurrentActivity_def redisRepo_DeleteCoupon_def redisRepo_SetPendingReservation_def
    redisRepo_DeletePendingReservation_def rdb_Get_def rdb_Exists_def pipe_Exec_def
  by (intro inv_rules typed_batch typed_jitter typed_delete_pages typed_client typed_call typed_scripts typed_run_pipe;
      auto simp: typed_cmds)+

lemma typed_locks:
  "key_kind k = KString \<Longrightarrow> keeps typed (redisRepo_AcquireLock k tok t)"
  "key_kind k = KString \<Longrightarrow> keeps typed (redisRepo_ReleaseLock k tok)"
  "keeps typed (rdb_Get k')" "keeps typed (rdb_Scan pre page)"
  unfolding redisRepo_AcquireLock_def redisRepo_ReleaseLock_def rdb_Get_def rdb_Scan_def
  by (intro inv_rules typed_client typed_call typed_scripts; simp)+

lemma typed_guards:
  "keeps typed (CheckAndMark r t)" "keeps typed (UserRateLimit E u n b d)" "keeps typed (GlobalRateLimit E n b d)"
  "keeps typed (ActivityRateLimit E a n b d)" "keeps typed (DelayQueue_Add k d)" "keeps typed runOnce"
  unfolding CheckAndMark_def UserRateLimit_def GlobalRateLimit_def ActivityRateLimit_def runBucket_def DelayQueue_Add_def
    runOnce_def requeueExpiredProcessing_def claimDueOrders_def nextPollTime_def rdb_ZFirst_def
  by (intro inv_rules typed_client typed_call typed_scripts typed_cmds typed_queue_scripts typed_Now; simp)+

section \<open>Handlers, consumers and jobs\<close>

text \<open>The MySQL repository and the producer do not touch Redis.\<close>

lemma typed_sql:
  "keeps typed (mysqlRepo_ListSeckillProducts i pg sz srt)" "keeps typed (mysqlRepo_GetSeckillProductDetail E p a)"
  "keeps typed (mysqlRepo_GetCurrentActivity E)" "keeps typed (mysqlRepo_UpdateSeckillActivity E q1)"
  "keeps typed (mysqlRepo_UpdateSeckillProduct q2)" "keeps typed (mysqlRepo_GetUserAddress n)"
  "keeps typed (mysqlRepo_DecreaseStock s m v)" "keeps typed (mysqlRepo_RestoreStock s m)"
  "keeps typed (mysqlRepo_CreateOrder od)" "keeps typed (mysqlRepo_CreateOrderShipping k sn)"
  "keeps typed (mysqlRepo_GetOrder E k)" "keeps typed (mysqlRepo_GetOrderByRequestID E k)"
  "keeps typed (mysqlRepo_GetOrderForUpdate E k)" "keeps typed (mysqlRepo_UpdateOrderStatus k st st')"
  "keeps typed (mysqlRepo_CreateDeadLetterMessage dm)" "keeps typed (mysqlRepo_GetDeadLetterMessageByEventID k)"
  "keeps typed (mysqlRepo_MarkDeadLetterReplayed k)" "keeps typed (mysqlRepo_CreatePayInfo pay)"
  "keeps typed (mysqlRepo_GrantUserCoupon E g t)" "keeps typed (mysqlRepo_GetUserCouponForUse E c u)"
  "keeps typed (mysqlRepo_UseUserCoupon c)" "keeps typed (mysqlRepo_RestoreUserCoupon c)"
  "keeps typed (mysqlRepo_ListUserCoupons E u st pg sz)" "keeps typed (mysqlRepo_GetPayInfoByPlatformNumber k)"
  "keeps typed (mysqlRepo_GetPayInfoByOrderNo k)" "keeps typed (mysqlRepo_CheckUserBuyRecord u a)"
  unfolding mysqlRepo_ListSeckillProducts_def mysqlRepo_GetSeckillProductDetail_def mysqlRepo_GetCurrentActivity_def
    mysqlRepo_UpdateSeckillActivity_def mysqlRepo_UpdateSeckillProduct_def mysqlRepo_GetUserAddress_def
    mysqlRepo_DecreaseStock_def mysqlRepo_RestoreStock_def mysqlRepo_CreateOrder_def mysqlRepo_CreateOrderShipping_def
    mysqlRepo_GetOrder_def mysqlRepo_GetOrderByRequestID_def mysqlRepo_GetOrderForUpdate_def mysqlRepo_UpdateOrderStatus_def
    mysqlRepo_CreateDeadLetterMessage_def mysqlRepo_GetDeadLetterMessageByEventID_def mysqlRepo_MarkDeadLetterReplayed_def
    mysqlRepo_CreatePayInfo_def mysqlRepo_GrantUserCoupon_def mysqlRepo_getOrCreateCouponTemplate_def
    mysqlRepo_GetUserCouponForUse_def mysqlRepo_UseUserCoupon_def mysqlRepo_RestoreUserCoupon_def
    mysqlRepo_ListUserCoupons_def mysqlRepo_GetPayInfoByPlatformNumber_def mysqlRepo_GetPayInfoByOrderNo_def
    mysqlRepo_CheckUserBuyRecord_def
    first_user_coupon_def preload_coupon_def Let_def
  by (rule typed_same; intro frame; simp add: put_defs)+

lemma typed_pay_status: "keeps typed (mysqlRepo_UpdatePayInfoStatus k a b)"
  unfolding mysqlRepo_UpdatePayInfoStatus_def by (rule typed_same; intro frame; simp add: put_defs)

lemma typed_mq:
  "keeps typed (Send E T msg)" "keeps typed (SendToRetry E T msg k d)" "keeps typed (SendToDLQ E T msg s k t i q)"
  "keeps typed (SendParseFailureToDLQ E T v t i q s h)" "keeps typed (idgen_NextString (NewIDGenerator E))"
  unfolding Send_def SendToRetry_def SendToDLQ_def SendParseFailureToDLQ_def SendEvent_def SendMessage_def Let_def
    NewIDGenerator_def snowflake_NextString_def snowflake_NextID_def IDGenerator.select_convs
  by (rule typed_same; intro frame; simp)+

lemma typed_tx: "keeps typed fn \<Longrightarrow> keeps typed (ExecTx fn)"
  by (rule keeps_ExecTx) (simp_all, (drule_tac s = w in keepsD; simp)+)

text \<open>After the structural rules have taken an operation apart, these facts close its calls.\<close>

lemmas typed_calls = part_simps typed_cache typed_locks typed_guards typed_sql typed_pay_status typed_mq typed_client typed_Now

lemma keeps_case_bool [inv_rules]: "keeps I m \<Longrightarrow> keeps I n \<Longrightarrow> keeps I (case_bool m n b)"
  by (cases b) auto

lemma keeps_map_each [inv_rules]: "(\<And>x. keeps I (g x)) \<Longrightarrow> keeps I (map_each g xs)"
  by (induction xs) (simp_all add: keeps_return keeps_bind)

lemma typed_detail: "keeps typed (getProductDetailWithMutex E (wired E T) n p a)"
proof (induction n)
  case (Suc n)
  have "keeps typed (fillProductDetail (wired E T) p a)"
    unfolding fillProductDetail_def by (intro inv_rules; simp add: typed_calls)
  then show ?case unfolding getProductDetailWithMutex.simps
    by (intro inv_rules Suc.IH; simp add: typed_calls)
qed (simp, intro inv_rules)

lemma typed_repo_activity: "keeps typed (repo_activity (wired E T))"
  unfolding repo_activity_def by (intro inv_rules; simp add: typed_calls)

lemma typed_activity: "keeps typed (getActivityFromCacheWithMutex E (wired E T) n)"
proof (induction n)
  case (Suc n)
  have "keeps typed (fillActivity (wired E T))"
    unfolding fillActivity_def by (intro inv_rules typed_repo_activity; simp add: typed_calls)
  then show ?case unfolding getActivityFromCacheWithMutex.simps
    by (intro inv_rules Suc.IH typed_repo_activity; simp add: typed_calls)
qed (simp, intro inv_rules)

lemma typed_catalog:
  "keeps typed (ListSeckillProducts (wired E T) v i pg sz srt)" "keeps typed (GetSeckillProductDetail E (wired E T) n u p a)"
  "keeps typed (WarmUpSeckillCache (wired E T) a)"
  unfolding ListSeckillProducts_def activity_or_current_def mark_bought_def Let_def GetSeckillProductDetail_def
    WarmUpSeckillCache_def warm_product_def
  by (intro inv_rules typed_repo_activity typed_detail; simp add: typed_calls)+

lemma typed_updates:
  "keeps typed (UpdateSeckillActivity (wired E T) q1)" "keeps typed (UpdateSeckillProduct (wired E T) q2)"
  unfolding UpdateSeckillActivity_def InvalidateActivityCache_def UpdateSeckillProduct_def InvalidateProductCache_def
  by (intro inv_rules typed_catalog; simp add: typed_calls)+

lemma typed_give_back: "keeps typed (give_back_coupon (wired E T) c)"
  unfolding give_back_coupon_def by (intro inv_rules; simp add: typed_calls)

lemma typed_create: "keeps typed (CreateSeckillOrder E (wired E T) n req)"
  unfolding CreateSeckillOrder_def create_guards_def not_bought_def applyCoupon_def reserve_def send_order_def Let_def
  by (intro inv_rules typed_detail typed_activity typed_give_back; simp add: typed_calls)

lemma typed_orders:
  "keeps typed (ConfirmSeckillOrder (wired E T) msg)" "keeps typed (CancelTimeoutOrder (orderCancelService E) k)"
  "keeps typed (HandlePayCallback E (wired E T) q)" "keeps typed (PaySeckillOrder E (wired E T) pq)"
  "keeps typed (RollbackSeckillReservation (wired E T) msg)" "keeps typed (GrantCouponByReview (wired E T) g)"
  unfolding ConfirmSeckillOrder_def confirm_body_def CancelTimeoutOrder_def cancel_body_def HandlePayCallback_def
    callback_body_def PaySeckillOrder_def pay_body_def RollbackSeckillReservation_def GrantCouponByReview_def Let_def
  by (intro inv_rules typed_tx typed_give_back; simp add: typed_calls)+

lemma typed_queries:
  "keeps typed (GetSeckillOrder (wired E T) k u)" "keeps typed (GetSeckillResult (wired E T) u k)"
  "keeps typed (ListUserCoupons (wired E T) u st pg sz)" "keeps typed (ReplayDeadLetter (wired E T) k)"
  "keeps typed (CancelOrder (wired E T) k u)"
  unfolding GetSeckillOrder_def GetSeckillResult_def ListUserCoupons_def ReplayDeadLetter_def CancelOrder_def Let_def
  by (intro inv_rules; (simp only: wired_simps typed_orders)?; simp add: typed_calls)+

lemma typed_rpcs:
  "keeps typed (rpc_SeckillProducts (wired E T) q1)" "keeps typed (rpc_SeckillProductDetail E (wired E T) n q2)"
  "keeps typed (rpc_GetCurrentActivity (wired E T))" "keeps typed (rpc_CreateSeckillOrder E (wired E T) n q3)"
  "keeps typed (rpc_GetSeckillOrder (wired E T) k i)" "keeps typed (rpc_GetSeckillResult (wired E T) i k)"
  "keeps typed (rpc_PaySeckillOrder E (wired E T) k i p)" "keeps typed (rpc_PayCallback E (wired E T) q6)"
  "keeps typed (rpc_GrantCouponByReview (wired E T) q4)" "keeps typed (rpc_ListUserCoupons (wired E T) i st pg sz)"
  "keeps typed (rpc_UpdateSeckillActivity (wired E T) q5)" "keeps typed (rpc_UpdateSeckillProduct (wired E T) q7)"
  "keeps typed (rpc_ReplayDeadLetter (wired E T) k)"
  unfolding rpc_SeckillProducts_def rpc_SeckillProductDetail_def rpc_GetCurrentActivity_def
    rpc_CreateSeckillOrder_def rpc_GetSeckillOrder_def rpc_GetSeckillResult_def rpc_PaySeckillOrder_def rpc_PayCallback_def
    rpc_GrantCouponByReview_def rpc_ListUserCoupons_def rpc_UpdateSeckillActivity_def rpc_UpdateSeckillProduct_def
    rpc_ReplayDeadLetter_def Let_def
  by (intro inv_rules typed_catalog typed_updates typed_create typed_orders typed_queries; simp add: typed_calls)+

lemma typed_commit: "keeps typed (commit_offset m)" "keeps typed (wait_or_done d)"
  unfolding wait_or_done_def by (rule typed_same, rule sameI, simp add: commit_offset_def) (intro inv_rules typed_Now; simp)

lemma typed_final_failure: "keeps typed (handleFinalFailture (wired E T) (producer E T) m msg err)"
  unfolding handleFinalFailture_def commit_unless_def by (intro inv_rules typed_orders; simp add: typed_calls)

lemma typed_consume: "keeps typed (processMessage T (wired E T) (producer E T) m)"
  unfolding processMessage_def consumer_handle_def handleOrderTopic_def handleRetryTopic_def confirmed_def routeFailure_def
    commit_unless_def
  by (intro inv_rules typed_orders typed_commit typed_final_failure typed_Now; simp add: typed_calls)

lemma typed_dlq: "keeps typed (dlq_processMessage (mysqlRepo E) m)"
  unfolding dlq_processMessage_def dlq_handle_def by (intro inv_rules typed_commit; simp add: typed_calls)

lemma typed_cancel_task: "keeps typed (cancelTask E (orderCancelService E) k)"
  unfolding cancelTask_def handleTimeout_def
  by (intro inv_rules typed_orders typed_call typed_scripts typed_cmds; simp add: typed_calls)

lemma typed_compensate: "keeps typed (compensate_tick E (mysqlRepo E) (redisRepo E))"
proof -
  have "keeps typed (fix_pending (mysqlRepo E) (redisRepo E) k)" for k
    unfolding fix_pending_def compensate_reservation_def drop_key_def by (intro inv_rules; simp add: typed_calls)
  then have "keeps typed (fix_pages (mysqlRepo E) (redisRepo E) pages)" for pages
    by (induction pages) (simp_all add: inv_rules typed_calls)
  then show ?thesis
    unfolding compensate_tick_def fixPendingReservations_def syncStockConsistency_def sync_product_def
    by (intro inv_rules; simp add: typed_calls)
qed

lemma typed_action: "keeps typed (run_action E T a)"
  by (cases a) (simp_all add: keeps_ignore typed_rpcs typed_queries typed_consume typed_dlq typed_cancel_task typed_compensate
      typed_guards typed_Now)

text \<open>C39: Redis stays well typed: from a keyspace where every key holds the kind of value its name stands for, every
  sequence of requests, messages and jobs, with any call refused or its answer lost, leads to such a keyspace
  again; so no string, queue, bucket or Bloom filter command of the service is ever refused for a value of the
  wrong kind.\<close>

theorem keyspace_stays_typed:
  assumes "history E T w as w'" and "typed w"
  shows "typed w' \<and>
     (\<forall>k. key_kind k = KString \<longrightarrow> redis_get k w' \<noteq> Inl WrongType \<and> redis_num k w' \<noteq> Inl WrongType) \<and>
     (\<forall>k. key_kind k = KHash \<longrightarrow> hash_get k f w' \<noteq> Inl WrongType) \<and>
     (\<forall>k. key_kind k = KZset \<longrightarrow> zset k w' \<noteq> Inl WrongType) \<and>
     (\<forall>k. key_kind k = KBloom \<longrightarrow> cmd_BFEXISTS E k x w' \<noteq> Inl WrongType)"
proof -
  have t: "typed w'" by (rule history_keeps [OF assms typed_action])
  have k: "kind_of v = key_kind k" if "rlookup k w' = Some v" for k v using typed_lookup [OF t that] .
  have "redis_get k w' \<noteq> Inl WrongType" "redis_num k w' \<noteq> Inl WrongType" if "key_kind k = KString" for k
    using that k [of k] by (auto simp: redis_get_def redis_num_def split: option.split rval.split sval.split)
  moreover have "hash_get k f w' \<noteq> Inl WrongType" if "key_kind k = KHash" for k
    using that k [of k] by (auto simp: hash_get_def split: option.split rval.split)
  moreover have "zset k w' \<noteq> Inl WrongType" if "key_kind k = KZset" for k
    using that k [of k] by (auto simp: zset_def split: option.split rval.split)
  moreover have "cmd_BFEXISTS E k x w' \<noteq> Inl WrongType" if "key_kind k = KBloom" for k
    using that k [of k] by (auto simp: cmd_BFEXISTS_def split: option.split rval.split)
  ultimately show ?thesis using t by blast
qed

theorem keyspace_stays_typed_witness:
  "\<exists>w'. history E0 topics0 queue_world [PollDelayQueue, CancelTask ''n1'', ConsumeOrder order0, CompensateTick] w' \<and>
     typed w' \<and> zset delayQueueKey w' \<noteq> Inl WrongType"
proof -
  obtain w' where h: "history E0 topics0 queue_world [PollDelayQueue, CancelTask ''n1'', ConsumeOrder order0, CompensateTick] w'"
    using history_total by blast
  have "typed queue_world" by (simp add: typed_def queue_world_def)
  from keyspace_stays_typed [OF h this] h show ?thesis using other_keys(5) by blast
qed

end
