(* ===== verification/Isolation.thy ===== *)
theory Isolation
  imports Mysql_Repo
begin

text \<open>
  Transactions of MySQL that overlap.  Elsewhere a transaction runs from its first statement to its last
  without another one in between; here it is a sequence of statements that lock rows, and what
  \<open>coreDB.Transaction\<close> of \<open>internal/data/transaction.go\<close> gives its body is made explicit: statements that change
  rows or read them \<open>FOR UPDATE\<close> lock them to the end of the transaction, see the committed version of
  other rows, and are undone when the transaction is rolled back.  The result is
  \<open>overlapping_is_serial\<close>: transactions whose statements stay on the rows they lock have the
  effect of the committed ones in some order.
\<close>

section \<open>Rows and locks\<close>

text \<open>A row that a statement can lock, by the unique key the statement finds it with.\<close>

datatype rowkey = OrderRow string | SkuRow u64 | UserCouponRow u64

text \<open>\<open>mix R c d\<close>: the core database \<open>c\<close> with the rows in \<open>R\<close> as they are in \<open>d\<close>.\<close>

definition mix_rows :: "('r \<Rightarrow> rowkey) \<Rightarrow> rowkey set \<Rightarrow> 'r list \<Rightarrow> 'r list \<Rightarrow> 'r list" where
  "mix_rows key R xs ys = map2 (\<lambda>x y. if key x \<in> R then y else x) xs ys"

abbreviation order_key :: "SeckillOrderRow \<Rightarrow> rowkey" where
  "order_key r \<equiv> OrderRow (orw_OrderNo r)"

abbreviation sku_key :: "SeckillSkuRow \<Rightarrow> rowkey" where
  "sku_key r \<equiv> SkuRow (sku_ID r)"

abbreviation user_coupon_key :: "UserCouponRow \<Rightarrow> rowkey" where
  "user_coupon_key r \<equiv> UserCouponRow (ucr_ID r)"

definition mix :: "rowkey set \<Rightarrow> core_db \<Rightarrow> core_db \<Rightarrow> core_db" where
  "mix R c d = c\<lparr>orders := mix_rows order_key R (orders c) (orders d),
     skus := mix_rows sku_key R (skus c) (skus d),
     user_coupons := mix_rows user_coupon_key R (user_coupons c) (user_coupons d)\<rparr>"

text \<open>Updates keep the tables, their rows and the keys of these.\<close>

definition same_keys :: "core_db \<Rightarrow> core_db \<Rightarrow> bool" where
  "same_keys c d \<longleftrightarrow> map order_key (orders c) = map order_key (orders d) \<and> map sku_key (skus c) = map sku_key (skus d) \<and>
     map user_coupon_key (user_coupons c) = map user_coupon_key (user_coupons d) \<and>
     activities c = activities d \<and> coupons c = coupons d \<and> shippings c = shippings d"

lemma same_keys_refl [simp]: "same_keys c c"
  by (simp add: same_keys_def)

lemma same_keys_sym: "same_keys c d \<Longrightarrow> same_keys d c"
  by (simp add: same_keys_def)

lemma same_keys_trans: "same_keys c d \<Longrightarrow> same_keys d e \<Longrightarrow> same_keys c e"
  by (simp add: same_keys_def)

text \<open>A mixture of lists with the same keys, row by row.\<close>

lemma length_mix_rows: "map key xs = map key ys \<Longrightarrow> length (mix_rows key R xs ys) = length xs"
  by (auto simp: mix_rows_def dest: map_eq_imp_length_eq)

lemma nth_mix_rows:
  "map key xs = map key ys \<Longrightarrow> i < length xs \<Longrightarrow> mix_rows key R xs ys ! i = (if key (xs ! i) \<in> R then ys ! i else xs ! i)"
  by (auto simp: mix_rows_def dest: map_eq_imp_length_eq)

lemma key_nth: "map key xs = map key ys \<Longrightarrow> i < length xs \<Longrightarrow> key (xs ! i) = key (ys ! i)"
  by (metis length_map nth_map)

lemma map_mix_rows: "map key xs = map key ys \<Longrightarrow> map key (mix_rows key R xs ys) = map key xs"
proof (rule nth_equalityI)
  assume k: "map key xs = map key ys"
  show "length (map key (mix_rows key R xs ys)) = length (map key xs)"
    using length_mix_rows [OF k] by simp
  fix i assume "i < length (map key (mix_rows key R xs ys))"
  then have i: "i < length xs" using length_mix_rows [OF k] by simp
  then show "map key (mix_rows key R xs ys) ! i = map key xs ! i"
    using key_nth [OF k i] by (simp add: length_mix_rows [OF k] nth_mix_rows [OF k])
qed

lemmas mix_rows_rules = length_mix_rows nth_mix_rows map_mix_rows

lemma mix_rows_empty: "map key xs = map key ys \<Longrightarrow> mix_rows key {} xs ys = xs"
  by (rule nth_equalityI) (auto simp: mix_rows_rules)

lemma mix_rows_again:
  "map key xs = map key ys \<Longrightarrow> mix_rows key R xs (mix_rows key R xs ys) = mix_rows key R xs ys"
  by (rule nth_equalityI) (auto simp: mix_rows_rules)

lemma mix_rows_swap:
  assumes "map key xs = map key ys" and "map key xs = map key zs" and "R \<inter> S = {}"
  shows "mix_rows key R (mix_rows key S xs ys) zs = mix_rows key S (mix_rows key R xs zs) ys"
proof (rule nth_equalityI)
  have l: "length xs = length ys" "length xs = length zs" using assms(1,2) map_eq_imp_length_eq by blast+
  show "length (mix_rows key R (mix_rows key S xs ys) zs) = length (mix_rows key S (mix_rows key R xs zs) ys)"
    using assms(1,2) by (simp add: mix_rows_rules)
  fix i assume "i < length (mix_rows key R (mix_rows key S xs ys) zs)"
  then have i: "i < length xs" using assms(1,2) by (simp add: mix_rows_rules)
  have "key (ys ! i) = key (xs ! i)" "key (zs ! i) = key (xs ! i)" using assms(1,2) i key_nth by metis+
  then show "mix_rows key R (mix_rows key S xs ys) zs ! i = mix_rows key S (mix_rows key R xs zs) ys ! i"
    using assms i by (auto simp: mix_rows_rules)
qed

text \<open>After a change of the rows in \<open>S\<close> only, the rows that differ from the old ones are in \<open>R \<union> S\<close>.\<close>

lemma mix_rows_grow:
  assumes "map key xs = map key ys" and "map key ys = map key zs"
    and "mix_rows key R xs ys = ys" and "mix_rows key S ys zs = zs"
  shows "mix_rows key (R \<union> S) xs zs = zs"
proof (rule nth_equalityI)
  have l: "length xs = length zs" using assms(1,2) map_eq_imp_length_eq by metis
  show "length (mix_rows key (R \<union> S) xs zs) = length zs" using assms(1,2) l by (simp add: mix_rows_rules)
  fix i assume "i < length (mix_rows key (R \<union> S) xs zs)"
  then have i: "i < length xs" using assms(1,2) by (simp add: mix_rows_rules)
  have k: "key (ys ! i) = key (xs ! i)" using assms(1) i key_nth by metis
  have "ys ! i = (if key (xs ! i) \<in> R then ys ! i else xs ! i)" "zs ! i = (if key (ys ! i) \<in> S then zs ! i else ys ! i)"
    using nth_mix_rows [OF assms(1) i, of R] nth_mix_rows [OF assms(2), of i S] assms(3,4) i l assms(1) map_eq_imp_length_eq
    by metis+
  then show "mix_rows key (R \<union> S) xs zs ! i = zs ! i"
    using assms(1,2) i k by (auto simp: mix_rows_rules split: if_splits)
qed

lemma map2_same: "map2 (\<lambda>x y. if P x then y else x) xs xs = xs"
  by (induction xs) auto

lemma same_keys_mix [simp]: "same_keys c d \<Longrightarrow> same_keys c (mix R c d)"
  by (simp add: same_keys_def mix_def mix_rows_rules)

lemma mix_empty: "same_keys c d \<Longrightarrow> mix {} c d = c"
  by (simp add: same_keys_def mix_def mix_rows_empty)

lemma mix_again: "same_keys c d \<Longrightarrow> mix R c (mix R c d) = mix R c d"
  by (simp add: same_keys_def mix_def mix_rows_again)

lemma same_keysD:
  assumes "same_keys c d"
  shows "map order_key (orders c) = map order_key (orders d)" and "map sku_key (skus c) = map sku_key (skus d)"
    and "map user_coupon_key (user_coupons c) = map user_coupon_key (user_coupons d)"
  using assms unfolding same_keys_def by blast+

lemma mix_rows_same [simp]: "mix_rows key R xs xs = xs"
  by (simp add: mix_rows_def map2_same)

lemma mix_same [simp]: "mix R c c = c"
  by (simp add: mix_def)

lemma mix_swap:
  assumes "same_keys c d" and "same_keys c e" and "R \<inter> S = {}"
  shows "mix R (mix S c d) e = mix S (mix R c e) d"
  by (simp add: mix_def mix_rows_swap [OF same_keysD(1) [OF assms(1)] same_keysD(1) [OF assms(2)] assms(3)]
      mix_rows_swap [OF same_keysD(2) [OF assms(1)] same_keysD(2) [OF assms(2)] assms(3)]
      mix_rows_swap [OF same_keysD(3) [OF assms(1)] same_keysD(3) [OF assms(2)] assms(3)])

lemma mix_grow:
  assumes "same_keys c d" and "same_keys d e" and "mix R c d = d" and "mix S d e = e"
  shows "mix (R \<union> S) c e = e"
proof -
  have "mix_rows order_key R (orders c) (orders d) = orders d" "mix_rows sku_key R (skus c) (skus d) = skus d"
    "mix_rows user_coupon_key R (user_coupons c) (user_coupons d) = user_coupons d"
    using arg_cong [OF assms(3), of orders] arg_cong [OF assms(3), of skus] arg_cong [OF assms(3), of user_coupons]
    by (simp_all add: mix_def)
  note 1 = this
  have "mix_rows order_key S (orders d) (orders e) = orders e" "mix_rows sku_key S (skus d) (skus e) = skus e"
    "mix_rows user_coupon_key S (user_coupons d) (user_coupons e) = user_coupons e"
    using arg_cong [OF assms(4), of orders] arg_cong [OF assms(4), of skus] arg_cong [OF assms(4), of user_coupons]
    by (simp_all add: mix_def)
  note 2 = this
  note k = same_keysD [OF assms(1)] and l = same_keysD [OF assms(2)]
  have "mix_rows order_key (R \<union> S) (orders c) (orders e) = orders e"
    "mix_rows sku_key (R \<union> S) (skus c) (skus e) = skus e"
    "mix_rows user_coupon_key (R \<union> S) (user_coupons c) (user_coupons e) = user_coupons e"
    by (rule mix_rows_grow [OF k(1) l(1) 1(1) 2(1)] mix_rows_grow [OF k(2) l(2) 1(2) 2(2)]
        mix_rows_grow [OF k(3) l(3) 1(3) 2(3)])+
  then show ?thesis using assms(1,2) by (simp add: same_keys_def mix_def)
qed

section \<open>Transactions as sequences of statements\<close>

text \<open>
  A statement names the row it locks, if any, and answers with the rest of the transaction; a
  transaction ends with the result of its body.
\<close>

datatype 'a prog = Ret "error + 'a" | Stmt "rowkey option" "world \<Rightarrow> 'a prog \<times> world"

primrec run_prog :: "'a prog \<Rightarrow> 'a io" where
  "run_prog (Ret x) = return x"
| "run_prog (Stmt k f) = State (\<lambda>w. case (map_prod run_prog id \<circ> f) w of (m, w') \<Rightarrow> run_state m w')"

definition stmt :: "rowkey option \<Rightarrow> 'a io \<Rightarrow> ('a \<Rightarrow> 'b prog) \<Rightarrow> 'b prog" where
  "stmt k m rest = Stmt k (\<lambda>w. case run_state m w of (r, w') \<Rightarrow> (case r of Inl e \<Rightarrow> Ret (Inl e) | Inr x \<Rightarrow> rest x, w'))"

lemma run_stmt: "run_prog (stmt k m rest) = bindE m (\<lambda>x. run_prog (rest x))"
  by (rule state.expand) (simp add: fun_eq_iff stmt_def run_bindE split: prod.split sum.split)

text \<open>
  The statement depends on no other row than the one it locks, and changes no other: on a core
  database some of whose other rows are replaced, it does the same.
\<close>

definition on_row :: "rowkey option \<Rightarrow> (world \<Rightarrow> 'b \<times> world) \<Rightarrow> bool" where
  "on_row k f \<longleftrightarrow> (\<forall>w. same_keys (core w) (core (snd (f w))) \<and>
       mix (set_option k) (core w) (core (snd (f w))) = core (snd (f w)) \<and>
       (\<forall>d R. same_keys (core w) d \<longrightarrow> set_option k \<inter> R = {} \<longrightarrow>
          f (w\<lparr>core := mix R (core w) d\<rparr>) = (fst (f w), (snd (f w))\<lparr>core := mix R (core (snd (f w))) d\<rparr>)))"

inductive local_prog :: "'a prog \<Rightarrow> bool" where
  ret: "local_prog (Ret x)"
| stmt: "on_row k f \<Longrightarrow> (\<And>w. local_prog (fst (f w))) \<Longrightarrow> local_prog (Stmt k f)"

inductive_cases local_StmtE: "local_prog (Stmt k f)"

text \<open>
  \<open>solo p c H q d\<close>: running \<open>p\<close> alone on the core database \<open>c\<close> locks the rows \<open>H\<close> and comes to \<open>q\<close> and \<open>d\<close>.
  At every statement the rest of the world is arbitrary: the clock, the failures of calls, the payment
  database.  \<open>finishes p c x d\<close>: it runs to its end.
\<close>

inductive solo :: "'a prog \<Rightarrow> core_db \<Rightarrow> rowkey set \<Rightarrow> 'a prog \<Rightarrow> core_db \<Rightarrow> bool" where
  start: "solo p c {} p c"
| go_on: "solo p c H (Stmt k f) (core w) \<Longrightarrow> f w = (q, w') \<Longrightarrow> solo p c (H \<union> set_option k) q (core w')"

inductive finishes :: "'a prog \<Rightarrow> core_db \<Rightarrow> error + 'a \<Rightarrow> core_db \<Rightarrow> bool" where
  ended: "finishes (Ret x) c x c"
| first: "f w = (q, w') \<Longrightarrow> finishes q (core w') x d \<Longrightarrow> finishes (Stmt k f) (core w) x d"

inductive_cases finishes_RetE: "finishes (Ret x) c y d"
inductive_cases finishes_StmtE: "finishes (Stmt k f) c x d"

lemma solo_finishes: "solo p c H q d \<Longrightarrow> finishes q d x e \<Longrightarrow> finishes p c x e"
  by (induction arbitrary: x e rule: solo.induct) (blast intro: finishes.first)+

lemma run_finishes: "run_state (run_prog p) w = (x, w') \<Longrightarrow> finishes p (core w) x (core w')"
proof (induction p arbitrary: w)
  case (Ret y)
  then show ?case by (auto intro: finishes.ended)
next
  case (Stmt k f)
  obtain q w1 where f: "f w = (q, w1)" by fastforce
  then have "run_state (run_prog q) w1 = (x, w')" using Stmt.prems by simp
  then have "finishes q (core w1) x (core w')" using Stmt.IH [of "(q, w1)" q] f by (metis fsts.intros fst_conv rangeI)
  then show ?case using f by (rule finishes.first [rotated])
qed

lemma solo_local: "solo p c H q d \<Longrightarrow> local_prog p \<Longrightarrow> local_prog q"
  by (induction rule: solo.induct) (auto elim!: local_StmtE, metis fst_conv)

text \<open>Running alone keeps the keys and changes locked rows only.\<close>

lemma solo_rows: "solo p c H q d \<Longrightarrow> local_prog p \<Longrightarrow> same_keys c d \<and> mix H c d = d"
proof (induction rule: solo.induct)
  case (start p c)
  then show ?case by (simp add: mix_empty)
next
  case (go_on p c H k f w q w')
  then have "on_row k f" using solo_local by (blast elim: local_StmtE)
  then have "same_keys (core w) (core w')" "mix (set_option k) (core w) (core w') = core w'"
    using go_on.hyps(2) unfolding on_row_def by (metis snd_conv)+
  then show ?case using go_on.IH [OF go_on.prems] mix_grow same_keys_trans by blast
qed

text \<open>What a transaction has done alone it would have done as well had other rows been others.\<close>

lemma solo_mix:
  "solo p c H q d \<Longrightarrow> local_prog p \<Longrightarrow> same_keys c e \<Longrightarrow> H \<inter> R = {} \<Longrightarrow> solo p (mix R c e) H q (mix R d e)"
proof (induction rule: solo.induct)
  case (start p c)
  then show ?case by (simp add: solo.start)
next
  case (go_on p c H k f w q w')
  let ?w = "w\<lparr>core := mix R (core w) e\<rparr>"
  have l: "on_row k f" using solo_local [OF go_on.hyps(1) go_on.prems(1)] by (rule local_StmtE)
  have "same_keys (core w) e"
    using solo_rows [OF go_on.hyps(1) go_on.prems(1)] go_on.prems(2) same_keys_sym same_keys_trans by blast
  then have "f ?w = (q, w'\<lparr>core := mix R (core w') e\<rparr>)"
    using l go_on.hyps(2) go_on.prems(3) unfolding on_row_def by (metis Int_Un_distrib2 Un_empty fst_conv snd_conv)
  moreover have "solo p (mix R c e) H (Stmt k f) (core ?w)" using go_on.IH go_on.prems by (simp add: Int_Un_distrib2)
  ultimately show ?case using solo.go_on by fastforce
qed

section \<open>Transactions that overlap\<close>

text \<open>
  A transaction of the system: not begun; running, with the rows it has locked and its own version of
  them; committed with a result; or rolled back.
\<close>

datatype 'a tx = Ready "'a prog" | Running "'a prog" "rowkey set" core_db | Committed 'a | RolledBack

fun held :: "'a tx \<Rightarrow> rowkey set" where
  "held (Running p H v) = H"
| "held _ = {}"

text \<open>
  The state is the committed core database and the transactions.  A statement waits for its row to be free,
  sees the committed rows and its own versions, and keeps the row locked; a commit publishes the
  versions; a transaction can be rolled back at any time, by an error of its body, a refused
  commit, a lost connection or as the victim of a deadlock.
\<close>

inductive tx_step :: "core_db \<times> 'a tx list \<Rightarrow> core_db \<times> 'a tx list \<Rightarrow> bool" where
  begins: "i < length ts \<Longrightarrow> ts ! i = Ready p \<Longrightarrow> tx_step (c, ts) (c, ts[i := Running p {} c])"
| executes: "i < length ts \<Longrightarrow> ts ! i = Running (Stmt k f) H v \<Longrightarrow>
    (\<forall>j < length ts. j \<noteq> i \<longrightarrow> set_option k \<inter> held (ts ! j) = {}) \<Longrightarrow>
    core w = mix H c v \<Longrightarrow> f w = (q, w') \<Longrightarrow>
    tx_step (c, ts) (c, ts[i := Running q (H \<union> set_option k) (core w')])"
| commits: "i < length ts \<Longrightarrow> ts ! i = Running (Ret (Inr x)) H v \<Longrightarrow> tx_step (c, ts) (mix H c v, ts[i := Committed x])"
| rolls_back: "i < length ts \<Longrightarrow> ts ! i = Running p H v \<Longrightarrow> tx_step (c, ts) (c, ts[i := RolledBack])"

inductive_cases tx_stepE: "tx_step (c, ts) s'"

text \<open>The committed transactions one after the other, each alone, with their results.\<close>

inductive serial :: "'a prog list \<Rightarrow> core_db \<Rightarrow> (nat \<times> 'a) list \<Rightarrow> core_db \<Rightarrow> bool" where
  nobody: "serial ps c [] c"
| one_more: "serial ps c order d \<Longrightarrow> i < length ps \<Longrightarrow> finishes (ps ! i) d (Inr x) e \<Longrightarrow> serial ps c (order @ [(i, x)]) e"

text \<open>
  The invariant: locks are disjoint, every running transaction has come as far as it would have
  come alone from the committed database, and that is a serial run of the committed ones.
\<close>

definition tx_inv :: "'a prog list \<Rightarrow> core_db \<Rightarrow> core_db \<times> 'a tx list \<Rightarrow> bool" where
  "tx_inv ps c0 s \<longleftrightarrow> (case s of (c, ts) \<Rightarrow> length ts = length ps \<and>
     (\<forall>i < length ts. case ts ! i of
        Ready p \<Rightarrow> p = ps ! i
      | Running p H v \<Rightarrow> same_keys c v \<and> solo (ps ! i) c H p (mix H c v)
      | _ \<Rightarrow> True) \<and>
     (\<forall>i < length ts. \<forall>j < length ts. i \<noteq> j \<longrightarrow> held (ts ! i) \<inter> held (ts ! j) = {}) \<and>
     (\<exists>order. distinct (map fst order) \<and> set order = {(i, x). i < length ts \<and> ts ! i = Committed x} \<and>
        serial ps c0 order c))"

lemma tx_invI:
  assumes "length ts = length ps"
    and "\<And>i. i < length ts \<Longrightarrow> case ts ! i of Ready p \<Rightarrow> p = ps ! i
      | Running p H v \<Rightarrow> same_keys c v \<and> solo (ps ! i) c H p (mix H c v) | _ \<Rightarrow> True"
    and "\<And>i j. i < length ts \<Longrightarrow> j < length ts \<Longrightarrow> i \<noteq> j \<Longrightarrow> held (ts ! i) \<inter> held (ts ! j) = {}"
    and "distinct (map fst order)" and "set order = {(i, x). i < length ts \<and> ts ! i = Committed x}" and "serial ps c0 order c"
  shows "tx_inv ps c0 (c, ts)"
  using assms unfolding tx_inv_def by blast

lemma tx_inv_start: "tx_inv ps c (c, map Ready ps)"
  by (rule tx_invI [where order = "[]"]) (auto intro: serial.nobody)

lemma tx_inv_running:
  "tx_inv ps c0 (c, ts) \<Longrightarrow> i < length ts \<Longrightarrow> ts ! i = Running p H v \<Longrightarrow>
     same_keys c v \<and> solo (ps ! i) c H p (mix H c v) \<and> i < length ps"
  by (fastforce simp: tx_inv_def)

lemma tx_inv_locks:
  "tx_inv ps c0 (c, ts) \<Longrightarrow> i < length ts \<Longrightarrow> j < length ts \<Longrightarrow> i \<noteq> j \<Longrightarrow> held (ts ! i) \<inter> held (ts ! j) = {}"
  by (simp add: tx_inv_def)

lemma tx_inv_task:
  "tx_inv ps c0 (c, ts) \<Longrightarrow> i < length ts \<Longrightarrow> case ts ! i of Ready p \<Rightarrow> p = ps ! i
      | Running p H v \<Rightarrow> same_keys c v \<and> solo (ps ! i) c H p (mix H c v) | _ \<Rightarrow> True"
  by (simp add: tx_inv_def)

text \<open>A step of one transaction that leaves the committed database alone.\<close>

lemma tx_inv_update:
  assumes inv: "tx_inv ps c0 (c, ts)" and i: "i < length ts" and old: "\<And>x. ts ! i \<noteq> Committed x" and new: "\<And>x. t \<noteq> Committed x"
    and task: "case t of Ready p \<Rightarrow> p = ps ! i
      | Running p H v \<Rightarrow> same_keys c v \<and> solo (ps ! i) c H p (mix H c v) | _ \<Rightarrow> True"
    and locks: "\<And>j. j < length ts \<Longrightarrow> j \<noteq> i \<Longrightarrow> held t \<inter> held (ts ! j) = {}"
  shows "tx_inv ps c0 (c, ts[i := t])"
proof -
  obtain order where o: "distinct (map fst order)" "set order = {(i, x). i < length ts \<and> ts ! i = Committed x}"
      "serial ps c0 order c" using inv by (auto simp: tx_inv_def)
  show ?thesis
  proof (rule tx_invI [OF _ _ _ o(1) _ o(3)])
    show "length (ts[i := t]) = length ps" using inv by (simp add: tx_inv_def)
    show "case ts[i := t] ! j of Ready p \<Rightarrow> p = ps ! j
      | Running p H v \<Rightarrow> same_keys c v \<and> solo (ps ! j) c H p (mix H c v) | _ \<Rightarrow> True" if "j < length (ts[i := t])" for j
      using tx_inv_task [OF inv, of j] task that by (cases "i = j"; hypsubst?; simp)
    show "held (ts[i := t] ! j) \<inter> held (ts[i := t] ! k) = {}"
      if "j < length (ts[i := t])" "k < length (ts[i := t])" "j \<noteq> k" for j k
      using tx_inv_locks [OF inv, of j k] locks [of j] locks [of k] that by (cases "j = i"; cases "k = i") (auto simp: Int_commute)
    show "set order = {(j, x). j < length (ts[i := t]) \<and> ts[i := t] ! j = Committed x}"
    proof -
      have "(ts[i := t] ! j = Committed x) = (ts ! j = Committed x)" for j x
        using old [of x] new [of x] i by (cases "i = j") auto
      then show ?thesis by (simp add: o(2))
    qed
  qed
qed

lemma tx_inv_executes:
  assumes inv: "tx_inv ps c0 (c, ts)" and loc: "\<forall>p \<in> set ps. local_prog p"
    and i: "i < length ts" "ts ! i = Running (Stmt k f) H v"
    and free: "\<forall>j < length ts. j \<noteq> i \<longrightarrow> set_option k \<inter> held (ts ! j) = {}"
    and run: "core w = mix H c v" "f w = (q, w')"
  shows "tx_inv ps c0 (c, ts[i := Running q (H \<union> set_option k) (core w')])"
proof (rule tx_inv_update [OF inv i(1)])
  have r: "same_keys c v" "solo (ps ! i) c H (Stmt k f) (core w)" "i < length ps"
    using tx_inv_running [OF inv i] run(1) by auto
  from solo.go_on [OF r(2) run(2)] have s: "solo (ps ! i) c (H \<union> set_option k) q (core w')" .
  have "same_keys c (core w') \<and> mix (H \<union> set_option k) c (core w') = core w'"
    using solo_rows [OF s] loc r(3) nth_mem by blast
  then show "case Running q (H \<union> set_option k) (core w') of Ready p \<Rightarrow> p = ps ! i
      | Running p H v \<Rightarrow> same_keys c v \<and> solo (ps ! i) c H p (mix H c v) | _ \<Rightarrow> True"
    using s by simp
  show "held (Running q (H \<union> set_option k) (core w')) \<inter> held (ts ! j) = {}" if "j < length ts" "j \<noteq> i" for j
    using free that tx_inv_locks [OF inv i(1) that(1)] i(2) by (auto simp: Int_Un_distrib2)
qed (use i in auto)

lemma tx_inv_commits:
  assumes inv: "tx_inv ps c0 (c, ts)" and loc: "\<forall>p \<in> set ps. local_prog p"
    and i: "i < length ts" "ts ! i = Running (Ret (Inr x)) H v"
  shows "tx_inv ps c0 (mix H c v, ts[i := Committed x])"
proof -
  have r: "same_keys c v" "solo (ps ! i) c H (Ret (Inr x)) (mix H c v)" "i < length ps"
    using tx_inv_running [OF inv i] by auto
  obtain order where o: "distinct (map fst order)" "set order = {(i, x). i < length ts \<and> ts ! i = Committed x}"
      "serial ps c0 order c" using inv by (auto simp: tx_inv_def)
  have "finishes (ps ! i) c (Inr x) (mix H c v)" using solo_finishes [OF r(2) finishes.ended] .
  from serial.one_more [OF o(3) r(3) this] have s: "serial ps c0 (order @ [(i, x)]) (mix H c v)" .
  show ?thesis
  proof (rule tx_invI [OF _ _ _ _ _ s])
    show "length (ts[i := Committed x]) = length ps" using inv by (simp add: tx_inv_def)
    show "case ts[i := Committed x] ! j of Ready p \<Rightarrow> p = ps ! j
      | Running p G u \<Rightarrow> same_keys (mix H c v) u \<and> solo (ps ! j) (mix H c v) G p (mix G (mix H c v) u) | _ \<Rightarrow> True"
      if j: "j < length (ts[i := Committed x])" for j
    proof (cases "\<exists>p G u. j \<noteq> i \<and> ts ! j = Running p G u")
      case True
      then obtain p G u where t: "ts ! j = Running p G u" and ji: "j \<noteq> i" by blast
      have d: "G \<inter> H = {}" using tx_inv_locks [OF inv _ i(1) ji] j t i(2) by simp
      have t': "same_keys c u" "solo (ps ! j) c G p (mix G c u)" "j < length ps" using tx_inv_running [OF inv _ t] j by auto
      have "solo (ps ! j) (mix H c v) G p (mix H (mix G c u) v)"
        using solo_mix [OF t'(2) _ r(1) d] loc t'(3) by simp
      moreover have "same_keys (mix H c v) u" using r(1) t'(1) same_keys_mix same_keys_sym same_keys_trans by blast
      ultimately show ?thesis using t ji mix_swap [OF r(1) t'(1) d] by simp
    next
      case False
      then show ?thesis using tx_inv_task [OF inv, of j] j by (cases "ts ! j"; cases "i = j") auto
    qed
    show "held (ts[i := Committed x] ! j) \<inter> held (ts[i := Committed x] ! k) = {}"
      if "j < length (ts[i := Committed x])" "k < length (ts[i := Committed x])" "j \<noteq> k" for j k
      using tx_inv_locks [OF inv, of j k] that by (cases "i = j"; cases "i = k") simp_all
    have n: "(i, y) \<notin> set order" for y using i by (simp add: o(2))
    then show "distinct (map fst (order @ [(i, x)]))" using o(1) by auto
    show "set (order @ [(i, x)]) = {(j, y). j < length (ts[i := Committed x]) \<and> ts[i := Committed x] ! j = Committed y}"
      using o(2) i by (auto simp: nth_list_update split: if_splits)
  qed
qed

lemma tx_inv_step:
  assumes "tx_step s s'" and "tx_inv ps c0 s" and "\<forall>p \<in> set ps. local_prog p"
  shows "tx_inv ps c0 s'"
  using assms
proof (induction rule: tx_step.induct)
  case (begins i ts p c)
  have p: "p = ps ! i" using tx_inv_task [OF begins.prems(1) begins.hyps(1)] begins.hyps(2) by simp
  then show ?case using tx_inv_update [OF begins.prems(1) begins.hyps(1), of "Running p {} c"] begins.hyps(2)
    by (simp add: mix_empty solo.start)
next
  case (executes i ts k f H v c w q w')
  then show ?case by (rule_tac tx_inv_executes)
next
  case (commits i ts x H v c)
  then show ?case by (rule_tac tx_inv_commits)
next
  case (rolls_back i ts p H v c)
  then show ?case using tx_inv_update [OF rolls_back.prems(1) rolls_back.hyps(1), of RolledBack] by simp
qed

lemma overlapping_is_serial:
  assumes "tx_step\<^sup>*\<^sup>* (c0, map Ready ps) (c, ts)" and "\<forall>p \<in> set ps. local_prog p"
  shows "\<exists>order. distinct (map fst order) \<and> set order = {(i, x). i < length ts \<and> ts ! i = Committed x} \<and> serial ps c0 order c"
proof -
  have "tx_inv ps c0 (c, ts)"
    using assms(1) by (induction rule: rtranclp_induct) (auto intro: tx_inv_start tx_inv_step [OF _ _ assms(2)])
  then show ?thesis unfolding tx_inv_def prod.case by blast
qed

section \<open>Statements that stay on their row\<close>

lemma mix_rows_Cons [simp]:
  "mix_rows key R (x # xs) (y # ys) = (if key x \<in> R then y else x) # mix_rows key R xs ys"
  by (simp add: mix_rows_def)

lemma mix_rows_Nil [simp]: "mix_rows key R [] [] = []"
  by (simp add: mix_rows_def)

text \<open>An update of the rows of one key, on a table some of whose other rows are replaced.\<close>

lemma list_induct_keys:
  assumes "map key xs = map key ys" and "P [] []"
    and "\<And>x xs y ys. key x = key y \<Longrightarrow> map key xs = map key ys \<Longrightarrow> P xs ys \<Longrightarrow> P (x # xs) (y # ys)"
  shows "P xs ys"
  using map_eq_imp_length_eq [OF assms(1)] assms by (induction rule: list_induct2) auto

lemma sql_update_mix:
  assumes "map key xs = map key ys" and n: "\<And>r. key r \<in> R \<Longrightarrow> \<not> p r" and g: "\<And>r. key (g r) = key r"
  shows "sql_update p g (mix_rows key R xs ys) = mix_rows key R (sql_update p g xs) ys"
  using assms(1)
proof (rule list_induct_keys)
  fix x y :: 'a and xs ys :: "'a list"
  assume k: "key x = key y" and ih: "sql_update p g (mix_rows key R xs ys) = mix_rows key R (sql_update p g xs) ys"
  show "sql_update p g (mix_rows key R (x # xs) (y # ys)) = mix_rows key R (sql_update p g (x # xs)) (y # ys)"
    using ih n [of x] n [of y] k by (simp add: sql_update_def g)
qed (simp add: sql_update_def)

lemma filter_mix:
  assumes "map key xs = map key ys" and n: "\<And>r. key r \<in> R \<Longrightarrow> \<not> p r"
  shows "filter p (mix_rows key R xs ys) = filter p xs"
  using assms(1)
proof (rule list_induct_keys)
  fix x y :: 'a and xs ys :: "'a list"
  assume k: "key x = key y" and ih: "filter p (mix_rows key R xs ys) = filter p xs"
  show "filter p (mix_rows key R (x # xs) (y # ys)) = filter p (x # xs)"
    using ih n [of x] n [of y] k by (cases "key x \<in> R"; simp)
qed (simp)

lemma find_mix:
  assumes "map key xs = map key ys" and n: "\<And>r. key r \<in> R \<Longrightarrow> \<not> p r"
  shows "List.find p (mix_rows key R xs ys) = List.find p xs"
  using assms(1)
proof (rule list_induct_keys)
  fix x y :: 'a and xs ys :: "'a list"
  assume k: "key x = key y" and ih: "List.find p (mix_rows key R xs ys) = List.find p xs"
  show "List.find p (mix_rows key R (x # xs) (y # ys)) = List.find p (x # xs)"
    using ih n [of x] n [of y] k by (cases "key x \<in> R"; simp)
qed (simp)

lemma list_ex_mix:
  assumes "map key xs = map key ys" and n: "\<And>r. key r \<in> R \<Longrightarrow> \<not> p r"
  shows "list_ex p (mix_rows key R xs ys) = list_ex p xs"
  using assms(1)
proof (rule list_induct_keys)
  fix x y :: 'a and xs ys :: "'a list"
  assume k: "key x = key y" and ih: "list_ex p (mix_rows key R xs ys) = list_ex p xs"
  show "list_ex p (mix_rows key R (x # xs) (y # ys)) = list_ex p (x # xs)"
    using ih n [of x] n [of y] k by (cases "key x \<in> R"; simp)
qed (simp)

lemma mix_rows_update:
  assumes "\<And>r. p r \<Longrightarrow> key r = k" and "\<And>r. key (g r) = key r"
  shows "mix_rows key {k} xs (sql_update p g xs) = sql_update p g xs"
  by (induction xs) (use assms in \<open>auto simp: sql_update_def\<close>)

lemma map_key_update: "(\<And>r. key (g r) = key r) \<Longrightarrow> map key (sql_update p g xs) = map key xs"
  by (simp add: sql_update_def)

lemma on_rowI:
  assumes "\<And>w. same_keys (core w) (core (snd (f w)))"
    and "\<And>w. mix (set_option k) (core w) (core (snd (f w))) = core (snd (f w))"
    and "\<And>w d R. same_keys (core w) d \<Longrightarrow> set_option k \<inter> R = {} \<Longrightarrow>
      f (w\<lparr>core := mix R (core w) d\<rparr>) = (fst (f w), (snd (f w))\<lparr>core := mix R (core (snd (f w))) d\<rparr>)"
  shows "on_row k f"
  using assms unfolding on_row_def by blast

lemma on_rowD:
  assumes "on_row k f"
  shows "same_keys (core w) (core (snd (f w)))" and "mix (set_option k) (core w) (core (snd (f w))) = core (snd (f w))"
    and "same_keys (core w) d \<Longrightarrow> set_option k \<inter> R = {} \<Longrightarrow>
      f (w\<lparr>core := mix R (core w) d\<rparr>) = (fst (f w), (snd (f w))\<lparr>core := mix R (core (snd (f w))) d\<rparr>)"
  using assms unfolding on_row_def by blast+

lemma on_row_call:
  assumes F: "on_row k F"
  shows "on_row k (run_state (call F))"
proof -
  have split: "(\<exists>v. core v = core w \<and> run_state (call F) w = F v \<and>
        (\<forall>c. run_state (call F) (w\<lparr>core := c\<rparr>) = F (v\<lparr>core := c\<rparr>))) \<or>
     (\<exists>e v. core v = core w \<and> run_state (call F) w = (e, v) \<and> (\<forall>c. run_state (call F) (w\<lparr>core := c\<rparr>) = (e, v\<lparr>core := c\<rparr>))) \<or>
     (\<exists>e v. core v = core w \<and> run_state (call F) w = (e, snd (F v)) \<and>
        (\<forall>c. run_state (call F) (w\<lparr>core := c\<rparr>) = (e, snd (F (v\<lparr>core := c\<rparr>)))))" for w
  proof (cases "replies w")
    case Nil
    then show ?thesis by (intro disjI1 exI [of _ w]) (simp add: call_def)
  next
    case (Cons r rs)
    note q = Cons
    let ?v = "w\<lparr>replies := rs\<rparr>"
    have sw: "(w\<lparr>core := c\<rparr>)\<lparr>replies := rs\<rparr> = ?v\<lparr>core := c\<rparr>" for c by simp
    show ?thesis
    proof (cases r)
      case Answered
      then show ?thesis using q by (intro disjI1 exI [of _ ?v]) (simp add: call_def sw)
    next
      case (Refused d)
      then show ?thesis using q by (intro disjI2 disjI1 exI [of _ "Inl (Driver d)"] exI [of _ ?v]) (simp add: call_def)
    next
      case (Lost d)
      then show ?thesis using q by (intro disjI2 exI [of _ "Inl (Driver d)"] exI [of _ ?v]) (simp add: call_def sw)
    qed
  qed
  show ?thesis
  proof (rule on_rowI)
    fix w :: world
    show "same_keys (core w) (core (snd (run_state (call F) w)))"
      using split [of w] on_rowD(1) [OF F] by (metis same_keys_refl snd_conv)
    show "mix (set_option k) (core w) (core (snd (run_state (call F) w))) = core (snd (run_state (call F) w))"
      using split [of w] on_rowD(2) [OF F] by (metis mix_same snd_conv)
    fix d R assume d: "same_keys (core w) d" "set_option k \<inter> R = {}"
    note F3 = on_rowD(3) [OF F, of _ d R, OF _ d(2)]
    show "run_state (call F) (w\<lparr>core := mix R (core w) d\<rparr>) =
       (fst (run_state (call F) w), snd (run_state (call F) w)\<lparr>core := mix R (core (snd (run_state (call F) w))) d\<rparr>)"
      using split [of w]
    proof (elim disjE exE conjE)
      fix v assume v: "core v = core w" "run_state (call F) w = F v" "\<forall>c. run_state (call F) (w\<lparr>core := c\<rparr>) = F (v\<lparr>core := c\<rparr>)"
      show ?thesis using F3 [of v] d(1) by (simp add: v)
    next
      fix e v assume v: "core v = core w" "run_state (call F) w = (e, v)"
        "\<forall>c. run_state (call F) (w\<lparr>core := c\<rparr>) = (e, v\<lparr>core := c\<rparr>)"
      show ?thesis by (simp add: v)
    next
      fix e v assume v: "core v = core w" "run_state (call F) w = (e, snd (F v))"
        "\<forall>c. run_state (call F) (w\<lparr>core := c\<rparr>) = (e, snd (F (v\<lparr>core := c\<rparr>)))"
      show ?thesis using F3 [of v] d(1) by (simp add: v)
    qed
  qed
qed

text \<open>A table of the core database whose rows are locked by a key.\<close>

locale row_table =
  fixes rows :: "core_db \<Rightarrow> 'r list" and put_rows :: "'r list \<Rightarrow> core_db \<Rightarrow> core_db" and key :: "'r \<Rightarrow> rowkey"
  assumes keys: "same_keys c d \<Longrightarrow> map key (rows c) = map key (rows d)"
    and rows_mix: "rows (mix R c d) = mix_rows key R (rows c) (rows d)"
    and put_keys: "map key t = map key (rows c) \<Longrightarrow> same_keys c (put_rows t c)"
    and put_changed: "map key t = map key (rows c) \<Longrightarrow> mix_rows key R (rows c) t = t \<Longrightarrow> mix R c (put_rows t c) = put_rows t c"
    and put_mix: "same_keys c d \<Longrightarrow> put_rows (mix_rows key R t (rows d)) (mix R c d) = mix R (put_rows t c) d"
begin

text \<open>An \<open>UPDATE\<close> of the rows with one key, and a query of them.\<close>

lemma exec_on_row:
  assumes p: "\<And>r. p r \<Longrightarrow> key r = k" and f: "\<And>r r'. f r = Some r' \<Longrightarrow> key r' = key r"
    and touch: "\<And>t r. key (touch t r) = key r"
    and put: "\<And>t w. put t w = w\<lparr>core := put_rows t (core w)\<rparr>"
  shows "on_row (Some k) (run_state (exec_on (\<lambda>w. rows (core w)) put p f touch))"
  unfolding exec_on_def
proof (rule on_row_call, rule on_rowI)
  let ?F = "\<lambda>w. case sql_exec p f (touch (current_timestamp w)) (rows (core w)) of
      Inl e \<Rightarrow> (Inl e, w) | Inr (t, n) \<Rightarrow> (Inr n, put t w)"
  fix w :: world
  define g where "g = set_row f (touch (current_timestamp w))"
  have g: "key (g r) = key r" for r
    unfolding g_def by (rule set_row_id [where k = key]) (erule f, rule touch)
  let ?t = "sql_update p g (rows (core w))"
  have run: "?F v = (if list_ex (\<lambda>r. p r \<and> f r = None) (rows (core v)) then (Inl OutOfRange, v)
     else (Inr (length (filter (\<lambda>r. p r \<and> f r \<noteq> Some r) (rows (core v)))), v\<lparr>core := put_rows (sql_update p g (rows (core v))) (core v)\<rparr>))"
    if "clock v = clock w" for v
    using that by (simp add: sql_exec_def put g_def current_timestamp_def)
  have t: "map key ?t = map key (rows (core w))" "mix_rows key {k} (rows (core w)) ?t = ?t"
    using map_key_update mix_rows_update p g by metis+
  show "same_keys (core w) (core (snd (?F w)))" using run [of w] put_keys [OF t(1)] by simp
  show "mix (set_option (Some k)) (core w) (core (snd (?F w))) = core (snd (?F w))"
    using run [of w] put_changed [OF t] by simp
  fix d R assume d: "same_keys (core w) d" "set_option (Some k) \<inter> R = {}"
  have n: "\<not> p r" if "key r \<in> R" for r using p [of r] that d(2) by auto
  note ks = keys [OF d(1)]
  let ?v = "w\<lparr>core := mix R (core w) d\<rparr>"
  have v: "clock ?v = clock w" "rows (core ?v) = mix_rows key R (rows (core w)) (rows d)" by (simp_all add: rows_mix)
  have same: "list_ex (\<lambda>r. p r \<and> f r = None) (rows (core ?v)) = list_ex (\<lambda>r. p r \<and> f r = None) (rows (core w))"
    "filter (\<lambda>r. p r \<and> f r \<noteq> Some r) (rows (core ?v)) = filter (\<lambda>r. p r \<and> f r \<noteq> Some r) (rows (core w))"
    "put_rows (sql_update p g (rows (core ?v))) (core ?v) = mix R (put_rows ?t (core w)) d"
    unfolding v(2) using n by (simp_all add: list_ex_mix [OF ks] filter_mix [OF ks] sql_update_mix [OF ks _ g] put_mix [OF d(1)])
  show "?F ?v = (fst (?F w), (snd (?F w))\<lparr>core := mix R (core (snd (?F w))) d\<rparr>)"
    unfolding run [OF v(1)] run [OF refl] same by (cases "list_ex (\<lambda>r. p r \<and> f r = None) (rows (core w))") simp_all
qed

lemma first_on_row:
  assumes p: "\<And>r. p r \<Longrightarrow> key r = k"
  shows "on_row (Some k) (run_state (first_on (\<lambda>w. rows (core w)) p))"
  unfolding first_on_def query_def
proof (rule on_row_call, rule on_rowI)
  fix w :: world and d R assume d: "same_keys (core w) d" "set_option (Some k) \<inter> R = {}"
  have n: "\<not> p r" if "key r \<in> R" for r using p [of r] that d(2) by auto
  show "(case sql_first p (rows (core (w\<lparr>core := mix R (core w) d\<rparr>))) of None \<Rightarrow> Inl RecordNotFound | Some r \<Rightarrow> Inr r,
        w\<lparr>core := mix R (core w) d\<rparr>) =
      (fst (case sql_first p (rows (core w)) of None \<Rightarrow> Inl RecordNotFound | Some r \<Rightarrow> Inr r, w),
       (snd (case sql_first p (rows (core w)) of None \<Rightarrow> Inl RecordNotFound | Some r \<Rightarrow> Inr r, w))
         \<lparr>core := mix R (core (snd (case sql_first p (rows (core w)) of None \<Rightarrow> Inl RecordNotFound | Some r \<Rightarrow> Inr r, w))) d\<rparr>)"
    using find_mix [OF keys [OF d(1)], of R p] n by (simp add: rows_mix sql_first_def)
qed simp_all

end

interpretation order_rows_table: row_table orders "\<lambda>t c. c\<lparr>orders := t\<rparr>" order_key
  by unfold_locales (auto simp: same_keys_def mix_def mix_rows_same)

interpretation sku_rows_table: row_table skus "\<lambda>t c. c\<lparr>skus := t\<rparr>" sku_key
  by unfold_locales (auto simp: same_keys_def mix_def mix_rows_same)

interpretation user_coupon_rows_table: row_table user_coupons "\<lambda>t c. c\<lparr>user_coupons := t\<rparr>" user_coupon_key
  by unfold_locales (auto simp: same_keys_def mix_def mix_rows_same)

text \<open>A call that neither reads nor writes the core database is on no row.\<close>

lemma on_no_row:
  assumes "same core m" and "\<And>w c. run_state m (w\<lparr>core := c\<rparr>) = apsnd (\<lambda>w'. w'\<lparr>core := c\<rparr>) (run_state m w)"
  shows "on_row k (run_state m)"
  by (rule on_rowI) (simp_all add: same_snd [OF assms(1)] assms(2) apsnd_def map_prod_def split: prod.split)

lemma on_row_then:
  "on_row k f \<Longrightarrow> on_row k (\<lambda>w. case f w of (r, w') \<Rightarrow> (g r, w'))"
  unfolding on_row_def by (simp add: case_prod_beta)

lemma on_row_on_error: "on_row k (run_state m) \<Longrightarrow> on_row k (run_state (on_error h m))"
  unfolding on_row_def on_error_def by (simp add: case_prod_beta)

lemma on_row_bindE:
  assumes "on_row k (run_state m)" and "\<And>x. g x = return (h x)"
  shows "on_row k (run_state (bindE m g))"
proof -
  have "run_state (bindE m g) = (\<lambda>w. case run_state m w of (r, w') \<Rightarrow> (case r of Inl e \<Rightarrow> Inl e | Inr x \<Rightarrow> h x, w'))"
    by (rule ext) (simp add: run_bindE assms(2) split: prod.split sum.split)
  then show ?thesis using on_row_then [OF assms(1)] by simp
qed

lemma on_row_Now:
  assumes "\<And>t. on_row k (run_state (g t))"
  shows "on_row k (run_state (State_Monad.bind Now g))"
  using assms unfolding on_row_def Now_def by simp

lemma local_stmt: "on_row k (run_state m) \<Longrightarrow> (\<And>x. local_prog (rest x)) \<Longrightarrow> local_prog (stmt k m rest)"
  unfolding stmt_def by (rule local_prog.stmt, erule on_row_then) (simp add: local_prog.ret split: prod.split sum.split)

end
