(* ===== verification/Settlement_Safety.thy ===== *)
theory Settlement_Safety
  imports Order_Safety Isolation
begin

text \<open>
  The race between the cancellation of an order (\<open>biz/order_cancel.go\<close>, from the delay queue or the user) and its
  payment (\<open>HandlePayCallback\<close> of \<open>biz/seckill.go\<close>): their transactions as sequences of the repository's
  statements, interleaved in any way.
\<close>

section \<open>Cancellations and payments\<close>

text \<open>
  The transactions of \<open>CancelTimeoutOrder\<close> and \<open>HandlePayCallback\<close>, statement by statement.  Reading the order
  \<open>FOR UPDATE\<close> and updating it locks its row; the stock and the coupon are locked by their
  updates; the payment lives in another database.
\<close>

definition cancel_pending_prog :: "string \<Rightarrow> OrderInfo \<Rightarrow> OrderInfo prog" where
  "cancel_pending_prog orderNo order =
     stmt (Some (OrderRow orderNo)) (on_error (Wrapped (utf8 [230, 155, 180, 230, 150, 176, 232, 174, 162, 229, 141, 149, 231, 138, 182, 230, 128, 129, 229, 164, 177, 232, 180, 165]))
              (mysqlRepo_UpdateOrderStatus orderNo OrderStatusPending OrderStatusCancel)) (\<lambda>_.
     stmt (Some (SkuRow (oi_SkuID order))) (on_error (Wrapped (utf8 [230, 129, 162, 229, 164, 141, 32, 77, 121, 83, 81, 76, 32, 229, 186, 147, 229, 173, 152, 229, 164, 177, 232, 180, 165]))
              (mysqlRepo_RestoreStock (oi_SkuID order) (u32_of (oi_Quantity order)))) (\<lambda>_.
     if oi_CouponID order > 0
     then stmt (Some (UserCouponRow (oi_CouponID order))) (on_error (Wrapped (utf8 [230, 129, 162, 229, 164, 141, 228, 188, 152, 230, 131, 160, 229, 136, 184, 229, 164, 177, 232, 180, 165])) (mysqlRepo_RestoreUserCoupon (oi_CouponID order)))
            (\<lambda>_. Ret (Inr order))
     else Ret (Inr order)))"

definition cancel_prog :: "env \<Rightarrow> string \<Rightarrow> OrderInfo prog" where
  "cancel_prog E orderNo =
     stmt (Some (OrderRow orderNo)) (on_error (Wrapped (utf8 [232, 142, 183, 229, 143, 150, 232, 174, 162, 229, 141, 149, 229, 164, 177, 232, 180, 165])) (mysqlRepo_GetOrderForUpdate E orderNo)) (\<lambda>order.
     if oi_Status order \<noteq> OrderStatusPending then Ret (Inr order) else cancel_pending_prog orderNo order)"

definition callback_prog :: "env \<Rightarrow> PayCallbackRequest \<Rightarrow> PayCallbackResult prog" where
  "callback_prog E req =
     stmt None (mysqlRepo_GetPayInfoByPlatformNumber (pcr_PlatformNumber req)) (\<lambda>payInfo.
     if pay_OrderNo payInfo \<noteq> pcr_OrderNo req then Ret (Inl (Plain (utf8 [230, 148, 175, 228, 187, 152, 230, 181, 129, 230, 176, 180, 232, 174, 162, 229, 141, 149, 228, 184, 141, 229, 140, 185, 233, 133, 141])))
     else if pay_PayAmount payInfo \<noteq> pcr_PayAmount req then Ret (Inl ErrPayAmountMismatch)
     else if pay_PlatformStatus payInfo = PayStatusSuccess
          \<or> pay_PlatformStatus payInfo = PayStatusSuccessButOrderCanceled
       then Ret (Inr (callback_result ''duplicate callback ignored''))
     else
       stmt (Some (OrderRow (pcr_OrderNo req))) (mysqlRepo_GetOrderForUpdate E (pcr_OrderNo req)) (\<lambda>order.
       let payTime = pcr_PayTime req * second;
           pay = (\<lambda>status message. stmt None (mysqlRepo_UpdatePayInfoStatus (pcr_PlatformNumber req) status (Some payTime))
             (\<lambda>_. Ret (Inr (callback_result message))))
       in if pcr_PlatformStatus req \<noteq> PayStatusSuccess then pay PayStatusFailed ''payment failed recorded''
       else if oi_Status order = OrderStatusPaid then pay PayStatusSuccess ''order already paid''
       else if oi_Status order = OrderStatusCancel
         then pay PayStatusSuccessButOrderCanceled ''order canceled, payment recorded for refund''
       else if oi_Status order \<noteq> OrderStatusPending then Ret (Inl ErrOrderStatusIncorrect)
       else
         stmt (Some (OrderRow (pcr_OrderNo req)))
           (mysqlRepo_UpdateOrderStatus (pcr_OrderNo req) OrderStatusPending OrderStatusPaid)
           (\<lambda>_. pay PayStatusSuccess ''payment success'')))"

text \<open>Without interruption they are the bodies that \<open>ExecTx\<close> runs.\<close>

lemma run_cancel_prog: "run_prog (cancel_prog E n) = cancel_body (orderCancelService E) n"
proof -
  have coupon: "bindE (if b then m else return (Inr ())) g = (if b then bindE m g else g ())" for b m g
    by (simp add: bindE_def)
  show ?thesis
    by (simp add: cancel_prog_def cancel_pending_prog_def cancel_body_def orderCancelService_def mysqlRepo_def run_stmt coupon if_distrib [of run_prog]
        cong: if_cong)
qed

lemma run_callback_prog: "run_prog (callback_prog E req) = callback_body (mysqlRepo E) req"
  by (simp add: callback_prog_def callback_body_def mysqlRepo_def run_stmt if_distrib [of run_prog] Let_def cong: if_cong)

text \<open>Their statements stay on the rows they lock.\<close>

lemma on_row_GetOrderForUpdate: "on_row (Some (OrderRow n)) (run_state (mysqlRepo_GetOrderForUpdate E n))"
  unfolding mysqlRepo_GetOrderForUpdate_def
  by (rule on_row_bindE, rule on_row_on_error, rule order_rows_table.first_on_row) simp_all

lemma on_row_UpdateOrderStatus: "on_row (Some (OrderRow n)) (run_state (mysqlRepo_UpdateOrderStatus n st st'))"
  unfolding mysqlRepo_UpdateOrderStatus_def
  by (rule on_row_Now, rule on_row_bindE [where h = "\<lambda>n. if n = 0 then Inl ErrOrderStatusIncorrect else Inr ()"],
      rule order_rows_table.exec_on_row)
    (auto simp: set_status_def touch_order_def put_orders_def Let_def)

lemma on_row_RestoreStock: "on_row (Some (SkuRow s)) (run_state (mysqlRepo_RestoreStock s q))"
  unfolding mysqlRepo_RestoreStock_def
  by (rule on_row_bindE [where h = "\<lambda>n. if n = 0 then Inl (Plain (utf8 [230, 129, 162, 229, 164, 141, 229, 186, 147, 229, 173, 152, 229, 164, 177, 232, 180, 165])) else Inr ()"],
      rule sku_rows_table.exec_on_row)
    (auto simp: shift_stock_Some touch_sku_def put_skus_def)

lemma on_row_RestoreUserCoupon: "on_row (Some (UserCouponRow u)) (run_state (mysqlRepo_RestoreUserCoupon u))"
  unfolding mysqlRepo_RestoreUserCoupon_def
  by (rule on_row_bindE, rule user_coupon_rows_table.exec_on_row) (auto simp: touch_user_coupon_def put_user_coupons_def)

lemma run_call_core:
  assumes "\<And>w c. F (w\<lparr>core := c\<rparr>) = apsnd (\<lambda>w'. w'\<lparr>core := c\<rparr>) (F w)"
  shows "run_state (call F) (w\<lparr>core := c\<rparr>) = apsnd (\<lambda>w'. w'\<lparr>core := c\<rparr>) (run_state (call F) w)"
proof -
  have sw: "(w\<lparr>core := c\<rparr>)\<lparr>replies := rs\<rparr> = (w\<lparr>replies := rs\<rparr>)\<lparr>core := c\<rparr>" for rs by simp
  show ?thesis by (simp add: call_def assms sw split: list.split reply.split)
qed

lemma on_row_pay:
  "on_row k (run_state (mysqlRepo_GetPayInfoByPlatformNumber n))" "on_row k (run_state (mysqlRepo_UpdatePayInfoStatus n st t))"
proof -
  have get: "on_row k (run_state (first_on pay_infos p))" for p
    unfolding first_on_def query_def
    by (rule on_no_row, rule same_call, simp_all) (rule run_call_core, simp)
  have upd: "on_row k (run_state (exec_on pay_infos put_pay_infos p f touch))" for p f touch
    unfolding exec_on_def
    by (rule on_no_row, rule same_call, simp_all add: put_pay_infos_def split: sum.split prod.split)
      (rule run_call_core, simp add: current_timestamp_def put_pay_infos_def split: sum.split prod.split)
  show "on_row k (run_state (mysqlRepo_GetPayInfoByPlatformNumber n))"
    unfolding mysqlRepo_GetPayInfoByPlatformNumber_def by (rule on_row_bindE, rule on_row_on_error, rule get) simp
  show "on_row k (run_state (mysqlRepo_UpdatePayInfoStatus n st t))"
    unfolding mysqlRepo_UpdatePayInfoStatus_def
    by (rule on_row_bindE [where h = "\<lambda>n. if n = 0 then Inl ErrPayInfoNotFound else Inr ()"], rule upd) simp
qed

lemma local_cancel_prog: "local_prog (cancel_prog E n)"
  unfolding cancel_prog_def cancel_pending_prog_def
  by (intro local_stmt on_row_on_error on_row_GetOrderForUpdate)
    (auto intro!: local_stmt on_row_on_error on_row_UpdateOrderStatus on_row_RestoreStock on_row_RestoreUserCoupon local_prog.ret)

lemma local_callback_prog: "local_prog (callback_prog E req)"
  unfolding callback_prog_def
  by (intro local_stmt on_row_pay) (auto simp: Let_def intro!: local_stmt on_row_pay on_row_GetOrderForUpdate on_row_UpdateOrderStatus local_prog.ret)

section \<open>What they do, alone\<close>

definition status_of :: "string \<Rightarrow> core_db \<Rightarrow> u32 option" where
  "status_of n c = map_option orw_Status (sql_first (\<lambda>r. orw_OrderNo r = n) (orders c))"

text \<open>\<open>settles n st c d\<close>: of the orders only \<open>n\<close> changes, from pending to \<open>st\<close>, and the stock is conserved.\<close>

definition settles :: "string \<Rightarrow> u32 \<Rightarrow> core_db \<Rightarrow> core_db \<Rightarrow> bool" where
  "settles n st c d \<longleftrightarrow> wf_core d \<and> status_of n c = Some 0 \<and> status_of n d = Some st \<and>
     (\<forall>m. m \<noteq> n \<longrightarrow> status_of m d = status_of m c) \<and> (\<forall>base. grown base (orders c) \<longrightarrow> grown base (orders d)) \<and>
     (\<forall>t. stock_of_sku t d + held_of_sku t d = stock_of_sku t c + held_of_sku t c)"

lemma finishes_stmt:
  assumes "finishes (stmt k m rest) c (Inr x) d"
  obtains w y w' where "core w = c" and "run_state m w = (Inr y, w')" and "finishes (rest y) (core w') (Inr x) d"
  using assms unfolding stmt_def
  by (elim finishes_StmtE) (auto split: prod.splits sum.splits elim: finishes_RetE)

lemma finishes_Ret: "finishes (Ret x) c y d \<longleftrightarrow> y = x \<and> d = c"
  by (auto intro: finishes.ended elim: finishes_RetE)

text \<open>A successful change of status: the order was pending, only its status has changed.\<close>

lemma status_change:
  assumes wf: "wf_core (core w)" and run: "run_state (mysqlRepo_UpdateOrderStatus n OrderStatusPending st) w = (Inr (), w')"
    and st: "st \<in> {OrderStatusPaid, OrderStatusCancel}"
  shows "status_of n (core w) = Some 0" and "status_of n (core w') = Some (u32_of st)"
    and "m \<noteq> n \<Longrightarrow> status_of m (core w') = status_of m (core w)"
    and "grown base (orders (core w)) \<Longrightarrow> grown base (orders (core w'))"
proof -
  let ?g = "set_row (\<lambda>r. Some (set_status st (clock w) r)) (touch_order (current_timestamp w))"
  obtain rs r where w': "orders (core w') = sql_update (\<lambda>r. orw_OrderNo r = n \<and> orw_Status r = 0) ?g (orders (core w))"
    and r: "r \<in> set (orders (core w))" "orw_OrderNo r = n" "orw_Status r = 0"
    using run by (rule UpdateOrderStatus_run) (auto simp: put_orders_def OrderStatusPending_def)
  have f: "sql_first (\<lambda>r. orw_OrderNo r = n) (orders (core w)) = Some r"
    using find_distinct [of orw_OrderNo "orders (core w)" r] wf r(1,2) by (simp add: wf_core_def)
  note upd = first_update [where k = orw_OrderNo and g = ?g, OF set_status_keys(1)]
  show "status_of n (core w) = Some 0" by (simp add: status_of_def f r)
  show "status_of n (core w') = Some (u32_of st)" by (simp add: status_of_def w' upd f r set_status_keys)
  show "status_of m (core w') = status_of m (core w)" if "m \<noteq> n"
  proof (cases "sql_first (\<lambda>r. orw_OrderNo r = m) (orders (core w))")
    case (Some q)
    then have "orw_OrderNo q = m" using sql_first_Some [OF Some] by simp
    then show ?thesis using that Some by (simp add: status_of_def w' upd)
  qed (simp add: status_of_def w' upd)
  have "moved_on r (?g r)" for r by (rule set_status_moves [OF st])
  then show "grown base (orders (core w'))" if "grown base (orders (core w))" using grown_move [OF that] by (simp add: w')
qed

lemma settlesI:
  assumes "wf_core d" and "status_of n c = Some 0" and "status_of n d = Some st"
    and "\<And>m. m \<noteq> n \<Longrightarrow> status_of m d = status_of m c" and "\<And>base. grown base (orders c) \<Longrightarrow> grown base (orders d)"
    and "\<And>t. stock_of_sku t d + held_of_sku t d = stock_of_sku t c + held_of_sku t c"
  shows "settles n st c d"
  using assms unfolding settles_def by blast

lemma cancel_pending_effect:
  assumes fin: "finishes (cancel_pending_prog n y) c (Inr order) d" and wf: "wf_core c"
    and v: "order_view_of n c = Some (oi_SkuID y, oi_Quantity y, 0)"
  shows "order = y \<and> settles n 2 c d"
proof -
  obtain w2 w3 w4 w5 where upd: "run_state (mysqlRepo_UpdateOrderStatus n OrderStatusPending OrderStatusCancel) w2 = (Inr (), w3)"
      and stock: "run_state (mysqlRepo_RestoreStock (oi_SkuID y) (u32_of (oi_Quantity y))) w4 = (Inr (), w5)"
      and core: "core w2 = c" "core w4 = core w3"
      and order: "order = y" "ledger_part d = ledger_part (core w5)"
    using fin unfolding cancel_pending_prog_def
    by (auto simp: on_error_Inr finishes_Ret split: if_splits elim!: finishes_stmt dest!: sameD [OF ledger_RestoreUserCoupon])
  have wf2: "wf_core (core w2)" using wf core by simp
  have st: "OrderStatusCancel \<in> {OrderStatusPaid, OrderStatusCancel}" by simp
  note ch = status_change [OF wf2 upd st] and keys = UpdateOrderStatus_keys [OF wf2 upd]
  have wf4: "wf_core (core w4)" using keys core by simp
  note res = RestoreStock_effect [OF wf4 stock]
  have held: "held_of_sku t (core w3) = held_of_sku t (core w2) - (if t = oi_SkuID y then oi_Quantity y else 0)" for t
    using UpdateOrderStatus_cancel [OF wf2] upd v core by (simp add: order_status_defs)
  have q: "uint (u32_of (oi_Quantity y)) = oi_Quantity y"
    using mysql_ledger.view_range [OF v] by (simp add: uint_word_of_int)
  have d: "orders d = orders (core w3)" "skus d = skus (core w5)"
    using order(2) core(2) sameD [OF orders_same(5) [unfolded mysqlRepo_def SeckillRepo.simps] stock] by (simp_all add: ledger_part_def)
  have bal: "stock_of_sku t d + held_of_sku t d = stock_of_sku t c + held_of_sku t c" for t
    using res [of t] keys [of t] held [of t] q core order(2)
    by (auto simp: ledger_part_def stock_of_sku_def held_of_sku_def)
  have "wf_core d" using res order(2) wf_ledger by blast
  then have "settles n 2 c d"
    by (rule settlesI) (use ch core d bal in \<open>simp_all add: status_of_def order_status_defs\<close>)
  then show ?thesis using order(1) by simp
qed

lemma cancel_effect:
  assumes fin: "finishes (cancel_prog E n) c (Inr order) d" and wf: "wf_core c"
  shows "if oi_Status order = OrderStatusPending then settles n 2 c d else d = c"
proof -
  obtain y w w1 where get: "run_state (mysqlRepo_GetOrderForUpdate E n) w = (Inr y, w1)" and c: "core w = c"
      and rest: "finishes (if oi_Status y \<noteq> OrderStatusPending then Ret (Inr y) else cancel_pending_prog n y) (core w1) (Inr order) d"
    using fin unfolding cancel_prog_def by (auto simp: on_error_Inr elim!: finishes_stmt)
  have v: "order_view_of n c = Some (oi_SkuID y, oi_Quantity y, oi_Status y)" using GetOrderForUpdate_view [OF get] c by simp
  have "core w1 = c" using sameD [OF core_reads(1) get] c by simp
  then show ?thesis using rest v cancel_pending_effect [OF _ wf, of n y order d]
    by (auto simp: finishes_Ret OrderStatusPending_def split: if_splits)
qed

text \<open>A callback's answer tells whether it paid the order.\<close>

lemma pay_effect:
  assumes "finishes (stmt None (mysqlRepo_UpdatePayInfoStatus n s t) (\<lambda>_. Ret (Inr r))) c (Inr x) d"
  shows "x = r \<and> d = c"
  using assms by (auto simp: finishes_Ret elim!: finishes_stmt dest!: sameD [OF core_pay_writes(2)])

lemma callback_effect:
  assumes fin: "finishes (callback_prog E req) c (Inr res) d" and wf: "wf_core c"
  shows "if res = callback_result ''payment success'' then settles (pcr_OrderNo req) 1 c d else d = c"
proof -
  let ?n = "pcr_OrderNo req"
  have paid: "(res \<noteq> callback_result ''payment success'' \<longrightarrow> d = c) \<and> (res = callback_result ''payment success'' \<longrightarrow>
     (\<exists>w w'. core w = c \<and> run_state (mysqlRepo_UpdateOrderStatus ?n OrderStatusPending OrderStatusPaid) w = (Inr (), w') \<and>
        core w' = d))"
    using fin unfolding callback_prog_def Let_def
    by (auto simp: finishes_Ret callback_result_def split: if_splits elim!: finishes_stmt
        dest!: pay_effect sameD [OF core_reads(1)] sameD [OF core_reads(6)]; blast)
  show ?thesis
  proof (cases "res = callback_result ''payment success''")
    case True
    then obtain w w' where w: "core w = c" "core w' = d"
      and upd: "run_state (mysqlRepo_UpdateOrderStatus ?n OrderStatusPending OrderStatusPaid) w = (Inr (), w')"
      using paid by blast
    have wf': "wf_core (core w)" using wf w by simp
    have st: "OrderStatusPaid \<in> {OrderStatusPaid, OrderStatusCancel}" by simp
    note ch = status_change [OF wf' upd st] and keys = UpdateOrderStatus_keys [OF wf' upd]
    have held: "held_of_sku t (core w') = held_of_sku t (core w)" for t
      using UpdateOrderStatus_pay [of ?n w w' t] upd by (simp add: order_status_defs)
    have "settles ?n 1 (core w) (core w')"
      by (rule settlesI) (use keys ch held in \<open>simp_all add: order_status_defs\<close>)
    then show ?thesis using True w by simp
  qed (use paid in simp)
qed
section \<open>Any number of them at once\<close>

datatype tx_job = Cancels string | Pays PayCallbackRequest

primrec prog_of :: "env \<Rightarrow> tx_job \<Rightarrow> (OrderInfo + PayCallbackResult) prog" where
  "prog_of E (Cancels n) = map_prog Inl (cancel_prog E n)"
| "prog_of E (Pays req) = map_prog Inr (callback_prog E req)"

primrec job_order :: "tx_job \<Rightarrow> string" where
  "job_order (Cancels n) = n"
| "job_order (Pays req) = pcr_OrderNo req"

text \<open>The status a committed transaction says it has given its order, if it has.\<close>

fun settled_to :: "OrderInfo + PayCallbackResult \<Rightarrow> u32 option" where
  "settled_to (Inl order) = (if oi_Status order = OrderStatusPending then Some 2 else None)"
| "settled_to (Inr res) = (if res = callback_result ''payment success'' then Some 1 else None)"

fun outcome_of :: "(OrderInfo + PayCallbackResult) tx \<Rightarrow> u32 option" where
  "outcome_of (Committed x) = settled_to x"
| "outcome_of _ = None"

lemma local_map: "local_prog p \<Longrightarrow> local_prog (map_prog g p)"
proof (induction rule: local_prog.induct)
  case (stmt k f)
  have "on_row k (map_prod (map_prog g) id \<circ> f)"
    using on_row_then [OF stmt.hyps(1), of "map_prog g"] by (simp add: comp_def map_prod_def)
  then show ?case by (simp, rule local_prog.stmt) (simp add: stmt.IH)
qed (simp add: local_prog.ret)

lemma finishes_map:
  "finishes q c x d \<Longrightarrow> q = map_prog g p \<Longrightarrow> x = Inr y \<Longrightarrow> \<exists>z. finishes p c (Inr z) d \<and> y = g z"
proof (induction arbitrary: p rule: finishes.induct)
  case (ended x c)
  then obtain r where p: "p = Ret r" "map_sum id g r = Inr y" by (cases p) auto
  then show ?case by (cases r) (auto simp: finishes_Ret)
next
  case (first f w q w' x d k)
  then obtain f' where p: "p = Stmt k f'" "f = map_prod (map_prog g) id \<circ> f'" by (cases p) auto
  then obtain q' where f: "f' w = (q', w')" "q = map_prog g q'" using first.hyps(1) by (cases "f' w") auto
  then obtain z where "finishes q' (core w') (Inr z) d" "y = g z" using first.IH first.prems(2) by blast
  then show ?case using finishes.first [of f' w q' w' "Inr z" d k] f(1) p(1) by blast
qed

lemma finishes_map_intro: "finishes p c x d \<Longrightarrow> finishes (map_prog g p) c (map_sum id g x) d"
  by (induction rule: finishes.induct) (simp_all add: finishes_Ret id_def finishes.first)

lemma local_prog_of: "local_prog (prog_of E j)"
  by (cases j) (simp_all add: local_map local_cancel_prog local_callback_prog)

lemma job_effect:
  assumes "finishes (prog_of E j) c (Inr x) d" and "wf_core c"
  shows "case settled_to x of None \<Rightarrow> d = c | Some st \<Rightarrow> settles (job_order j) st c d \<and> st \<noteq> 0"
  using assms cancel_effect callback_effect
  by (cases j) (fastforce dest!: finishes_map [OF _ refl refl])+

text \<open>A transaction that meets no lock can commit.\<close>

lemma commits_unhindered:
  "finishes p e r d \<Longrightarrow> r = Inr x \<Longrightarrow> local_prog p \<Longrightarrow> same_keys c v \<Longrightarrow> mix H c v = e \<Longrightarrow> i < length ts \<Longrightarrow>
     (\<forall>j < length ts. j \<noteq> i \<longrightarrow> held (ts ! j) = {}) \<Longrightarrow>
     tx_step\<^sup>*\<^sup>* (c, ts[i := Running p H v]) (d, ts[i := Committed x])"
proof (induction arbitrary: H v rule: finishes.induct)
  case (ended r e)
  then show ?case using tx_step.commits [of i "ts[i := Running (Ret (Inr x)) H v]" x H v c] by simp
next
  case (first f w q w' r d k)
  have k: "on_row k f" "local_prog q" using first.prems(2) first.hyps(1) by (auto elim!: local_StmtE) (metis fst_conv)
  have s: "same_keys (core w) (core w')" "mix (set_option k) (core w) (core w') = core w'"
    using on_rowD(1,2) [OF k(1), of w] first.hyps(1) by simp_all
  have w: "same_keys c (core w)" "mix H c (core w) = core w"
    using first.prems(3,4) same_keys_mix mix_again by metis+
  have "tx_step (c, ts[i := Running (Stmt k f) H v]) (c, ts[i := Running q (H \<union> set_option k) (core w')])"
    using tx_step.executes [of i "ts[i := Running (Stmt k f) H v]" k f H v w c q w'] first.prems first.hyps(1) by simp
  moreover have "tx_step\<^sup>*\<^sup>* (c, ts[i := Running q (H \<union> set_option k) (core w')]) (d, ts[i := Committed x])"
    using first.IH [of "core w'" "H \<union> set_option k"] first.prems k(2) mix_grow [OF w(1) s(1) w(2) s(2)] same_keys_trans [OF w(1) s(1)]
    by blast
  ultimately show ?case by (rule converse_rtranclp_into_rtranclp)
qed

text \<open>
  The serial run of such transactions: what one says it has done stays so, and no other has done it.
\<close>

definition settled_once :: "tx_job list \<Rightarrow> core_db \<Rightarrow> (nat \<times> (OrderInfo + PayCallbackResult)) list \<Rightarrow> core_db \<Rightarrow> bool" where
  "settled_once jobs c0 order c \<longleftrightarrow> (\<forall>i x st. (i, x) \<in> set order \<longrightarrow> settled_to x = Some st \<longrightarrow>
     st \<noteq> 0 \<and> status_of (job_order (jobs ! i)) c0 = Some 0 \<and> status_of (job_order (jobs ! i)) c = Some st \<and>
     (\<forall>j y. (j, y) \<in> set order \<longrightarrow> j \<noteq> i \<longrightarrow> job_order (jobs ! j) = job_order (jobs ! i) \<longrightarrow> settled_to y = None))"

lemma settled_once_more:
  assumes "settled_once jobs c0 order c" and "settles (job_order (jobs ! i)) st c d" and "st \<noteq> 0" and "settled_to x = Some st"
    and "status_of (job_order (jobs ! i)) c0 = Some 0"
  shows "settled_once jobs c0 (order @ [(i, x)]) d"
proof -
  have new: "status_of (job_order (jobs ! i)) c = Some 0" "status_of (job_order (jobs ! i)) d = Some st"
    and others: "m \<noteq> job_order (jobs ! i) \<Longrightarrow> status_of m d = status_of m c" for m
    using assms(2) by (auto simp: settles_def)
  have old: "job_order (jobs ! j) \<noteq> job_order (jobs ! i)" if "(j, y) \<in> set order" "settled_to y = Some st'" for j y st'
    using assms(1) new(1) that unfolding settled_once_def by (metis option.inject)
  show ?thesis unfolding settled_once_def
  proof (intro allI impI)
    fix j y st' assume j: "(j, y) \<in> set (order @ [(i, x)])" and y: "settled_to y = Some st'"
    show "st' \<noteq> 0 \<and> status_of (job_order (jobs ! j)) c0 = Some 0 \<and> status_of (job_order (jobs ! j)) d = Some st' \<and>
       (\<forall>k z. (k, z) \<in> set (order @ [(i, x)]) \<longrightarrow> k \<noteq> j \<longrightarrow> job_order (jobs ! k) = job_order (jobs ! j) \<longrightarrow> settled_to z = None)"
    proof (cases "(j, y) \<in> set order")
      case True
      then show ?thesis using assms(1) old [OF True y] others y unfolding settled_once_def by auto
    next
      case False
      then have "j = i" "y = x" using j by auto
      moreover have "settled_to z = None" if "(k, z) \<in> set order" "job_order (jobs ! k) = job_order (jobs ! i)" for k z
        using old [OF that(1)] that(2) by (cases "settled_to z") auto
      ultimately show ?thesis using assms(3-5) new(2) y by auto
    qed
  qed
qed

lemma settled_once_same: "settled_once jobs c0 order c \<Longrightarrow> settled_to x = None \<Longrightarrow> settled_once jobs c0 (order @ [(i, x)]) c"
  unfolding settled_once_def by auto

lemma serial_settles:
  assumes "serial (map (prog_of E) jobs) c0 order c" and "wf_core c0"
  shows "wf_core c \<and> (\<forall>t. stock_of_sku t c + held_of_sku t c = stock_of_sku t c0 + held_of_sku t c0) \<and>
     grown (orders c0) (orders c) \<and> (\<forall>n. status_of n c = status_of n c0 \<or> status_of n c0 = Some 0) \<and>
     settled_once jobs c0 order c"
  using assms
proof (induction "map (prog_of E) jobs" c0 order c rule: serial.induct)
  case (nobody c)
  then show ?case by (simp add: grown_refl settled_once_def)
next
  case (one_more c0 order c i x d)
  note IH = one_more.hyps(2) [OF one_more.prems]
  have i: "i < length jobs" using one_more.hyps(3) by simp
  have eff: "case settled_to x of None \<Rightarrow> d = c | Some st \<Rightarrow> settles (job_order (jobs ! i)) st c d \<and> st \<noteq> 0"
    using job_effect [of E "jobs ! i" c x d] one_more.hyps(4) i IH by simp
  show ?case
  proof (cases "settled_to x")
    case None
    then show ?thesis using eff IH settled_once_same by simp
  next
    case (Some st)
    then have s: "settles (job_order (jobs ! i)) st c d" "st \<noteq> 0" using eff by simp_all
    have z: "status_of (job_order (jobs ! i)) c0 = Some 0" using s(1) IH by (metis settles_def)
    have "settled_once jobs c0 (order @ [(i, x)]) d" using settled_once_more [OF _ s Some z] IH by blast
    moreover have "status_of n d = status_of n c0 \<or> status_of n c0 = Some 0" for n
      using s(1) IH z by (cases "n = job_order (jobs ! i)") (auto simp: settles_def)
    ultimately show ?thesis using s(1) IH by (simp add: settles_def)
  qed
qed

lemma jobs_are_serial:
  assumes "tx_step\<^sup>*\<^sup>* (c0, map (\<lambda>j. Ready (prog_of E j)) jobs) (c, ts)"
  shows "\<exists>order. distinct (map fst order) \<and> set order = {(i, x). i < length ts \<and> ts ! i = Committed x} \<and>
     serial (map (prog_of E) jobs) c0 order c"
  using overlapping_is_serial [of c0 "map (prog_of E) jobs" c ts] assms by (auto simp: local_prog_of comp_def)

lemma cancel0_body:
  "\<exists>order. fst (run_state (cancel_body (orderCancelService E0) ''n1'') world1) = Inr order \<and> oi_Status order = OrderStatusPending"
  by (simp add: cancel_run mysqlRepo_def run_rules sample world1_def order_row0_def order_row_def
      order_of_def order_status_defs)

text \<open>A cancellation of the sample's order commits while a payment of it has begun.\<close>

definition callback0 :: PayCallbackRequest where
  "callback0 = \<lparr>pcr_OrderNo = ''n1'', pcr_PlatformNumber = ''p1'', pcr_PayAmount = 200, pcr_PlatformStatus = PayStatusSuccess,
     pcr_PayTime = 1, pcr_Sign = []\<rparr>"

abbreviation jobs0 :: "tx_job list" where
  "jobs0 \<equiv> [Cancels ''n1'', Pays callback0]"

lemma jobs0_run:
  obtains c ts where "tx_step\<^sup>*\<^sup>* (core world1, map (\<lambda>j. Ready (prog_of E0 j)) jobs0) (c, ts)"
    and "length ts = 2" and "outcome_of (ts ! 0) = Some 2"
proof -
  obtain w' order where run: "run_state (cancel_body (orderCancelService E0) ''n1'') world1 = (Inr order, w')"
      and st: "oi_Status order = OrderStatusPending"
    using cancel0_body by (cases "run_state (cancel_body (orderCancelService E0) ''n1'') world1") auto
  have "finishes (cancel_prog E0 ''n1'') (core world1) (Inr order) (core w')"
    by (rule run_finishes) (simp add: run_cancel_prog run)
  then have fin: "finishes (prog_of E0 (Cancels ''n1'')) (core world1) (Inr (Inl order)) (core w')"
    using finishes_map_intro [where g = Inl] by fastforce
  let ?c = "core world1" and ?p = "prog_of E0 (Cancels ''n1'')" and ?q = "prog_of E0 (Pays callback0)"
  have 1: "tx_step (?c, [Ready ?p, Ready ?q]) (?c, [Ready ?p, Running ?q {} ?c])"
    using tx_step.begins [of 1 "[Ready ?p, Ready ?q]" ?q ?c] by simp
  have 2: "tx_step (?c, [Ready ?p, Running ?q {} ?c]) (?c, [Running ?p {} ?c, Running ?q {} ?c])"
    using tx_step.begins [of 0 "[Ready ?p, Running ?q {} ?c]" ?p ?c] by simp
  have 3: "tx_step\<^sup>*\<^sup>* (?c, [Running ?p {} ?c, Running ?q {} ?c]) (core w', [Committed (Inl order), Running ?q {} ?c])"
    using commits_unhindered [OF fin refl local_prog_of, of ?c ?c "{}" 0 "[Ready ?p, Running ?q {} ?c]"]
    by (simp add: less_Suc_eq mix_empty)
  show ?thesis
  proof (rule that)
    show "tx_step\<^sup>*\<^sup>* (?c, map (\<lambda>j. Ready (prog_of E0 j)) jobs0) (core w', [Committed (Inl order), Running ?q {} ?c])"
      using 1 2 3 by (auto simp del: prog_of.simps intro: converse_rtranclp_into_rtranclp)
  qed (simp_all add: st)
qed

text \<open>C10: cancellations and payment callbacks, any number of them and of any orders, interleaved statement by
  statement under the row locks of MySQL, with the other databases, the clock and the failures of
  calls arbitrary at every statement, and with transactions rolled back at any time, have
  done to the core database what the committed ones do one after the other, each alone.\<close>

theorem overlapping_transactions_are_serial:
  assumes "tx_step\<^sup>*\<^sup>* (c0, map (\<lambda>j. Ready (prog_of E j)) jobs) (c, ts)"
  shows "\<exists>order. distinct (map fst order) \<and> set order = {(i, x). i < length ts \<and> ts ! i = Committed x} \<and>
     serial (map (prog_of E) jobs) c0 order c"
  by (rule jobs_are_serial [OF assms])

theorem overlapping_transactions_are_serial_witness:
  "\<exists>c ts order. set order = {(i, x). i < length ts \<and> ts ! i = Committed x} \<and> outcome_of (ts ! 0) = Some 2 \<and>
     serial (map (prog_of E0) jobs0) (core world1) order c"
proof -
  obtain c ts where run: "tx_step\<^sup>*\<^sup>* (core world1, map (\<lambda>j. Ready (prog_of E0 j)) jobs0) (c, ts)"
    and out: "outcome_of (ts ! 0) = Some 2" by (rule jobs0_run)
  show ?thesis using overlapping_transactions_are_serial [OF run] out by blast
qed

text \<open>C9: when a cancellation and a payment of one order overlap in this way, at most one of them wins: of all the
  transactions about an order at most one commits as the one that settled it, the order was pending
  before and then has the status that one gave it; and whatever commits, stock is conserved
  and rows of orders only move from pending to paid or cancelled.\<close>

theorem one_transaction_settles_an_order:
  assumes "tx_step\<^sup>*\<^sup>* (c0, map (\<lambda>j. Ready (prog_of E j)) jobs) (c, ts)" and "wf_core c0"
  shows "stock_of_sku t c + held_of_sku t c = stock_of_sku t c0 + held_of_sku t c0 \<and> grown (orders c0) (orders c) \<and>
     (\<forall>i < length ts. \<forall>st. outcome_of (ts ! i) = Some st \<longrightarrow>
        status_of (job_order (jobs ! i)) c0 = Some 0 \<and> status_of (job_order (jobs ! i)) c = Some st \<and>
        (\<forall>j < length ts. j \<noteq> i \<longrightarrow> job_order (jobs ! j) = job_order (jobs ! i) \<longrightarrow> outcome_of (ts ! j) = None))"
proof -
  obtain order where o: "set order = {(i, x). i < length ts \<and> ts ! i = Committed x}"
    and s: "serial (map (prog_of E) jobs) c0 order c" using jobs_are_serial [OF assms(1)] by blast
  note S = serial_settles [OF s assms(2)]
  have com: "\<exists>x. ts ! i = Committed x \<and> settled_to x = Some st" if "outcome_of (ts ! i) = Some st" for i st
    using that by (cases "ts ! i") auto
  have "status_of (job_order (jobs ! i)) c0 = Some 0 \<and> status_of (job_order (jobs ! i)) c = Some st \<and>
      (\<forall>j < length ts. j \<noteq> i \<longrightarrow> job_order (jobs ! j) = job_order (jobs ! i) \<longrightarrow> outcome_of (ts ! j) = None)"
    if i: "i < length ts" and out: "outcome_of (ts ! i) = Some st" for i st
  proof -
    obtain x where x: "ts ! i = Committed x" "settled_to x = Some st" using com [OF out] by blast
    then have "(i, x) \<in> set order" using i by (simp add: o)
    then have once: "status_of (job_order (jobs ! i)) c0 = Some 0 \<and> status_of (job_order (jobs ! i)) c = Some st \<and>
        (\<forall>j y. (j, y) \<in> set order \<longrightarrow> j \<noteq> i \<longrightarrow> job_order (jobs ! j) = job_order (jobs ! i) \<longrightarrow> settled_to y = None)"
      using S x(2) unfolding settled_once_def by blast
    moreover have "outcome_of (ts ! j) = None"
      if "j < length ts" "j \<noteq> i" "job_order (jobs ! j) = job_order (jobs ! i)" for j
      using once that com [of j] by (cases "outcome_of (ts ! j)") (auto simp: o)
    ultimately show ?thesis by blast
  qed
  then show ?thesis using S by blast
qed

theorem one_transaction_settles_an_order_witness:
  "\<exists>c ts. tx_step\<^sup>*\<^sup>* (core world1, map (\<lambda>j. Ready (prog_of E0 j)) jobs0) (c, ts) \<and> status_of ''n1'' c = Some 2 \<and>
     outcome_of (ts ! 1) = None"
proof -
  obtain c ts where run: "tx_step\<^sup>*\<^sup>* (core world1, map (\<lambda>j. Ready (prog_of E0 j)) jobs0) (c, ts)"
    and two: "length ts = 2" and out: "outcome_of (ts ! 0) = Some 2" by (rule jobs0_run)
  have o: "job_order (jobs0 ! 0) = ''n1''" "job_order (jobs0 ! 1) = ''n1''" "0 < length ts" "1 < length ts"
    by (simp_all add: callback0_def two)
  have "status_of (job_order (jobs0 ! 0)) c = Some 2" "outcome_of (ts ! 1) = None"
    using one_transaction_settles_an_order [OF run wf_world1] out o by (blast, metis zero_neq_one)
  then have "status_of ''n1'' c = Some 2 \<and> outcome_of (ts ! 1) = None" by (simp add: o)
  then show ?thesis using run by blast
qed

end
