(* ===== verification/Kafka_Setup.thy ===== *)
theory Kafka_Setup
  imports Consumer
begin

text \<open>
  The Kafka clients around the handlers: \<open>FromProto\<close> and \<open>NewSaramaConfig\<close> of
  \<open>internal/kafka/config.go\<close>, the construction and closing of the producer, and the life of the
  two consumers (\<open>NewConsumer\<close>, \<open>Start\<close>, \<open>Stop\<close>, \<open>Setup\<close> of \<open>consumer.go\<close> and
  \<open>dlq_consumer.go\<close>) as steps of its goroutines.  The sarama library is a parameter: the
  configuration its \<open>NewConfig\<close> returns, its version parser, whether a client can be opened or
  closed, and when \<open>Consume\<close> opens a session or returns.
\<close>

section \<open>Configuration\<close>

record ProducerConfig =
  pc_MaxMessageBytes :: int
  pc_RequiredAcks :: int
  pc_Compression :: string
  pc_RetryMax :: int
  pc_RetryBackoff :: Time
  pc_Timeout :: Time
  pc_EnableIdempotence :: bool
  pc_MaxInFlight :: int

record ConsumerConfig =
  cc_SessionTimeout :: Time
  cc_HeartbeatInterval :: Time
  cc_MaxProcessingTime :: Time
  cc_FetchMinBytes :: int
  cc_FetchMaxBytes :: int
  cc_MaxWaitTime :: Time

text \<open>The whole of the Go struct \<open>Config\<close>.\<close>

record KafkaConfig = Config +
  cfg_Producer :: ProducerConfig
  cfg_Consumer :: ConsumerConfig

text \<open>
  The configuration message: its parts are pointers.  Reading a field of a part that is not
  there is a nil dereference; \<open>AsDuration\<close> of the protobuf library is a parameter and takes a
  missing duration too.
\<close>

record 'd ProtoProducer =
  pp_MaxMessageBytes :: int
  pp_RequiredAcks :: int
  pp_Compression :: string
  pp_RetryMax :: int
  pp_RetryBackoff :: "'d option"
  pp_Timeout :: "'d option"
  pp_EnableIdempotence :: bool
  pp_MaxInFlight :: int

record 'd ProtoConsumer =
  pn_SessionTimeout :: "'d option"
  pn_HeartbeatInterval :: "'d option"
  pn_MaxProcessingTime :: "'d option"
  pn_FetchMinBytes :: int
  pn_FetchMaxBytes :: int
  pn_MaxWaitTime :: "'d option"

record 'd ProtoKafka =
  pk_Brokers :: "string list"
  pk_Version :: string
  pk_ConsumerGroup :: string
  pk_ClientId :: string
  pk_Producer :: "'d ProtoProducer option"
  pk_Consumer :: "'d ProtoConsumer option"
  pk_Topics :: "TopicNames option"

datatype 'a outcome = Returns 'a | Panics

definition FromProto :: "('d option \<Rightarrow> Time) \<Rightarrow> 'd ProtoKafka option \<Rightarrow> KafkaConfig option outcome" where
  "FromProto asDuration cfg = (case cfg of
       None \<Rightarrow> Returns None
     | Some k \<Rightarrow> (case (pk_Producer k, pk_Consumer k, pk_Topics k) of
           (Some p, Some c, Some t) \<Rightarrow> Returns (Some
             \<lparr>cfg_Brokers = pk_Brokers k, cfg_Version = pk_Version k, cfg_ConsumerGroup = pk_ConsumerGroup k,
              cfg_ClientID = pk_ClientId k, cfg_Topics = t,
              cfg_Producer = \<lparr>pc_MaxMessageBytes = pp_MaxMessageBytes p, pc_RequiredAcks = pp_RequiredAcks p,
                pc_Compression = pp_Compression p, pc_RetryMax = pp_RetryMax p,
                pc_RetryBackoff = asDuration (pp_RetryBackoff p), pc_Timeout = asDuration (pp_Timeout p),
                pc_EnableIdempotence = pp_EnableIdempotence p, pc_MaxInFlight = pp_MaxInFlight p\<rparr>,
              cfg_Consumer = \<lparr>cc_SessionTimeout = asDuration (pn_SessionTimeout c),
                cc_HeartbeatInterval = asDuration (pn_HeartbeatInterval c),
                cc_MaxProcessingTime = asDuration (pn_MaxProcessingTime c), cc_FetchMinBytes = pn_FetchMinBytes c,
                cc_FetchMaxBytes = pn_FetchMaxBytes c, cc_MaxWaitTime = asDuration (pn_MaxWaitTime c)\<rparr>\<rparr>)
         | _ \<Rightarrow> Panics))"

datatype CompressionCodec = CompressionNone | CompressionGZIP | CompressionSnappy | CompressionLZ4 | CompressionZSTD

text \<open>The fields of \<open>sarama.Config\<close> that the code sets; \<open>'v\<close> is the version type.\<close>

record 'v SaramaConfig =
  sc_Version :: 'v
  sc_ClientID :: string
  sc_MaxOpenRequests :: int
  sc_Return_Successes :: bool
  sc_Return_Errors :: bool
  sc_RequiredAcks :: int
  sc_MaxMessageBytes :: int
  sc_Retry_Max :: int
  sc_Retry_Backoff :: Time
  sc_Timeout :: Time
  sc_Idempotent :: bool
  sc_Compression :: CompressionCodec
  sc_RoundRobin :: bool
  sc_Session_Timeout :: Time
  sc_Heartbeat_Interval :: Time
  sc_MaxProcessingTime :: Time
  sc_Fetch_Min :: int
  sc_Fetch_Default :: int
  sc_MaxWaitTime :: Time
  sc_AutoCommit :: bool
  sc_OffsetOldest :: bool
  sc_Consumer_Return_Errors :: bool

text \<open>\<open>sarama.RequiredAcks\<close> is a 16-bit integer; \<open>WaitForAll\<close> is minus one.\<close>

definition wrap16 :: "int \<Rightarrow> int" where
  "wrap16 x = (x + 2 ^ 15) mod 2 ^ 16 - 2 ^ 15"

definition compression_of :: "string \<Rightarrow> CompressionCodec" where
  "compression_of s =
     (if s = ''gzip'' then CompressionGZIP
      else if s = ''snappy'' then CompressionSnappy
      else if s = ''lz4'' then CompressionLZ4
      else if s = ''zstd'' then CompressionZSTD
      else CompressionNone)"

definition NewSaramaConfig :: "(string \<Rightarrow> 'v option) \<Rightarrow> 'v \<Rightarrow> 'v SaramaConfig \<Rightarrow> KafkaConfig \<Rightarrow> 'v SaramaConfig" where
  "NewSaramaConfig parseVersion V2_6_0_0 newConfig c =
     (let version = (case parseVersion (cfg_Version c) of Some v \<Rightarrow> v | None \<Rightarrow> V2_6_0_0);
          p = cfg_Producer c; n = cfg_Consumer c;
          s = newConfig\<lparr>sc_Version := version, sc_ClientID := cfg_ClientID c, sc_Return_Successes := True,
                sc_Return_Errors := True, sc_RequiredAcks := wrap16 (pc_RequiredAcks p),
                sc_MaxMessageBytes := pc_MaxMessageBytes p, sc_Retry_Max := pc_RetryMax p,
                sc_Retry_Backoff := pc_RetryBackoff p, sc_Timeout := pc_Timeout p,
                sc_Idempotent := pc_EnableIdempotence p\<rparr>;
          s = (if pc_EnableIdempotence p
               then s\<lparr>sc_MaxOpenRequests := pc_MaxInFlight p, sc_RequiredAcks := - 1, sc_Retry_Max := pc_RetryMax p\<rparr>
               else s)
      in s\<lparr>sc_Compression := compression_of (pc_Compression p), sc_RoundRobin := True,
           sc_Session_Timeout := cc_SessionTimeout n, sc_Heartbeat_Interval := cc_HeartbeatInterval n,
           sc_MaxProcessingTime := cc_MaxProcessingTime n, sc_Fetch_Min := wrap32 (cc_FetchMinBytes n),
           sc_Fetch_Default := wrap32 (cc_FetchMaxBytes n), sc_MaxWaitTime := cc_MaxWaitTime n,
           sc_AutoCommit := False\<rparr>)"

text \<open>The consumers turn automatic commits back on.\<close>

definition consumer_settings :: "'v SaramaConfig \<Rightarrow> 'v SaramaConfig" where
  "consumer_settings s = s\<lparr>sc_OffsetOldest := True, sc_AutoCommit := True, sc_Consumer_Return_Errors := True\<rparr>"

section \<open>The producer\<close>

text \<open>The clients that are open, and whether \<open>closeOnce\<close> has run.\<close>

record ProducerState =
  ps_sync_open :: bool
  ps_async_open :: bool
  ps_closed :: bool

text \<open>
  \<open>NewProducer\<close>, given what opening each client returns; the second value tells which clients
  are open when it returns.
\<close>

definition NewProducer :: "error option \<Rightarrow> error option \<Rightarrow> KafkaConfig \<Rightarrow> (error + ProducerState) \<times> bool \<times> bool" where
  "NewProducer sync async cfg = (case Validate (Config.truncate cfg) of
       Some e \<Rightarrow> (Inl (Wrapped ''invalid kafka config'' e), False, False)
     | None \<Rightarrow> (case sync of
           Some e \<Rightarrow> (Inl (Wrapped ''create sync producer failed'' e), False, False)
         | None \<Rightarrow> (case async of
               Some e \<Rightarrow> (Inl (Wrapped ''create async producer failed'' e), False, False)
             | None \<Rightarrow> (Inr \<lparr>ps_sync_open = True, ps_async_open = True, ps_closed = False\<rparr>, True, True))))"

text \<open>\<open>Close\<close>, given what closing each client returns: the last error wins, a second call does nothing.\<close>

definition producer_Close :: "error option \<Rightarrow> error option \<Rightarrow> ProducerState \<Rightarrow> error option \<times> ProducerState" where
  "producer_Close sync async p =
     (if ps_closed p then (None, p)
      else (case async of Some e \<Rightarrow> Some e | None \<Rightarrow> sync,
            \<lparr>ps_sync_open = False, ps_async_open = False, ps_closed = True\<rparr>))"

text \<open>A failed construction leaves no client open, and a producer that was closed stays closed.\<close>

lemma NewProducer_leaks_nothing: "NewProducer sync async cfg = (Inl e, opened) \<Longrightarrow> opened = (False, False)"
  by (auto simp: NewProducer_def split: option.splits)

lemma producer_Close_twice:
  "producer_Close s2 a2 (snd (producer_Close s1 a1 p)) = (None, snd (producer_Close s1 a1 p))"
  by (simp add: producer_Close_def)

section \<open>The life of a consumer\<close>

text \<open>The consuming goroutine: in \<open>Consume\<close>, in the two seconds after an error, or ended.\<close>

datatype consume_loop = Consuming | Sleeping | Ended

datatype start_call = StartWaits | StartOK | StartCancelled

datatype stop_call = StopUncalled | StopWaits | StopReturned "error option"

text \<open>
  A call of \<open>Start\<close> or \<open>Stop\<close> only advances: it waits, then it has returned, and what it returned stays.
\<close>

instantiation start_call :: order
begin

definition less_eq_start_call :: "start_call \<Rightarrow> start_call \<Rightarrow> bool" where
  "less_eq_start_call a b \<longleftrightarrow> a = b \<or> a = StartWaits"

definition less_start_call :: "start_call \<Rightarrow> start_call \<Rightarrow> bool" where
  "less_start_call a b \<longleftrightarrow> a \<le> b \<and> \<not> b \<le> a"

instance
  by standard (auto simp: less_eq_start_call_def less_start_call_def)

end

instantiation stop_call :: order
begin

definition less_eq_stop_call :: "stop_call \<Rightarrow> stop_call \<Rightarrow> bool" where
  "less_eq_stop_call a b \<longleftrightarrow> a = b \<or> a = StopUncalled \<or> a = StopWaits \<and> b \<noteq> StopUncalled"

definition less_stop_call :: "stop_call \<Rightarrow> stop_call \<Rightarrow> bool" where
  "less_stop_call a b \<longleftrightarrow> a \<le> b \<and> \<not> b \<le> a"

instance
  by standard (auto simp: less_eq_stop_call_def less_stop_call_def)

end

text \<open>\<open>cs_ready\<close> counts how often the channel \<open>ready\<close> was closed: Go panics at the second time.\<close>

record ConsumerState =
  cs_loop :: consume_loop
  cs_once :: bool
  cs_ready :: nat
  cs_sessions :: nat
  cs_start :: start_call
  cs_stop :: stop_call
  cs_cancelled :: bool
  cs_group_open :: bool

text \<open>
  \<open>NewConsumer\<close> and \<open>NewDLQConsumer\<close>, given what opening the group returns: the name of the group
  and its configuration, or the error.
\<close>

definition open_group ::
    "(string \<Rightarrow> 'v option) \<Rightarrow> 'v \<Rightarrow> 'v SaramaConfig \<Rightarrow> error option \<Rightarrow> string \<Rightarrow> string \<Rightarrow> KafkaConfig \<Rightarrow>
     error + string \<times> 'v SaramaConfig" where
  "open_group parseVersion V2_6_0_0 newConfig opened failed name cfg = (case Validate (Config.truncate cfg) of
       Some e \<Rightarrow> Inl (Wrapped ''invalid kafka config'' e)
     | None \<Rightarrow> (case opened of
           Some e \<Rightarrow> Inl (Wrapped failed e)
         | None \<Rightarrow> Inr (name, consumer_settings (NewSaramaConfig parseVersion V2_6_0_0 newConfig cfg))))"

definition NewConsumer ::
    "(string \<Rightarrow> 'v option) \<Rightarrow> 'v \<Rightarrow> 'v SaramaConfig \<Rightarrow> error option \<Rightarrow> KafkaConfig \<Rightarrow> error + string \<times> 'v SaramaConfig" where
  "NewConsumer parseVersion V2_6_0_0 newConfig opened cfg =
     open_group parseVersion V2_6_0_0 newConfig opened ''create consumer group failed'' (cfg_ConsumerGroup cfg) cfg"

definition NewDLQConsumer ::
    "(string \<Rightarrow> 'v option) \<Rightarrow> 'v \<Rightarrow> 'v SaramaConfig \<Rightarrow> error option \<Rightarrow> KafkaConfig \<Rightarrow> error + string \<times> 'v SaramaConfig" where
  "NewDLQConsumer parseVersion V2_6_0_0 newConfig opened cfg =
     open_group parseVersion V2_6_0_0 newConfig opened ''create dlq consumer group failed''
       (cfg_ConsumerGroup cfg @ ''-dlq'') cfg"

text \<open>
  The two consumers join different groups and both commit automatically, although the
  configuration they start from turns that off.
\<close>

lemma consumers_auto_commit:
  assumes "NewConsumer parseVersion v newConfig None cfg = Inr (name, s)"
    and "NewDLQConsumer parseVersion v newConfig None cfg = Inr (name', s')"
  shows "name \<noteq> name' \<and> sc_AutoCommit s \<and> sc_AutoCommit s' \<and>
     \<not> sc_AutoCommit (NewSaramaConfig parseVersion v newConfig cfg)"
  using assms by (auto simp: NewConsumer_def NewDLQConsumer_def open_group_def consumer_settings_def NewSaramaConfig_def
      Let_def split: option.splits)

text \<open>The state \<open>Start\<close> leaves when it has started the goroutine.\<close>

definition launched :: ConsumerState where
  "launched = \<lparr>cs_loop = Consuming, cs_once = False, cs_ready = 0, cs_sessions = 0, cs_start = StartWaits,
     cs_stop = StopUncalled, cs_cancelled = False, cs_group_open = True\<rparr>"

text \<open>\<open>Setup\<close>: every rebalance calls it, \<open>readyOnce\<close> closes the channel the first time.\<close>

definition Setup :: "ConsumerState \<Rightarrow> ConsumerState" where
  "Setup s = (if cs_once s then s\<lparr>cs_sessions := Suc (cs_sessions s)\<rparr>
     else s\<lparr>cs_once := True, cs_ready := Suc (cs_ready s), cs_sessions := Suc (cs_sessions s)\<rparr>)"

text \<open>The test of \<open>c.ctx.Err()\<close> at the end of a round.\<close>

definition round_ends :: "ConsumerState \<Rightarrow> ConsumerState" where
  "round_ends s = s\<lparr>cs_loop := (if cs_cancelled s then Ended else Consuming)\<rparr>"

inductive consumer_step :: "ConsumerState \<Rightarrow> ConsumerState \<Rightarrow> bool" where
  session: "cs_loop s = Consuming \<Longrightarrow> cs_group_open s \<Longrightarrow> consumer_step s (Setup s)"
| consume_ok: "cs_loop s = Consuming \<Longrightarrow> consumer_step s (round_ends s)"
| consume_error: "cs_loop s = Consuming \<Longrightarrow> consumer_step s (s\<lparr>cs_loop := Sleeping\<rparr>)"
| wake: "cs_loop s = Sleeping \<Longrightarrow> consumer_step s (round_ends s)"
| start_ready: "cs_start s = StartWaits \<Longrightarrow> 0 < cs_ready s \<Longrightarrow> consumer_step s (s\<lparr>cs_start := StartOK\<rparr>)"
| start_cancelled: "cs_start s = StartWaits \<Longrightarrow> consumer_step s (s\<lparr>cs_start := StartCancelled\<rparr>)"
| stop_called: "cs_stop s = StopUncalled \<Longrightarrow> consumer_step s (s\<lparr>cs_cancelled := True, cs_stop := StopWaits\<rparr>)"
| stop_returns: "cs_stop s = StopWaits \<Longrightarrow> cs_loop s = Ended \<Longrightarrow>
    consumer_step s (s\<lparr>cs_group_open := False, cs_stop := StopReturned e\<rparr>)"

inductive consumer_reach :: "ConsumerState \<Rightarrow> bool" where
  launch: "consumer_reach launched"
| go_on: "consumer_reach s \<Longrightarrow> consumer_step s s' \<Longrightarrow> consumer_reach s'"

inductive_cases consumer_stepE: "consumer_step s s'"

text \<open>The invariant of the two goroutines.\<close>

definition orderly :: "ConsumerState \<Rightarrow> bool" where
  "orderly s \<longleftrightarrow> cs_ready s = (if cs_once s then 1 else 0) \<and> (0 < cs_sessions s \<longleftrightarrow> cs_once s) \<and>
     (cs_start s = StartOK \<longrightarrow> cs_once s) \<and> (cs_cancelled s \<longleftrightarrow> cs_stop s \<noteq> StopUncalled) \<and>
     (cs_loop s = Ended \<longrightarrow> cs_cancelled s) \<and>
     (cs_group_open s \<longleftrightarrow> (\<forall>e. cs_stop s \<noteq> StopReturned e)) \<and> (\<not> cs_group_open s \<longrightarrow> cs_loop s = Ended)"

lemma orderly_step: "consumer_step s s' \<Longrightarrow> orderly s \<Longrightarrow> orderly s'"
  by (induction rule: consumer_step.induct) (auto simp: orderly_def Setup_def round_ends_def)

lemma orderly_reach: "consumer_reach s \<Longrightarrow> orderly s"
  by (induction rule: consumer_reach.induct) (simp add: orderly_def launched_def, rule orderly_step)

lemma calls_advance_step: "consumer_step s s' \<Longrightarrow> cs_start s \<le> cs_start s' \<and> cs_stop s \<le> cs_stop s'"
  by (induction rule: consumer_step.induct)
    (auto simp: less_eq_start_call_def less_eq_stop_call_def Setup_def round_ends_def)

lemma calls_advance: "consumer_step\<^sup>*\<^sup>* s s' \<Longrightarrow> cs_start s \<le> cs_start s' \<and> cs_stop s \<le> cs_stop s'"
proof (induction rule: rtranclp_induct)
  case (step s' s'')
  then show ?case using calls_advance_step [OF step.hyps(2)] by (meson order_trans)
qed simp

text \<open>A call of \<open>Stop\<close> that waits is never stuck: \<open>Consume\<close> returning is enough.\<close>

lemma stop_not_stuck:
  assumes "consumer_reach s" and "cs_stop s = StopWaits"
  shows "\<exists>s'. consumer_step\<^sup>*\<^sup>* s s' \<and> cs_stop s' = StopReturned e"
proof -
  have c: "cs_cancelled s" using orderly_reach [OF assms(1)] assms(2) by (simp add: orderly_def)
  have fin: "\<exists>s''. consumer_step s' s'' \<and> cs_stop s'' = StopReturned e" if "cs_stop s' = StopWaits" "cs_loop s' = Ended" for s'
    using consumer_step.stop_returns [OF that, of e] by force
  show ?thesis
  proof (cases "cs_loop s = Ended")
    case True
    then show ?thesis using fin assms(2) by blast
  next
    case False
    then have "consumer_step s (round_ends s)"
      by (cases "cs_loop s") (auto intro: consumer_step.consume_ok consumer_step.wake)
    moreover obtain s'' where "consumer_step (round_ends s) s''" "cs_stop s'' = StopReturned e"
      using fin [of "round_ends s"] c assms(2) by (auto simp: round_ends_def)
    ultimately show ?thesis by (meson converse_rtranclp_into_rtranclp r_into_rtranclp)
  qed
qed

text \<open>C40: the two goroutines of a consumer work together in every interleaving: the ready channel is closed at most
  once although every rebalance calls \<open>Setup\<close>, \<open>Start\<close> reports success only after a session was set up,
  the consuming loop ends only after \<open>Stop\<close> was called, and when \<open>Stop\<close> has returned the loop has ended and the
  group is closed; a \<open>Stop\<close> that waits can always return once \<open>Consume\<close> does, and what \<open>Start\<close> and \<open>Stop\<close> have
  returned no later step changes.\<close>

theorem consumer_starts_and_stops:
  assumes "consumer_reach s"
  shows "cs_ready s \<le> 1 \<and> (cs_start s = StartOK \<longrightarrow> 0 < cs_sessions s) \<and>
     (cs_loop s = Ended \<longrightarrow> cs_stop s \<noteq> StopUncalled) \<and>
     (cs_stop s = StopReturned e \<longrightarrow> cs_loop s = Ended \<and> \<not> cs_group_open s) \<and>
     (cs_stop s = StopWaits \<longrightarrow> (\<exists>s'. consumer_step\<^sup>*\<^sup>* s s' \<and> cs_stop s' = StopReturned e)) \<and>
     (\<forall>s'. consumer_step\<^sup>*\<^sup>* s s' \<longrightarrow> cs_start s \<le> cs_start s' \<and> cs_stop s \<le> cs_stop s')"
  using orderly_reach [OF assms] stop_not_stuck [OF assms] calls_advance [of s] by (auto simp: orderly_def)

theorem consumer_starts_and_stops_witness:
  "\<exists>s s'. consumer_reach s \<and> cs_sessions s = 2 \<and> cs_ready s = 1 \<and> cs_stop s = StopWaits \<and>
     consumer_step\<^sup>*\<^sup>* s s' \<and> cs_stop s' = StopReturned None"
proof -
  let ?s = "(Setup (Setup launched))\<lparr>cs_cancelled := True, cs_stop := StopWaits\<rparr>"
  have 1: "consumer_reach (Setup launched)"
    by (rule consumer_reach.go_on [OF consumer_reach.launch consumer_step.session]) (simp_all add: launched_def)
  have 2: "consumer_reach (Setup (Setup launched))"
    by (rule consumer_reach.go_on [OF 1 consumer_step.session]) (simp_all add: launched_def Setup_def)
  have 3: "consumer_reach ?s"
    by (rule consumer_reach.go_on [OF 2 consumer_step.stop_called]) (simp add: launched_def Setup_def)
  have "cs_sessions ?s = 2" "cs_ready ?s = 1" "cs_stop ?s = StopWaits" by (simp_all add: launched_def Setup_def)
  with consumer_starts_and_stops [OF 3, of None] 3 show ?thesis by blast
qed

end
