(* ===== verification/Observability.thy ===== *)
theory Observability
  imports Message_Safety Kafka_Setup "HOL-Library.AList" "HOL-Library.Multiset"
begin

text \<open>
  \<open>internal/observability\<close>: the carrier that takes a trace through the headers of a Kafka record,
  the metrics, and the two middlewares around every request, with the order in which
  \<open>internal/server\<close> composes them.  The propagator and the tracer of OpenTelemetry, the
  recovery middleware of Kratos and the type name of a request are parameters.  A metric is
  the function from its labels to its value.
\<close>

section \<open>Carriers of a trace\<close>

definition lower_char :: "char \<Rightarrow> char" where
  "lower_char c = (let n = (of_char c :: nat) in if 65 \<le> n \<and> n \<le> 90 then char_of (n + 32) else c)"

text \<open>\<open>strings.ToLower\<close>; header names are ASCII.\<close>

definition ToLower :: "string \<Rightarrow> string" where
  "ToLower s = map lower_char s"

lemma lower_char_idem: "lower_char (lower_char c) = lower_char c"
  by (auto simp: lower_char_def Let_def)

lemma ToLower_idem [simp]: "ToLower (ToLower s) = ToLower s"
  by (simp add: ToLower_def lower_char_idem)

text \<open>A Go map as the list of its entries, with distinct keys, in some order.\<close>

type_synonym MapCarrier = "(string \<times> string) list"

definition MapCarrier_Get :: "MapCarrier \<Rightarrow> string \<Rightarrow> string" where
  "MapCarrier_Get c key = (case map_of c (ToLower key) of Some v \<Rightarrow> v | None \<Rightarrow> [])"

definition MapCarrier_Set :: "MapCarrier \<Rightarrow> string \<Rightarrow> string \<Rightarrow> MapCarrier" where
  "MapCarrier_Set c key val = AList.update (ToLower key) val c"

definition MapCarrier_Keys :: "MapCarrier \<Rightarrow> string list" where
  "MapCarrier_Keys c = map fst c"

definition set_all :: "(string \<times> string) list \<Rightarrow> MapCarrier" where
  "set_all kvs = foldl (\<lambda>c (k, v). MapCarrier_Set c k v) [] kvs"

text \<open>
  A \<open>TextMapPropagator\<close>: the names it uses, the \<open>Set\<close> calls of its \<open>Inject\<close> in order, and
  \<open>Extract\<close>, which reads the carrier through \<open>Get\<close>.
\<close>

record 'c propagator =
  pr_Fields :: "string list"
  pr_Inject :: "'c \<Rightarrow> (string \<times> string) list"
  pr_Extract :: "'c \<Rightarrow> (string \<Rightarrow> string) \<Rightarrow> 'c"

definition InjectKafkaHeaders :: "'c propagator \<Rightarrow> 'c \<Rightarrow> (string \<times> string) list" where
  "InjectKafkaHeaders p ctx = set_all (pr_Inject p ctx)"

definition ExtractKafkaContext :: "'c propagator \<Rightarrow> 'c \<Rightarrow> (string \<times> string) list \<Rightarrow> 'c" where
  "ExtractKafkaContext p ctx headers = pr_Extract p ctx (MapCarrier_Get (set_all headers))"

lemma map_of_set_all: "map_of (set_all kvs) = map_of (rev (map (apfst ToLower) kvs))"
  by (induction kvs rule: rev_induct)
    (auto simp: set_all_def MapCarrier_Set_def update_conv' apfst_def split: prod.splits)

lemma set_all_keys: "distinct (map fst (set_all kvs)) \<and> (\<forall>k \<in> set (map fst (set_all kvs)). ToLower k = k)"
  by (induction kvs rule: rev_induct)
    (auto simp: set_all_def MapCarrier_Set_def update_keys simp del: set_map split: prod.splits)

text \<open>What was set is read back, whatever the case of the name.\<close>

lemma MapCarrier_Get_Set:
  "MapCarrier_Get (MapCarrier_Set c k v) k' = (if ToLower k' = ToLower k then v else MapCarrier_Get c k')"
  by (simp add: MapCarrier_Get_def MapCarrier_Set_def update_conv')

text \<open>The headers of a record, in the order of some iteration over the map, then the business
  headers: reading a name that is not a business header gives what \<open>Inject\<close> has set.\<close>

lemma headers_carry_the_trace:
  assumes "mset hs = mset (InjectKafkaHeaders p ctx)" and "\<forall>h \<in> set bs. ToLower (fst h) \<noteq> ToLower k"
  shows "MapCarrier_Get (set_all (hs @ bs)) k = MapCarrier_Get (InjectKafkaHeaders p ctx) k"
proof -
  let ?c = "InjectKafkaHeaders p ctx"
  have c: "distinct (map fst ?c)" "\<forall>q \<in> set (map fst ?c). ToLower q = q"
    using set_all_keys by (simp_all add: InjectKafkaHeaders_def del: set_map)
  have s: "set hs = set ?c" using assms(1) by (metis set_mset_mset)
  have d: "distinct (map fst hs)" using c(1) assms(1) by (metis mset_eq_imp_distinct_iff mset_map)
  have "map (apfst ToLower) hs = map id hs" using c(2) s by (intro map_cong) (auto simp: apfst_def)
  then have l: "map (apfst ToLower) hs = hs" by simp
  have b: "map_of (rev (map (apfst ToLower) bs)) (ToLower k) = None"
    using assms(2) by (auto simp: map_of_eq_None_iff apfst_def)
  have "map_of (rev hs) = map_of hs" using d by (simp add: map_of_inject_set rev_map [symmetric])
  also have "\<dots> = map_of ?c" using d c(1) s by (simp add: map_of_inject_set)
  finally show ?thesis by (simp add: MapCarrier_Get_def map_of_set_all l b map_add_def)
qed

text \<open>
  What OpenTelemetry promises of a propagator: \<open>Inject\<close> sets only its fields, whose names differ in
  more than case, and \<open>Extract\<close> finds a valid trace again in a carrier that reads as the one
  \<open>Inject\<close> has filled.
\<close>

definition carries :: "'c propagator \<Rightarrow> ('c \<Rightarrow> string) \<Rightarrow> bool" where
  "carries p traceid \<longleftrightarrow> inj_on ToLower (set (pr_Fields p)) \<and>
     (\<forall>ctx. fst ` set (pr_Inject p ctx) \<subseteq> set (pr_Fields p) \<and>
       (traceid ctx \<noteq> [] \<longrightarrow> (\<forall>ctx' get.
          (\<forall>k \<in> set (pr_Fields p). get k = (case map_of (rev (pr_Inject p ctx)) k of Some v \<Rightarrow> v | None \<Rightarrow> [])) \<longrightarrow>
          traceid (pr_Extract p ctx' get) = traceid ctx)))"

lemma map_of_lower:
  assumes "inj_on ToLower F" and "k \<in> F" and "fst ` set xs \<subseteq> F"
  shows "map_of (map (apfst ToLower) xs) (ToLower k) = map_of xs k"
  using assms(3) inj_onD [OF assms(1) _ assms(2)] by (induction xs) (auto simp: apfst_def)

lemma extract_injected:
  assumes "carries p traceid" and "traceid ctx \<noteq> []" and "mset hs = mset (InjectKafkaHeaders p ctx)"
    and "\<forall>h \<in> set bs. ToLower (fst h) \<notin> ToLower ` set (pr_Fields p)"
  shows "traceid (ExtractKafkaContext p ctx' (hs @ bs)) = traceid ctx"
proof -
  have i: "inj_on ToLower (set (pr_Fields p))" "fst ` set (rev (pr_Inject p ctx)) \<subseteq> set (pr_Fields p)"
    using assms(1) by (auto simp: carries_def)
  have "MapCarrier_Get (set_all (hs @ bs)) k = (case map_of (rev (pr_Inject p ctx)) k of Some v \<Rightarrow> v | None \<Rightarrow> [])"
    if k: "k \<in> set (pr_Fields p)" for k
  proof -
    have "\<forall>h \<in> set bs. ToLower (fst h) \<noteq> ToLower k" using assms(4) k by auto
    from headers_carry_the_trace [OF assms(3) this] show ?thesis
      using map_of_lower [OF i(1) k i(2)]
      by (simp add: MapCarrier_Get_def InjectKafkaHeaders_def map_of_set_all rev_map)
  qed
  then show ?thesis using assms(1,2) by (simp add: carries_def ExtractKafkaContext_def)
qed

text \<open>
  A submission and its consumer are in one trace: when the headers \<open>SendEvent\<close> is given
  are those \<open>InjectKafkaHeaders\<close> makes, in any order, the context extracted from the record of the order, of its
  retry or of its dead letter has the trace of the sender.  The names of \<open>propagation.TraceContext\<close>,
  which \<open>InitTracer\<close> installs, are not business headers.
\<close>

lemma trace_crosses_kafka:
  assumes "carries p traceid" and "traceid ctx \<noteq> []" and "mset (trace_headers E) = mset (InjectKafkaHeaders p ctx)"
    and "pr_Fields p = [''traceparent'', ''tracestate'']"
    and "send \<in> {Send E T om, SendToRetry E T om n d, SendToDLQ E T om reason n topic part off}"
    and "run_state send w = (Inr (), w')"
  shows "traceid (ExtractKafkaContext p ctx' (pm_Headers (last (kafka_log w')))) = traceid ctx"
proof -
  let ?names = "[''retry_count'', ''order_no'', ''trace_id'', ''request_id'', ''next_retry_at'', ''event_id'',
    ''original_topic'', ''reason'']"
  have "\<exists>bs. pm_Headers (last (kafka_log w')) = trace_headers E @ bs \<and> fst ` set bs \<subseteq> set ?names"
    using assms(5,6) SendMessage_Inr by (auto simp: Send_def SendToRetry_def SendToDLQ_def SendEvent_def Let_def)
  then obtain bs where bs: "pm_Headers (last (kafka_log w')) = trace_headers E @ bs" "fst ` set bs \<subseteq> set ?names" by blast
  have "\<forall>k \<in> set ?names. ToLower k \<notin> ToLower ` set (pr_Fields p)"
    by (simp add: assms(4) ToLower_def lower_char_def)
  then have "\<forall>h \<in> set bs. ToLower (fst h) \<notin> ToLower ` set (pr_Fields p)" using bs(2) by blast
  then show ?thesis unfolding bs(1) by (rule extract_injected [OF assms(1-3)])
qed

text \<open>The propagator \<open>TraceContext\<close> reduced to a trace identifier is one that carries it.\<close>

lemma carries_example:
  "carries \<lparr>pr_Fields = [''traceparent'', ''tracestate''],
      pr_Inject = (\<lambda>c. if c = [] then [] else [(''traceparent'', c)]),
      pr_Extract = (\<lambda>c get. if get ''traceparent'' = [] then c else get ''traceparent'')\<rparr> id"
  by (simp add: carries_def ToLower_def lower_char_def)

section \<open>Starting the tracer\<close>

record TracerConfig =
  tc_Enabled :: bool
  tc_ServiceName :: string
  tc_Env :: string
  tc_Endpoint :: string
  tc_SampleRatio :: rat

datatype shutdown = NoShutdown | ProviderShutdown

text \<open>
  The global state of OpenTelemetry: the provider's sampling ratio, and whether a propagator is
  set.  Making the exporter and the resource may fail: parameters.
\<close>

record otel =
  ot_provider :: "rat option"
  ot_propagator :: bool

definition InitTracer ::
    "(string \<Rightarrow> error option) \<Rightarrow> (string \<Rightarrow> string \<Rightarrow> error option) \<Rightarrow> TracerConfig \<Rightarrow> otel \<Rightarrow> (error + shutdown) \<times> otel" where
  "InitTracer exporter resource cfg g =
     (if \<not> tc_Enabled cfg \<or> tc_Endpoint cfg = [] then (Inr NoShutdown, g\<lparr>ot_propagator := True\<rparr>)
      else case exporter (tc_Endpoint cfg) of
        Some e \<Rightarrow> (Inl (Wrapped ''create otlp exporter failed'' e), g)
      | None \<Rightarrow> (case resource (tc_ServiceName cfg) (tc_Env cfg) of
          Some e \<Rightarrow> (Inl (Wrapped ''create resource failed'' e), g)
        | None \<Rightarrow> (Inr ProviderShutdown, g\<lparr>ot_provider := Some (tc_SampleRatio cfg), ot_propagator := True\<rparr>)))"

text \<open>The tracer starts with a propagator, enabled or not, and a failed start leaves the globals alone.\<close>

lemma InitTracer_propagates:
  "InitTracer exporter resource cfg g = (r, g') \<Longrightarrow> case r of Inl _ \<Rightarrow> g' = g | Inr _ \<Rightarrow> ot_propagator g'"
  by (auto simp: InitTracer_def split: if_splits option.splits)

section \<open>Metrics and spans\<close>

datatype 'e span_status = SpanOk | SpanError 'e

text \<open>The counters, durations and gauges by their labels, and the spans in the order they ended.\<close>

record 'e telemetry =
  tm_ops :: "string \<times> string \<times> string \<Rightarrow> nat"
  tm_durations :: "string \<times> string \<Rightarrow> Time list"
  tm_in_flight :: "string \<times> string \<Rightarrow> int"
  tm_spans :: "(string \<times> 'e span_status) list"

definition Finish :: "string \<Rightarrow> 'e option \<Rightarrow> 'e telemetry \<Rightarrow> 'e telemetry" where
  "Finish name err t = t\<lparr>tm_spans := tm_spans t @ [(name, case err of None \<Rightarrow> SpanOk | Some e \<Rightarrow> SpanError e)]\<rparr>"

definition ObserveOperation :: "string \<Rightarrow> string \<Rightarrow> string \<Rightarrow> Time \<Rightarrow> Time \<Rightarrow> 'e telemetry \<Rightarrow> 'e telemetry" where
  "ObserveOperation component operation result start now t =
     t\<lparr>tm_ops := (tm_ops t)((component, operation, result) := Suc (tm_ops t (component, operation, result))),
       tm_durations := (tm_durations t)((component, operation) := tm_durations t (component, operation) @ [now - start])\<rparr>"

definition in_flight_add :: "string \<Rightarrow> string \<Rightarrow> int \<Rightarrow> 'e telemetry \<Rightarrow> 'e telemetry" where
  "in_flight_add component op n t =
     t\<lparr>tm_in_flight := (tm_in_flight t)((component, op) := tm_in_flight t (component, op) + n)\<rparr>"

text \<open>
  The error a handler's result carries, if any: a panic unwinds the deferred functions with the
  named result \<open>err\<close> still nil.
\<close>

fun err_of :: "('e + 'a) outcome \<Rightarrow> 'e option" where
  "err_of (Returns (Inl e)) = Some e"
| "err_of (Returns (Inr x)) = None"
| "err_of Panics = None"

text \<open>What follows \<open>next\<close> in \<open>MetricsMiddleware\<close>: after a panic only the deferred \<open>g.Dec()\<close> runs.\<close>

definition observed :: "string \<Rightarrow> string \<Rightarrow> Time \<Rightarrow> Time \<Rightarrow> ('e + 'a) outcome \<Rightarrow> 'e telemetry \<Rightarrow> 'e telemetry" where
  "observed component op start now r t = in_flight_add component op (- 1) (case r of
       Panics \<Rightarrow> t
     | Returns x \<Rightarrow> ObserveOperation component op (case x of Inl _ \<Rightarrow> ''fail'' | Inr _ \<Rightarrow> ''success'') start now t)"

section \<open>Middlewares\<close>

text \<open>A handler may panic; it changes the metrics and the world.\<close>

type_synonym ('e, 'a) served = "('e telemetry \<times> world, ('e + 'a) outcome) state"

type_synonym ('q, 'e, 'a) handler = "'q \<Rightarrow> ('e, 'a) served"

definition TraceMiddleware ::
    "string \<Rightarrow> ('q \<Rightarrow> string) \<Rightarrow> ('q, 'e, 'a) handler \<Rightarrow> ('q, 'e, 'a) handler" where
  "TraceMiddleware component type_name nxt req = do {
     r \<leftarrow> nxt req;
     _ \<leftarrow> modify (apfst (Finish (component @ ''.'' @ type_name req) (err_of r)));
     return r }"

definition MetricsMiddleware ::
    "string \<Rightarrow> ('q \<Rightarrow> string) \<Rightarrow> ('q, 'e, 'a) handler \<Rightarrow> ('q, 'e, 'a) handler" where
  "MetricsMiddleware component type_name nxt req = do {
     start \<leftarrow> asks (\<lambda>s. clock (snd s));
     _ \<leftarrow> modify (apfst (in_flight_add component (type_name req) 1));
     r \<leftarrow> nxt req;
     now \<leftarrow> asks (\<lambda>s. clock (snd s));
     _ \<leftarrow> modify (apfst (observed component (type_name req) start now r));
     return r }"

text \<open>
  The chain of \<open>NewHTTPServer\<close> and \<open>NewGRPCServer\<close>, outermost first: Kratos's recovery, the trace, the
  metrics, the handler.
\<close>

definition server_handler ::
    "(('q, 'e, 'a) handler \<Rightarrow> ('q, 'e, 'a) handler) \<Rightarrow> string \<Rightarrow> ('q \<Rightarrow> string) \<Rightarrow>
     ('q, 'e, 'a) handler \<Rightarrow> ('q, 'e, 'a) handler" where
  "server_handler recovery component type_name h =
     recovery (TraceMiddleware component type_name (MetricsMiddleware component type_name h))"

text \<open>
  A handler whose own calls record nothing under the server's labels: the metrics of the
  repositories and of Kafka have labels of their own and are left out.
\<close>

definition inside :: "(world, ('e + 'a) outcome) state \<Rightarrow> ('e, 'a) served" where
  "inside m = State (\<lambda>(t, w). case run_state m w of (r, w') \<Rightarrow> (r, (t, w')))"

text \<open>A handler of the service: a nil dereference is a panic.\<close>

fun rpc_outcome :: "rpc_error + 'a \<Rightarrow> (rpc_error + 'a) outcome" where
  "rpc_outcome (Inl NilDereference) = Panics"
| "rpc_outcome r = Returns r"

definition of_rpc :: "'a rpc \<Rightarrow> (world, (rpc_error + 'a) outcome) state" where
  "of_rpc m = do { r \<leftarrow> m; return (rpc_outcome r) }"

text \<open>What Kratos documents of \<open>recovery.Recovery\<close>: a panic becomes an error, all else passes.\<close>

definition recovers :: "(('q, 'e, 'a) handler \<Rightarrow> ('q, 'e, 'a) handler) \<Rightarrow> 'e \<Rightarrow> bool" where
  "recovers recovery e \<longleftrightarrow> (\<forall>nxt req s. run_state (recovery nxt req) s =
     (case run_state (nxt req) s of (r, s') \<Rightarrow> (case r of Panics \<Rightarrow> Returns (Inl e) | _ \<Rightarrow> r, s')))"

lemma run_inside: "run_state m w = (a, w') \<Longrightarrow> run_state (inside m) (t, w) = (a, (t, w'))"
  by (simp add: inside_def)

lemmas telemetry_defs = in_flight_add_def observed_def ObserveOperation_def Finish_def

text \<open>The middlewares with the handler inside: the state they leave, in one equation.\<close>

lemma run_middlewares:
  assumes "run_state (h q) w = (a, w')"
  shows "run_state (TraceMiddleware c tn (MetricsMiddleware c tn (\<lambda>q. inside (h q))) q) (t, w) =
     (a, (Finish (c @ ''.'' @ tn q) (err_of a) (observed c (tn q) (clock w) (clock w') a (in_flight_add c (tn q) 1 t)), w'))"
  by (simp add: TraceMiddleware_def MetricsMiddleware_def run_inside [where m = "h q", OF assms])

text \<open>The servers' middlewares neither change what a handler does to the world nor what it answers, and they
  account for it: the gauge of requests in flight is back where it was, a request that returns is counted once,
  under success or fail as it returned, and its span says which. A request that panics is answered with
  the recovery's error, but the counters miss it and its span ends as a success.\<close>

theorem requests_are_accounted_for:
  assumes rec: "recovers recovery u" and h: "run_state (h q) w = (a, w')"
  shows "\<exists>t'. run_state (server_handler recovery c tn (\<lambda>q. inside (h q)) q) (t, w) =
       ((case a of Panics \<Rightarrow> Returns (Inl u) | _ \<Rightarrow> a), (t', w')) \<and>
     tm_in_flight t' = tm_in_flight t \<and>
     tm_ops t' (c, tn q, ''success'') = tm_ops t (c, tn q, ''success'') + (case a of Returns (Inr x) \<Rightarrow> 1 | _ \<Rightarrow> 0) \<and>
     tm_ops t' (c, tn q, ''fail'') = tm_ops t (c, tn q, ''fail'') + (case a of Returns (Inl e) \<Rightarrow> 1 | _ \<Rightarrow> 0) \<and>
     tm_durations t' (c, tn q) = tm_durations t (c, tn q) @ (if a = Panics then [] else [clock w' - clock w]) \<and>
     tm_spans t' = tm_spans t @ [(c @ ''.'' @ tn q, case a of Returns (Inl e) \<Rightarrow> SpanError e | _ \<Rightarrow> SpanOk)]"
proof -
  have run: "run_state (server_handler recovery c tn (\<lambda>q. inside (h q)) q) (t, w) =
      ((case a of Panics \<Rightarrow> Returns (Inl u) | _ \<Rightarrow> a),
       (Finish (c @ ''.'' @ tn q) (err_of a) (observed c (tn q) (clock w) (clock w') a (in_flight_add c (tn q) 1 t)), w'))"
    using rec by (simp add: server_handler_def recovers_def run_middlewares [of h, OF h])
  show ?thesis
    by (rule exI, rule conjI [OF run], cases a rule: err_of.cases) (auto simp: telemetry_defs fun_eq_iff)
qed

definition recovery0 :: "('q, rpc_error, 'a) handler \<Rightarrow> ('q, rpc_error, 'a) handler" where
  "recovery0 nxt req = do {
     r \<leftarrow> nxt req;
     return (case r of Panics \<Rightarrow> Returns (Inl (Status Internal ''unknown'')) | _ \<Rightarrow> r) }"

lemma recovers_recovery0: "recovers recovery0 (Status Internal ''unknown'')"
  by (simp add: recovers_def recovery0_def split: prod.split)

definition telemetry0 :: "rpc_error telemetry" where
  "telemetry0 = \<lparr>tm_ops = (\<lambda>_. 0), tm_durations = (\<lambda>_. []), tm_in_flight = (\<lambda>_. 0), tm_spans = []\<rparr>"

theorem requests_are_accounted_for_witness:
  "\<exists>t'. run_state (server_handler recovery0 ''grpc'' (\<lambda>_. ''pay'') (\<lambda>_. inside (return Panics)) ()) (telemetry0, w0) =
       (Returns (Inl (Status Internal ''unknown'')), (t', w0)) \<and>
     tm_in_flight t' (''grpc'', ''pay'') = 0 \<and> tm_ops t' (''grpc'', ''pay'', ''fail'') = 0 \<and>
     tm_spans t' = [(''grpc.pay'', SpanOk)]"
proof -
  have h: "run_state (return Panics) w0 = (Panics, w0)" by simp
  show ?thesis
    using requests_are_accounted_for [where h = "\<lambda>_. return Panics" and q = "()" and c = "''grpc''"
        and tn = "\<lambda>_. ''pay''" and t = telemetry0, OF recovers_recovery0 h]
    by (auto simp: telemetry0_def)
qed

text \<open>The one handler that follows a pointer of the usecase's answer never finds it nil.\<close>

lemma product_detail_never_panics:
  "run_state (of_rpc (rpc_SeckillProductDetail E uc fuel req)) w \<noteq> (Panics, w')"
  by (auto simp: of_rpc_def rpc_SeckillProductDetail_def GetSeckillProductDetail_def run_bindE
      split: sum.splits option.splits prod.splits if_splits)

section \<open>Requests that overlap\<close>

text \<open>
  Requests arrive, return and panic in any order: the labels and start of the requests in
  flight, and the labels and result of those that returned.
\<close>

inductive serving ::
    "'e telemetry \<Rightarrow> (string \<times> string \<times> Time) multiset \<Rightarrow> (string \<times> string \<times> string) multiset \<Rightarrow> bool" where
  idle: "serving \<lparr>tm_ops = (\<lambda>_. 0), tm_durations = (\<lambda>_. []), tm_in_flight = (\<lambda>_. 0), tm_spans = ss\<rparr> {#} {#}"
| arrives: "serving t A R \<Longrightarrow> serving (in_flight_add c op 1 t) (add_mset (c, op, start) A) R"
| succeeds: "serving t (add_mset (c, op, start) A) R \<Longrightarrow>
    serving (Finish name None (observed c op start now (Returns (Inr ())) t)) A (add_mset (c, op, ''success'') R)"
| fails: "serving t (add_mset (c, op, start) A) R \<Longrightarrow>
    serving (Finish name (Some e) (observed c op start now (Returns (Inl e :: 'e + unit)) t)) A (add_mset (c, op, ''fail'') R)"
| panics: "serving t (add_mset (c, op, start) A) R \<Longrightarrow>
    serving (Finish name None (observed c op start now (Panics :: ('e + unit) outcome) t)) A R"

text \<open>
  Whatever the interleaving, the gauge is the number of requests in flight and the counters are those
  of the requests that returned.
\<close>

lemma metrics_count_the_requests:
  "serving t A R \<Longrightarrow> tm_in_flight t (c, op) = int (count (image_mset (\<lambda>(c, op, start). (c, op)) A) (c, op)) \<and>
     tm_ops t (c, op, r) = count R (c, op, r)"
  by (induction rule: serving.induct) (auto simp: telemetry_defs)

end
