(* ===== verification/Startup.thy ===== *)
theory Startup
  imports Observability
begin

text \<open>
  From \<open>main\<close> to the running tasks: the databases and query handles of \<open>internal/data/data.go\<close>, and \<open>main.go\<close>,
  \<open>wireApp\<close> and the background tasks of \<open>cmd/seckill-service\<close>.  What opening a connection, loading the configuration
  or running the application returns is a parameter; what is followed is which resources are
  open, in which order they are released, and which tasks run.
\<close>

section \<open>Databases\<close>

datatype database = CoreDb | UserDb | ProductDb | PayDb

text \<open>The result of opening databases in order, and those that are open when it returns.\<close>

fun open_databases :: "(database \<times> string) list \<Rightarrow> (database \<Rightarrow> error option) \<Rightarrow> error option \<times> database list" where
  "open_databases [] fails = (None, [])"
| "open_databases ((d, message) # ds) fails = (case fails d of
       Some e \<Rightarrow> (Some (Wrapped message e), [])
     | None \<Rightarrow> (case open_databases ds fails of (r, opened) \<Rightarrow> (r, d # opened)))"

definition NewData :: "(database \<Rightarrow> error option) \<Rightarrow> error option \<times> database list" where
  "NewData = open_databases [(CoreDb, ''connect user db failed''), (UserDb, ''connect user db failed''),
     (ProductDb, ''connect product db failed''), (PayDb, ''connect pay db failed'')]"

text \<open>
  An error is of the first database that fails, and those before it stay open.  The core and the
  user database fail with the same text.
\<close>

lemma NewData_error:
  assumes "NewData fails = (Some e, opened)"
  shows "\<exists>d x message. fails d = Some x \<and> e = Wrapped message x \<and> opened = takeWhile (\<lambda>d. fails d = None) [CoreDb, UserDb, ProductDb, PayDb]"
  using assms by (auto simp: NewData_def split: option.splits)

lemma NewData_ok: "NewData fails = (None, opened) \<longleftrightarrow> opened = [CoreDb, UserDb, ProductDb, PayDb] \<and> (\<forall>d. fails d = None)"
proof -
  have "(\<forall>d. fails d = None) \<longleftrightarrow> fails CoreDb = None \<and> fails UserDb = None \<and> fails ProductDb = None \<and> fails PayDb = None"
    by (metis database.exhaust)
  then show ?thesis by (auto simp: NewData_def split: option.splits)
qed

lemma NewData_same_text:
  assumes "fails CoreDb = Some e" and "fails' CoreDb = None" and "fails' UserDb = Some e"
  shows "fst (NewData fails) = fst (NewData fails')"
  using assms by (simp add: NewData_def)

text \<open>
  A query runs on a connection of a pool or in a transaction.  A context carries at most one
  transaction of the core database, the one of the innermost \<open>ExecTx\<close>.
\<close>

datatype handle = Pool database | InTx nat

record Context =
  ctx_tx :: "nat option"

definition enter_tx :: "nat \<Rightarrow> Context \<Rightarrow> Context" where
  "enter_tx tx ctx = ctx\<lparr>ctx_tx := Some tx\<rparr>"

definition GetCoreQuery :: "Context \<Rightarrow> handle" where
  "GetCoreQuery ctx = (case ctx_tx ctx of Some tx \<Rightarrow> InTx tx | None \<Rightarrow> Pool CoreDb)"

definition GetCoreDB :: "Context \<Rightarrow> handle" where
  "GetCoreDB ctx = (case ctx_tx ctx of Some tx \<Rightarrow> InTx tx | None \<Rightarrow> Pool CoreDb)"

definition GetUserQuery :: "Context \<Rightarrow> handle" where
  "GetUserQuery ctx = Pool UserDb"

definition GetProductQuery :: "Context \<Rightarrow> handle" where
  "GetProductQuery ctx = Pool ProductDb"

definition GetProductDB :: "Context \<Rightarrow> handle" where
  "GetProductDB ctx = Pool ProductDb"

definition GetPayQuery :: "Context \<Rightarrow> handle" where
  "GetPayQuery ctx = Pool PayDb"

text \<open>Inside \<open>ExecTx\<close> only the core database is in the transaction: what \<open>ExecTx\<close> of the theory World rolls back.\<close>

lemma only_core_joins:
  "GetCoreQuery (enter_tx tx ctx) = InTx tx" "GetCoreDB (enter_tx tx ctx) = InTx tx"
  "GetPayQuery (enter_tx tx ctx) = GetPayQuery ctx" "GetUserQuery (enter_tx tx ctx) = GetUserQuery ctx"
  by (simp_all add: enter_tx_def GetCoreQuery_def GetCoreDB_def GetPayQuery_def GetUserQuery_def)

section \<open>The application\<close>

datatype resource = Database database | SyncProducer | AsyncProducer | Group string | Tracer | MetricsServer | ConfigSource

text \<open>
  \<open>wireApp\<close>: its error, if any, and what is open when it returns.  The configuration message may
  lack a part, which panics, and its clean-up function is empty.
\<close>

record 'v Connect =
  op_database :: "database \<Rightarrow> error option"
  op_sync :: "error option"
  op_async :: "error option"
  op_group :: "error option"
  op_dlq_group :: "error option"
  op_parseVersion :: "string \<Rightarrow> 'v option"
  op_V2_6_0_0 :: 'v
  op_newConfig :: "'v SaramaConfig"

definition open_consumers :: "'v Connect \<Rightarrow> KafkaConfig \<Rightarrow> error option \<times> resource list" where
  "open_consumers o' cfg =
     (case NewConsumer (op_parseVersion o') (op_V2_6_0_0 o') (op_newConfig o') (op_group o') cfg of
       Inl e \<Rightarrow> (Some e, [])
     | Inr (name, _) \<Rightarrow>
         (case NewDLQConsumer (op_parseVersion o') (op_V2_6_0_0 o') (op_newConfig o') (op_dlq_group o') cfg of
           Inl e \<Rightarrow> (Some e, [Group name])
         | Inr (dlq, _) \<Rightarrow> (None, [Group name, Group dlq])))"

definition wireApp :: "('d option \<Rightarrow> Time) \<Rightarrow> 'v Connect \<Rightarrow> 'd ProtoKafka option \<Rightarrow> (error option \<times> resource list) outcome" where
  "wireApp asDuration o' k = (case NewData (op_database o') of
       (Some e, opened) \<Rightarrow> Returns (Some e, map Database opened)
     | (None, opened) \<Rightarrow> (case FromProto asDuration k of
           Returns (Some cfg) \<Rightarrow> (case NewProducer (op_sync o') (op_async o') cfg of
               (Inl e, _) \<Rightarrow> Returns (Some e, map Database opened)
             | (Inr p, _) \<Rightarrow> (case open_consumers o' cfg of
                   (r, groups) \<Rightarrow> Returns (r, map Database opened @ [SyncProducer, AsyncProducer] @ groups)))
         | _ \<Rightarrow> Panics))"

text \<open>A wired application has its four databases, both producers and two different groups.\<close>

lemma wireApp_ok:
  assumes "wireApp asDuration o' k = Returns (None, opened)"
  shows "\<exists>g g'. g \<noteq> g' \<and> opened = map Database [CoreDb, UserDb, ProductDb, PayDb] @ [SyncProducer, AsyncProducer, Group g, Group g']"
  using assms
  by (auto simp: wireApp_def open_consumers_def NewConsumer_def NewDLQConsumer_def open_group_def NewData_ok
      split: outcome.splits option.splits prod.splits sum.splits)

section \<open>Background tasks\<close>

datatype background = WarmUp | ConsumerTask | DLQConsumerTask | DelayQueueTask | Compensation

text \<open>
  \<open>BackgroundTasks.Start\<close>: the tasks it has started, by how far its call of the consumer's \<open>Start\<close> has come.
  Its errors are logged only; all but the first two tasks get goroutines of their own.
\<close>

definition BackgroundTasks_Start :: "start_call \<Rightarrow> background list" where
  "BackgroundTasks_Start s = [WarmUp, ConsumerTask] @
     (case s of StartWaits \<Rightarrow> [] | _ \<Rightarrow> [DLQConsumerTask, DelayQueueTask, Compensation])"

text \<open>
  The consumer's \<open>Start\<close> waits for its first session: until Kafka gives it one (or the application is stopped),
  no order is cancelled for its timeout and nothing is compensated.
\<close>

lemma tasks_wait_for_kafka:
  assumes "consumer_reach s" and "t \<in> {DelayQueueTask, Compensation}" and "t \<in> set (BackgroundTasks_Start (cs_start s))"
  shows "0 < cs_sessions s \<or> cs_start s = StartCancelled"
  using orderly_reach [OF assms(1)] assms(2,3) by (cases "cs_start s") (auto simp: BackgroundTasks_Start_def orderly_def)

text \<open>\<open>BackgroundTasks.Stop\<close> closes the two groups, the dead-letter one first, whatever closing them returns.\<close>

definition BackgroundTasks_Stop :: "resource list \<Rightarrow> resource list" where
  "BackgroundTasks_Stop opened = rev (filter (\<lambda>r. \<exists>g. r = Group g) opened)"

section \<open>The process\<close>

text \<open>
  \<open>main\<close>: whether it panics, and what it releases, in order: the deferred calls run in reverse.
  Whether Kratos has called the hook before the stop when \<open>Run\<close> returns is its own affair.
\<close>

record process =
  pr_load :: "error option"
  pr_scan :: "error option"
  pr_observability :: "(error + shutdown) option"
  pr_metrics :: "error option"
  pr_run :: "error option"
  pr_stop_hook :: bool

definition run_app :: "(error option \<times> resource list) outcome \<Rightarrow> process \<Rightarrow> resource list \<Rightarrow> bool \<times> resource list" where
  "run_app app p deferred = (case app of
       Returns (None, opened) \<Rightarrow> (pr_run p \<noteq> None, (if pr_stop_hook p then BackgroundTasks_Stop opened else []) @ deferred)
     | _ \<Rightarrow> (True, deferred))"

definition service_main :: "(error option \<times> resource list) outcome \<Rightarrow> process \<Rightarrow> bool \<times> resource list" where
  "service_main app p =
     (if pr_load p \<noteq> None \<or> pr_scan p \<noteq> None then (True, [ConfigSource])
      else case pr_observability p of
        None \<Rightarrow> run_app app p [ConfigSource]
      | Some (Inl e) \<Rightarrow> (True, [ConfigSource])
      | Some (Inr _) \<Rightarrow>
          (if pr_metrics p \<noteq> None then (True, [Tracer, ConfigSource])
           else run_app app p [MetricsServer, Tracer, ConfigSource]))"

text \<open>
  However it ends, the configuration is released last, and the tracer if it was started; databases and
  producers never are, so what the asynchronous producer still holds is lost.
\<close>

lemma main_releases:
  assumes "service_main app p = (panics, released)"
  shows "released \<noteq> [] \<and> last released = ConfigSource \<and>
     (pr_load p = None \<and> pr_scan p = None \<and> (\<exists>sd. pr_observability p = Some (Inr sd)) \<longrightarrow> Tracer \<in> set released) \<and>
     AsyncProducer \<notin> set released \<and> (\<forall>d. Database d \<notin> set released)"
  using assms by (auto simp: service_main_def run_app_def BackgroundTasks_Stop_def
      split: if_splits option.splits sum.splits outcome.splits prod.splits)

lemma main_fails_with_the_application:
  assumes "service_main app p = (False, released)"
  shows "\<exists>opened. app = Returns (None, opened)"
  using assms by (auto simp: service_main_def run_app_def split: if_splits option.splits sum.splits outcome.splits prod.splits)

end
