(* ===== verification/Spec2Isabelle.thy ===== *)
theory Spec2Isabelle
  imports Keyspace_Safety Settlement_Safety Startup
begin

text \<open>
  The flash-sale service \<open>seckill-service\<close>, modelled and verified.

  The program.  A user submits an order over gRPC; the service guards the request (rate limits,
  an idempotency mark, the current activity), uses a coupon, reserves stock and a per-user mark in
  Redis with one Lua script, records the reservation as pending and sends a Kafka message.  A consumer confirms
  the message: in one MySQL transaction it inserts the order and its shipping address and
  takes the stock.  A delay queue in Redis cancels orders that are not paid in time, signed
  callbacks settle payments, failed messages go to a retry topic and finally to a dead-letter
  topic and table, from which an administrator can replay them, and a compensation job, run by
  one elected instance, repairs stock and forgotten reservations.

  How it is modelled.  All state is one record \<open>world\<close> (theory World): the Redis keyspace, the
  MySQL tables, the Kafka log and the consumers' position in each partition, a clock and counters.  An operation of the code is
  a state transformer that returns a value or an error (\<open>'a io\<close>), written with the same
  guards, order of calls and early returns as the Go function it is named after; the map from
  definitions to source lines is kept in the manifest.  Every call to
  Redis, MySQL or Kafka consumes one entry of the list \<open>replies\<close>: answered, refused, or carried out with
  its answer lost; the theorems quantify over that list, so they cover every pattern of
  failures.  Integers keep their Go widths where they can wrap (\<open>u32\<close>, \<open>u64\<close> words; \<open>wrap64\<close>
  on \<open>int\<close>); times are integers in nanoseconds.

  The theories, in the order they build on each other.
  Prelude: Go integers, decimal text, and the rules for frames (\<open>same\<close>),
  invariants (\<open>keeps\<close>) and triples that carry the component proofs.
  Types: errors, table rows, messages and the structs of \<open>internal/biz\<close>, \<open>internal/mq\<close> and
  \<open>internal/data\<close>.
  World: the state, calls and their failures, \<open>ExecTx\<close> of \<open>data/transaction.go\<close>.
  Interface and Contracts: the Go interfaces of \<open>biz/interface.go\<close> as records of operations,
  and one locale per interface with the laws its provider promises; each is interpreted on the
  model of the provider (Redis_Repo, Cache_Guards, Mysql_Repo, Wiring).
  Redis_Repo, Cache_Guards: \<open>data/repo/redis_repo.go\<close>, \<open>cache/limiter.go\<close>, \<open>cache/idempotent.go\<close>.
  Mysql_Base to Mysql_Repo: \<open>data/repo/mysql_repo.go\<close> on the tables of \<open>scripts/seckill.sql\<close>.
  Order_Biz, Pay_Biz, Catalog_Biz, Order_Create, Coupon_Biz: \<open>biz/seckill.go\<close>,
  \<open>biz/order_cancel.go\<close>, \<open>biz/coupon.go\<close>.
  Producer, Consumer, Kafka_Setup: \<open>internal/kafka\<close>; Kafka_Setup holds the configuration and the
  start and stop of the clients.
  Observability: \<open>internal/observability\<close> and the middleware chain of \<open>internal/server\<close>.
  Delay_Queue, Leader, Compensate: \<open>internal/job\<close>.
  Service_Types, Service: \<open>service/seckills.go\<close>.
  Startup: \<open>internal/data/data.go\<close> and \<open>cmd/seckill-service\<close>, from \<open>main\<close> to the background tasks.
  Wiring: the usecase over these providers, as \<open>wireApp\<close> builds it.
  System: every request, message and timer as an \<open>action\<close>, histories of actions, and the
  invariants that hold along them.
  Isolation: transactions as sequences of SQL statements that lock rows, and any interleaving of them.
  Sample, Evaluation: a small deployment on which every theorem is applied.

  What is proved.
  Order_Safety: no history of requests, messages, cancellations and failures creates or loses
  stock, moves an order backwards or gives a user two orders of an activity; a confirmation
  and a cancellation happen as a whole or not at all.
  Settlement_Safety: cancellations and payments whose statements interleave have the effect of some
  order of them one after the other, and one of them at most settles an order.
  Payment_Safety: only a callback with a valid signature makes an order paid, once; a
  settled payment never changes; and the commit that, when it is refused, leaves the two databases in
  disagreement for good.
  Reservation_Safety: concurrent reservations never take more than the stock and never two
  per user.
  Submission_Safety: what an accepted submission has done, what a failed one has undone, and
  the arithmetic of discounts.
  Message_Safety: a consumer's position only stops behind a message that has been handled, sent on or
  recorded; but it covers every message below it, so one that could be neither handled nor routed is
  passed over, and lost as soon as a later one of its partition is committed.  Retries and dead letters
  are read back as they were written, but a second dead letter of an event is dropped.  The back-off is a
  capped doubling.
  Queue_Safety: a scheduled order stays in the queue until its cancellation succeeded, and a
  due one is claimed by a poll.
  Leader_Safety: the lock has one holder; but an instance that lost it keeps its worker.
  Guard_Safety: the idempotency mark, the token bucket and the lock against their
  specifications.
  Catalog_Safety: the loops that wait for a lock end, cached data is read back, and what the batches
  of a warm-up write when some of them fail.
  Recovery_Safety: repeated messages, used coupons, strangers' requests and the repair of
  reservations.
  Kafka_Setup: the goroutines of a consumer start and stop in order.
  Observability: the middlewares change no answer and count what returns, though not what
  panics; a trace crosses Kafka in the headers.
  Startup: which resources are open after a failed start and at the end, and that the background
  tasks wait for Kafka.
  Keyspace_Safety: every Redis key always holds the kind of value its name stands for.

  Bounds and fuel.  \<open>getProductDetailWithMutex\<close> and \<open>getActivityFromCacheWithMutex\<close> wait in
  rounds of 50 and 30 milliseconds for a lock that is leased for 5 and 3 seconds; their fuel
  counts rounds, and \<open>product_detail_returns\<close> and \<open>current_activity_returns\<close> show that 101 rounds
  suffice for any lease the code itself takes.  All other loops are structural or have a measure.

  What is assumed.  An action runs from its first call to its last without
  another one in between, except where a theorem is about an interleaving of the commands
  themselves (reservations, guards, the queue, the election, the transactions of Isolation); a process that dies in
  the middle of an action is one whose remaining calls are refused.  A Redis command or script and an SQL
  statement are atomic, as their servers make them.  JSON text is a value of the
  datatype \<open>doc\<close> or a message, which its encoder and decoder keep.  The functions of
  other libraries (MD5, identifiers, time formats, the Bloom filter's false positives, the pages of a SCAN,
  rounding to a double) are fields of the record \<open>env\<close>, over which every theorem quantifies.
  Lua's numbers are doubles: the stock script compares integers exactly, as Lua does up to 2 to the 53; in the token bucket the
  configured limits and the stored decimals are taken exactly, without the rounding of their conversion,
  and the twelfth decimal of a tie is rounded up.  \<open>SETNX\<close> with a lease of zero or less, which no caller
  asks for, is an error here.

  What is not modelled.  The query code that gorm generates (its statements are modelled where the
  repository issues them), the generated protobuf and HTTP code, the sizes of connection pools,
  listeners, the metrics that operations record below the servers, the load-test tool and the
  code generators: they are generated, I/O or outside the service.  Of the Kafka clients
  the goroutine that logs asynchronous errors and the inside of \<open>Consume\<close> are left out: the first
  has no state, the second belongs to sarama.  The confirmation of an order,
  whose transaction inserts rows, is not interleaved with others statement by statement: the locks of
  inserts on index entries are left out.
\<close>

end
